theory Spec2Isabelle
  imports Complex_Main "HOL-Library.Word"
begin

section \<open>Data model of the PHY duration calculator (wifi-phy.cc)\<close>

text \<open>
  Machine integers are words of the width the source declares; their arithmetic wraps.
  A C++ \<open>double\<close> is represented by the real number it denotes. \<open>Time\<close> is the
  integer number of nanoseconds it holds.
\<close>

type_synonym uint8_t = "8 word"
type_synonym uint32_t = "32 word"
type_synonym uint64_t = "64 word"
type_synonym double = real
type_synonym Time = int

datatype error =
    FatalError string
  | AssertFailed
  | DivisionByZero
  | ConversionOutOfRange
  | NullPointerDereference
  | BufferOverrun

datatype WifiModulationClass =
    WIFI_MOD_CLASS_UNKNOWN
  | WIFI_MOD_CLASS_DSSS
  | WIFI_MOD_CLASS_HR_DSSS
  | WIFI_MOD_CLASS_ERP_OFDM
  | WIFI_MOD_CLASS_OFDM
  | WIFI_MOD_CLASS_HT
  | WIFI_MOD_CLASS_VHT
  | WIFI_MOD_CLASS_DMG_CTRL
  | WIFI_MOD_CLASS_DMG_OFDM
  | WIFI_MOD_CLASS_DMG_SC
  | WIFI_MOD_CLASS_DMG_LP_SC

datatype WifiCodeRate =
    WIFI_CODE_RATE_UNDEFINED
  | WIFI_CODE_RATE_3_4
  | WIFI_CODE_RATE_2_3
  | WIFI_CODE_RATE_1_2
  | WIFI_CODE_RATE_5_6
  | WIFI_CODE_RATE_1_4
  | WIFI_CODE_RATE_13_28
  | WIFI_CODE_RATE_13_21
  | WIFI_CODE_RATE_52_63
  | WIFI_CODE_RATE_13_14
  | WIFI_CODE_RATE_5_8
  | WIFI_CODE_RATE_13_16

datatype WifiPreamble =
    WIFI_PREAMBLE_LONG
  | WIFI_PREAMBLE_SHORT
  | WIFI_PREAMBLE_HT_MF
  | WIFI_PREAMBLE_HT_GF
  | WIFI_PREAMBLE_VHT
  | WIFI_PREAMBLE_NONE

datatype mpduType =
    NORMAL_MPDU
  | MPDU_IN_AGGREGATE
  | LAST_MPDU_IN_AGGREGATE

text \<open>
  A \<open>WifiMode\<close> is read through its accessors only. \<open>GetDataRate\<close> (channel width,
  short guard interval, spatial streams) is implemented outside wifi-phy.cc; it is a field
  of the mode here, so every result below holds for whatever rate function a mode carries.
\<close>

record WifiMode =
  GetUniqueName :: string
  GetModulationClass :: WifiModulationClass
  IsMandatory :: bool
  GetCodeRate :: WifiCodeRate
  GetConstellationSize :: nat
  GetMcsValue :: nat
  GetDataRate :: "nat \<Rightarrow> bool \<Rightarrow> nat \<Rightarrow> uint64_t"

record WifiTxVector =
  GetMode :: WifiMode
  GetChannelWidth :: nat
  GetNss :: nat
  GetNess :: nat
  IsShortGuardInterval :: bool
  IsStbc :: bool
  GetTrainngFieldLength :: nat

text \<open>The two members of \<open>WifiPhy\<close> that \<open>GetPayloadDuration\<close> reads and writes.\<close>

record WifiPhy =
  m_totalAmpduSize :: uint32_t
  m_totalAmpduNumSymbols :: double

definition WifiPhy_init :: WifiPhy where
  "WifiPhy_init = \<lparr>m_totalAmpduSize = 0, m_totalAmpduNumSymbols = 0\<rparr>"

text \<open>
  The floors \<open>OFDMSCMin\<close> and \<open>OFDMBRPMin\<close> are macros of a header that is not part
  of the sources at hand; they are parameters of the calculator.
\<close>

record DmgFloors =
  OFDMSCMin :: double
  OFDMBRPMin :: double

subsection \<open>Double-precision arithmetic\<close>

text \<open>
  An operation on doubles returns the binary64 number nearest to its exact result, ties
  going to the even significand. \<open>expo x\<close> is the exponent of the binary digit that
  leads \<open>x\<close>, \<open>quantum x\<close> the spacing of the doubles at \<open>x\<close> (53 significant
  bits), \<open>rhe\<close> rounds a real to the nearest integer, ties to even. The exponent range
  of binary64 is not represented: the quantities rounded below are sums, products and
  quotients of 32-bit and 64-bit integers and of the constants of the source, whose
  magnitudes lie far inside it.
\<close>

fun bits :: "nat \<Rightarrow> nat" where
  "bits n = (if n = 0 then 0 else Suc (bits (n div 2)))"

declare bits.simps [simp del]

definition expo :: "real \<Rightarrow> int" where
  "expo x = (if 1 \<le> \<bar>x\<bar> then int (bits (nat \<lfloor>\<bar>x\<bar>\<rfloor>)) - 1
             else - int (bits (nat (\<lceil>1 / \<bar>x\<bar>\<rceil> - 1))))"

definition rhe :: "real \<Rightarrow> int" where
  "rhe y = (let f = \<lfloor>y\<rfloor> in
             if y - of_int f < 1 / 2 then f
             else if 1 / 2 < y - of_int f then f + 1
             else if even f then f else f + 1)"

definition quantum :: "real \<Rightarrow> real" where
  "quantum x = 2 powi (expo x - 52)"

definition round_double :: "real \<Rightarrow> double" where
  "round_double x = of_int (rhe (x / quantum x)) * quantum x"

definition dadd :: "double \<Rightarrow> double \<Rightarrow> double" where
  "dadd x y = round_double (x + y)"

definition dsub :: "double \<Rightarrow> double \<Rightarrow> double" where
  "dsub x y = round_double (x - y)"

definition dmul :: "double \<Rightarrow> double \<Rightarrow> double" where
  "dmul x y = round_double (x * y)"

text \<open>The quotient of two doubles whose divisor is not zero.\<close>

definition ddiv :: "double \<Rightarrow> double \<Rightarrow> double" where
  "ddiv x y = round_double (x / y)"

text \<open>
  The quotient of two doubles in general: a zero divisor gives an infinity or, for a zero
  dividend, a NaN. (The zeros that occur as divisors below are converted from unsigned
  integers and are positive zeros.)
\<close>

datatype ieee = Finite double | PlusInfinity | MinusInfinity | NaN

definition divide_ieee :: "double \<Rightarrow> double \<Rightarrow> ieee" where
  "divide_ieee x y =
     (if y \<noteq> 0 then Finite (x / y)
      else if 0 < x then PlusInfinity
      else if x < 0 then MinusInfinity
      else NaN)"

subsection \<open>Conversions\<close>

definition MicroSeconds :: "int \<Rightarrow> Time" where
  "MicroSeconds v = 1000 * v"

definition NanoSeconds :: "int \<Rightarrow> Time" where
  "NanoSeconds v = v"

text \<open>
  \<open>NanoSeconds\<close> applied to a double: the value is converted to the integer parameter,
  which drops the fraction. Every call site passes a non-negative value.
\<close>

definition NanoSecondsD :: "double \<Rightarrow> Time" where
  "NanoSecondsD v = \<lfloor>v\<rfloor>"

text \<open>An unsigned integer of at most 53 bits is converted to a double without rounding.\<close>

definition to_double :: "'a::len word \<Rightarrow> double" where
  "to_double w = of_nat (unat w)"

text \<open>The conversion of a 64-bit unsigned integer rounds.\<close>

definition uint64_to_double :: "uint64_t \<Rightarrow> double" where
  "uint64_to_double w = round_double (of_nat (unat w))"

text \<open>The conversion of the \<open>long\<close> that \<open>lrint\<close> returns.\<close>

definition long_to_double :: "int \<Rightarrow> double" where
  "long_to_double k = round_double (of_int k)"

text \<open>
  The cast \<open>(uint32_t) x\<close> of a double truncates towards zero and is undefined when the
  truncated value does not fit.
\<close>

definition trunc :: "double \<Rightarrow> int" where
  "trunc x = (if 0 \<le> x then \<lfloor>x\<rfloor> else \<lceil>x\<rceil>)"

definition double_to_uint32 :: "double \<Rightarrow> error + uint32_t" where
  "double_to_uint32 x =
     (if 0 \<le> trunc x \<and> trunc x < 2 ^ 32 then Inr (word_of_int (trunc x))
      else Inl ConversionOutOfRange)"

definition ceil :: "double \<Rightarrow> double" where
  "ceil x = of_int \<lceil>x\<rceil>"

text \<open>\<open>lrint\<close> rounds to the nearest integer in the current rounding mode, ties to even.\<close>

definition lrint :: "double \<Rightarrow> int" where
  "lrint x = rhe x"

definition ceil_ieee :: "ieee \<Rightarrow> ieee" where
  "ceil_ieee q = (case q of Finite x \<Rightarrow> Finite (ceil x) | _ \<Rightarrow> q)"

text \<open>
  The cast \<open>(uint32_t)\<close> of an infinity or a NaN is undefined in C++; the value taken
  here is the one that the conversion instruction of x86-64 leaves in the low 32 bits, which
  is zero.
\<close>

definition ieee_to_uint32 :: "ieee \<Rightarrow> error + uint32_t" where
  "ieee_to_uint32 q = (case q of Finite x \<Rightarrow> double_to_uint32 x | _ \<Rightarrow> Inr 0)"

subsection \<open>Preamble and header durations\<close>

definition GetPlcpPreambleDuration :: "WifiTxVector \<Rightarrow> WifiPreamble \<Rightarrow> error + Time" where
  "GetPlcpPreambleDuration txVector preamble =
     (if preamble = WIFI_PREAMBLE_NONE then Inr (MicroSeconds 0)
      else case GetModulationClass (GetMode txVector) of
        WIFI_MOD_CLASS_OFDM \<Rightarrow>
          (if GetChannelWidth txVector = 10000000 then Inr (MicroSeconds 32)
           else if GetChannelWidth txVector = 5000000 then Inr (MicroSeconds 64)
           else Inr (MicroSeconds 16))
      | WIFI_MOD_CLASS_VHT \<Rightarrow> Inr (MicroSeconds 16)
      | WIFI_MOD_CLASS_HT \<Rightarrow> Inr (MicroSeconds 16)
      | WIFI_MOD_CLASS_ERP_OFDM \<Rightarrow> Inr (MicroSeconds 16)
      | WIFI_MOD_CLASS_DSSS \<Rightarrow>
          (if preamble = WIFI_PREAMBLE_SHORT
              \<and> unat (GetDataRate (GetMode txVector) 22 False 1) > 1000000
           then Inr (MicroSeconds 72) else Inr (MicroSeconds 144))
      | WIFI_MOD_CLASS_HR_DSSS \<Rightarrow>
          (if preamble = WIFI_PREAMBLE_SHORT
              \<and> unat (GetDataRate (GetMode txVector) 22 False 1) > 1000000
           then Inr (MicroSeconds 72) else Inr (MicroSeconds 144))
      | WIFI_MOD_CLASS_DMG_CTRL \<Rightarrow> Inr (NanoSeconds 4291)
      | WIFI_MOD_CLASS_DMG_SC \<Rightarrow> Inr (NanoSeconds 1891)
      | WIFI_MOD_CLASS_DMG_LP_SC \<Rightarrow> Inr (NanoSeconds 1891)
      | WIFI_MOD_CLASS_DMG_OFDM \<Rightarrow> Inr (NanoSeconds 1891)
      | WIFI_MOD_CLASS_UNKNOWN \<Rightarrow> Inl (FatalError ''unsupported modulation class''))"

definition GetPlcpHeaderDuration :: "WifiTxVector \<Rightarrow> WifiPreamble \<Rightarrow> error + Time" where
  "GetPlcpHeaderDuration txVector preamble =
     (if preamble = WIFI_PREAMBLE_NONE then Inr (MicroSeconds 0)
      else case GetModulationClass (GetMode txVector) of
        WIFI_MOD_CLASS_OFDM \<Rightarrow>
          (if GetChannelWidth txVector = 10 then Inr (MicroSeconds 8)
           else if GetChannelWidth txVector = 5 then Inr (MicroSeconds 16)
           else Inr (MicroSeconds 4))
      | WIFI_MOD_CLASS_HT \<Rightarrow>
          (if preamble = WIFI_PREAMBLE_HT_GF then Inr (MicroSeconds 0)
           else Inr (MicroSeconds 4))
      | WIFI_MOD_CLASS_VHT \<Rightarrow> Inr (MicroSeconds 4)
      | WIFI_MOD_CLASS_ERP_OFDM \<Rightarrow> Inr (MicroSeconds 4)
      | WIFI_MOD_CLASS_DSSS \<Rightarrow>
          (if preamble = WIFI_PREAMBLE_SHORT
              \<and> unat (GetDataRate (GetMode txVector) 22 False 1) > 1000000
           then Inr (MicroSeconds 24) else Inr (MicroSeconds 48))
      | WIFI_MOD_CLASS_HR_DSSS \<Rightarrow>
          (if preamble = WIFI_PREAMBLE_SHORT
              \<and> unat (GetDataRate (GetMode txVector) 22 False 1) > 1000000
           then Inr (MicroSeconds 24) else Inr (MicroSeconds 48))
      | WIFI_MOD_CLASS_DMG_CTRL \<Rightarrow> Inr (NanoSeconds 4654)
      | WIFI_MOD_CLASS_DMG_SC \<Rightarrow> Inr (NanoSeconds 582)
      | WIFI_MOD_CLASS_DMG_LP_SC \<Rightarrow> Inr (NanoSeconds 582)
      | WIFI_MOD_CLASS_DMG_OFDM \<Rightarrow> Inr (NanoSeconds 242)
      | WIFI_MOD_CLASS_UNKNOWN \<Rightarrow> Inl (FatalError ''unsupported modulation class''))"

subsection \<open>GetPayloadDuration: legacy OFDM and ERP-OFDM (lines 452-530)\<close>

definition symbolDuration_OFDM :: "WifiTxVector \<Rightarrow> Time" where
  "symbolDuration_OFDM txVector =
     (if GetChannelWidth txVector = 10 then MicroSeconds 8
      else if GetChannelWidth txVector = 5 then MicroSeconds 16
      else MicroSeconds 4)"

text \<open>
  \<open>GetDataRate (...) * symbolDuration.GetNanoSeconds () / 1e9\<close>: the product is taken in
  64-bit unsigned arithmetic, converted to a double and divided in doubles.
\<close>

definition numDataBitsPerSymbol_OFDM :: "WifiTxVector \<Rightarrow> double" where
  "numDataBitsPerSymbol_OFDM txVector =
     ddiv (uint64_to_double (GetDataRate (GetMode txVector) (GetChannelWidth txVector) False 1
                              * word_of_int (symbolDuration_OFDM txVector))) 1000000000"

text \<open>
  The four-way branch on (mpdutype, preamble) that computes \<open>numSymbols\<close> and, when
  \<open>incFlag == 1\<close>, updates the two accumulator members. Every operation on doubles is
  written with its rounding, in the order in which the expression of the source evaluates.
  A quotient whose divisor is zero and a failed \<open>NS_ASSERT\<close> or \<open>NS_FATAL_ERROR\<close> end
  the call with an error.
\<close>

definition numSymbols_OFDM ::
  "WifiPhy \<Rightarrow> uint32_t \<Rightarrow> WifiPreamble \<Rightarrow> mpduType \<Rightarrow> uint8_t \<Rightarrow> double
     \<Rightarrow> error + (double \<times> WifiPhy)" where
  "numSymbols_OFDM phy sz preamble mpdutype incFlag numDataBitsPerSymbol =
     (if mpdutype = MPDU_IN_AGGREGATE \<and> preamble \<noteq> WIFI_PREAMBLE_NONE then
        if numDataBitsPerSymbol = 0 then Inl DivisionByZero
        else
          let numSymbols = ddiv (dadd (dadd 16 (dmul (to_double sz) 8)) 6) numDataBitsPerSymbol in
          Inr (numSymbols,
               if incFlag = 1
               then phy\<lparr>m_totalAmpduSize := m_totalAmpduSize phy + sz,
                        m_totalAmpduNumSymbols := dadd (m_totalAmpduNumSymbols phy) numSymbols\<rparr>
               else phy)
      else if mpdutype = MPDU_IN_AGGREGATE \<and> preamble = WIFI_PREAMBLE_NONE then
        if numDataBitsPerSymbol = 0 then Inl DivisionByZero
        else
          let numSymbols = ddiv (dmul (to_double sz) 8) numDataBitsPerSymbol in
          Inr (numSymbols,
               if incFlag = 1
               then phy\<lparr>m_totalAmpduSize := m_totalAmpduSize phy + sz,
                        m_totalAmpduNumSymbols := dadd (m_totalAmpduNumSymbols phy) numSymbols\<rparr>
               else phy)
      else if mpdutype = LAST_MPDU_IN_AGGREGATE \<and> preamble = WIFI_PREAMBLE_NONE then
        if numDataBitsPerSymbol = 0 then Inl DivisionByZero
        else
          let totalAmpduSize = m_totalAmpduSize phy + sz;
              numSymbols = long_to_double (lrint (ceil
                 (ddiv (dadd (dadd 16 (dmul (to_double totalAmpduSize) 8)) 6)
                    numDataBitsPerSymbol)))
          in if \<not> (m_totalAmpduNumSymbols phy \<le> numSymbols) then Inl AssertFailed
             else Inr (dsub numSymbols (m_totalAmpduNumSymbols phy),
                       if incFlag = 1
                       then phy\<lparr>m_totalAmpduSize := 0, m_totalAmpduNumSymbols := 0\<rparr>
                       else phy)
      else if mpdutype = NORMAL_MPDU \<and> preamble \<noteq> WIFI_PREAMBLE_NONE then
        if numDataBitsPerSymbol = 0 then Inl DivisionByZero
        else Inr (long_to_double (lrint (ceil
                    (ddiv (dadd (dadd 16 (dmul (to_double sz) 8)) 6) numDataBitsPerSymbol))),
                  phy)
      else Inl (FatalError ''Wrong combination of preamble and packet type''))"

definition GetPayloadDuration_OFDM ::
  "WifiPhy \<Rightarrow> uint32_t \<Rightarrow> WifiTxVector \<Rightarrow> WifiPreamble \<Rightarrow> mpduType \<Rightarrow> uint8_t
     \<Rightarrow> error + (Time \<times> WifiPhy)" where
  "GetPayloadDuration_OFDM phy sz txVector preamble mpdutype incFlag =
     (let symbolDuration = symbolDuration_OFDM txVector in
      case numSymbols_OFDM phy sz preamble mpdutype incFlag (numDataBitsPerSymbol_OFDM txVector) of
        Inl e \<Rightarrow> Inl e
      | Inr (numSymbols, phy') \<Rightarrow>
          if GetModulationClass (GetMode txVector) = WIFI_MOD_CLASS_ERP_OFDM
          then Inr (NanoSecondsD (dmul numSymbols (of_int symbolDuration)) + MicroSeconds 6, phy')
          else Inr (NanoSecondsD (dmul numSymbols (of_int symbolDuration)), phy'))"

subsection \<open>GetPayloadDuration: HT and VHT (lines 531-722)\<close>

definition symbolDuration_HT :: "WifiTxVector \<Rightarrow> Time" where
  "symbolDuration_HT txVector =
     (if IsShortGuardInterval txVector then NanoSeconds 3600 else MicroSeconds 4)"

definition m_Stbc :: "WifiTxVector \<Rightarrow> double" where
  "m_Stbc txVector = (if IsStbc txVector then 2 else 1)"

text \<open>The encoder count: a chain of independent \<open>if\<close> statements, each overwriting \<open>Nes\<close>.\<close>

definition Nes :: "WifiTxVector \<Rightarrow> double" where
  "Nes txVector =
     (let payloadMode = GetMode txVector;
          w = GetChannelWidth txVector;
          n = GetNss txVector;
          mcs = GetMcsValue payloadMode;
          nes = 1;
          nes = (if GetUniqueName payloadMode = ''HtMcs21''
                  \<or> GetUniqueName payloadMode = ''HtMcs22''
                  \<or> GetUniqueName payloadMode = ''HtMcs23''
                  \<or> GetUniqueName payloadMode = ''HtMcs28''
                  \<or> GetUniqueName payloadMode = ''HtMcs29''
                  \<or> GetUniqueName payloadMode = ''HtMcs30''
                  \<or> GetUniqueName payloadMode = ''HtMcs31'' then 2 else nes);
          nes = (if w = 40 \<and> n = 3 \<and> mcs \<ge> 8 then 2 else nes);
          nes = (if w = 80 \<and> n = 2 \<and> mcs \<ge> 7 then 2 else nes);
          nes = (if w = 80 \<and> n = 3 \<and> mcs \<ge> 7 then 2 else nes);
          nes = (if w = 80 \<and> n = 3 \<and> mcs = 9 then 3 else nes);
          nes = (if w = 80 \<and> n = 4 \<and> mcs \<ge> 4 then 2 else nes);
          nes = (if w = 80 \<and> n = 4 \<and> mcs \<ge> 7 then 3 else nes);
          nes = (if w = 160 \<and> (GetUniqueName payloadMode = ''VhtMcs7'' \<and> mcs \<ge> 7)
                 then 2 else nes);
          nes = (if w = 160 \<and> n = 2 \<and> mcs \<ge> 4 then 2 else nes);
          nes = (if w = 160 \<and> n = 2 \<and> mcs \<ge> 7 then 3 else nes);
          nes = (if w = 160 \<and> n = 3 \<and> mcs \<ge> 3 then 2 else nes);
          nes = (if w = 160 \<and> n = 3 \<and> mcs \<ge> 5 then 3 else nes);
          nes = (if w = 160 \<and> n = 3 \<and> mcs \<ge> 7 then 4 else nes);
          nes = (if w = 160 \<and> n = 4 \<and> mcs \<ge> 2 then 2 else nes);
          nes = (if w = 160 \<and> n = 4 \<and> mcs \<ge> 4 then 3 else nes);
          nes = (if w = 160 \<and> n = 4 \<and> mcs \<ge> 5 then 4 else nes);
          nes = (if w = 160 \<and> n = 4 \<and> mcs \<ge> 7 then 6 else nes)
      in nes)"

definition numDataBitsPerSymbol_HT :: "WifiTxVector \<Rightarrow> double" where
  "numDataBitsPerSymbol_HT txVector =
     ddiv (uint64_to_double (GetDataRate (GetMode txVector) (GetChannelWidth txVector)
                               (IsShortGuardInterval txVector) (GetNss txVector)
                             * word_of_int (symbolDuration_HT txVector))) 1000000000"

definition numSymbols_HT ::
  "WifiPhy \<Rightarrow> uint32_t \<Rightarrow> WifiPreamble \<Rightarrow> mpduType \<Rightarrow> uint8_t \<Rightarrow> double \<Rightarrow> double \<Rightarrow> double
     \<Rightarrow> error + (double \<times> WifiPhy)" where
  "numSymbols_HT phy sz preamble mpdutype incFlag stbc nes numDataBitsPerSymbol =
     (if mpdutype = MPDU_IN_AGGREGATE \<and> preamble \<noteq> WIFI_PREAMBLE_NONE then
        if dmul stbc numDataBitsPerSymbol = 0 then Inl DivisionByZero
        else
          let numSymbols = ddiv (dmul stbc (dadd (dadd 16 (dmul (to_double sz) 8)) (dmul 6 nes)))
                             (dmul stbc numDataBitsPerSymbol) in
          Inr (numSymbols,
               if incFlag = 1
               then phy\<lparr>m_totalAmpduSize := m_totalAmpduSize phy + sz,
                        m_totalAmpduNumSymbols := dadd (m_totalAmpduNumSymbols phy) numSymbols\<rparr>
               else phy)
      else if mpdutype = MPDU_IN_AGGREGATE \<and> preamble = WIFI_PREAMBLE_NONE then
        if dmul stbc numDataBitsPerSymbol = 0 then Inl DivisionByZero
        else
          let numSymbols = ddiv (dmul (dmul stbc (to_double sz)) 8)
                             (dmul stbc numDataBitsPerSymbol) in
          Inr (numSymbols,
               if incFlag = 1
               then phy\<lparr>m_totalAmpduSize := m_totalAmpduSize phy + sz,
                        m_totalAmpduNumSymbols := dadd (m_totalAmpduNumSymbols phy) numSymbols\<rparr>
               else phy)
      else if mpdutype = LAST_MPDU_IN_AGGREGATE \<and> preamble = WIFI_PREAMBLE_NONE then
        if dmul stbc numDataBitsPerSymbol = 0 then Inl DivisionByZero
        else
          let totalAmpduSize = m_totalAmpduSize phy + sz;
              numSymbols = long_to_double (lrint (dmul stbc (ceil
                 (ddiv (dadd (dadd 16 (dmul (to_double totalAmpduSize) 8)) (dmul 6 nes))
                    (dmul stbc numDataBitsPerSymbol)))))
          in if \<not> (m_totalAmpduNumSymbols phy \<le> numSymbols) then Inl AssertFailed
             else Inr (dsub numSymbols (m_totalAmpduNumSymbols phy),
                       if incFlag = 1
                       then phy\<lparr>m_totalAmpduSize := 0, m_totalAmpduNumSymbols := 0\<rparr>
                       else phy)
      else if mpdutype = NORMAL_MPDU \<and> preamble \<noteq> WIFI_PREAMBLE_NONE then
        if dmul stbc numDataBitsPerSymbol = 0 then Inl DivisionByZero
        else Inr (long_to_double (lrint (dmul stbc (ceil
                    (ddiv (dadd (dadd 16 (dmul (to_double sz) 8)) (dmul 6 nes))
                       (dmul stbc numDataBitsPerSymbol))))),
                  phy)
      else Inl (FatalError ''Wrong combination of preamble and packet type''))"

definition GetPayloadDuration_HT ::
  "WifiPhy \<Rightarrow> uint32_t \<Rightarrow> WifiTxVector \<Rightarrow> WifiPreamble \<Rightarrow> double \<Rightarrow> mpduType \<Rightarrow> uint8_t
     \<Rightarrow> error + (Time \<times> WifiPhy)" where
  "GetPayloadDuration_HT phy sz txVector preamble frequency mpdutype incFlag =
     (let symbolDuration = symbolDuration_HT txVector in
      case numSymbols_HT phy sz preamble mpdutype incFlag (m_Stbc txVector) (Nes txVector)
             (numDataBitsPerSymbol_HT txVector) of
        Inl e \<Rightarrow> Inl e
      | Inr (numSymbols, phy') \<Rightarrow>
          if GetModulationClass (GetMode txVector) = WIFI_MOD_CLASS_HT
             \<and> frequency \<ge> 2400 \<and> frequency \<le> 2500
             \<and> ((mpdutype = NORMAL_MPDU \<and> preamble \<noteq> WIFI_PREAMBLE_NONE)
                \<or> (mpdutype = LAST_MPDU_IN_AGGREGATE \<and> preamble = WIFI_PREAMBLE_NONE))
          then Inr (NanoSecondsD (dmul numSymbols (of_int symbolDuration)) + MicroSeconds 6, phy')
          else Inr (NanoSecondsD (dmul numSymbols (of_int symbolDuration)), phy'))"

subsection \<open>GetPayloadDuration: DSSS and HR-DSSS (lines 723-729)\<close>

text \<open>
  In this branch and in the DMG branches below a quotient or a product of doubles is followed
  at once by \<open>ceil\<close> or by a truncating cast; these operations are taken exactly.
\<close>

definition GetPayloadDuration_DSSS :: "uint32_t \<Rightarrow> WifiMode \<Rightarrow> error + Time" where
  "GetPayloadDuration_DSSS sz payloadMode =
     (if to_double (GetDataRate payloadMode 22 False 1) / 1000000 = 0 then Inl DivisionByZero
      else Inr (MicroSeconds (lrint (ceil ((to_double sz * 8)
                 / (to_double (GetDataRate payloadMode 22 False 1) / 1000000))))))"

subsection \<open>GetPayloadDuration: DMG control PHY (lines 731-760)\<close>

text \<open>Sequencing of steps that can fail: the first error ends the call.\<close>

definition andThen :: "error + 'a \<Rightarrow> ('a \<Rightarrow> error + 'b) \<Rightarrow> error + 'b" where
  "andThen r f = (case r of Inl e \<Rightarrow> Inl e | Inr x \<Rightarrow> f x)"

text \<open>The number of LDPC codewords (lines 742 and 757).\<close>

definition Ncw_DMG_CTRL :: "uint32_t \<Rightarrow> error + uint32_t" where
  "Ncw_DMG_CTRL sz =
     andThen (double_to_uint32 (ceil ((to_double sz - 6) * 8 / 168))) (\<lambda>c. Inr (1 + c))"

text \<open>
  The quotient of line 743, whose divisor \<open>Ncw - 1\<close> is converted from a 32-bit unsigned
  integer and can be zero.
\<close>

definition Ldpcw_quotient :: "uint32_t \<Rightarrow> uint32_t \<Rightarrow> ieee" where
  "Ldpcw_quotient sz Ncw = divide_ieee ((to_double sz - 6) * 8) (to_double (Ncw - 1))"

definition GetPayloadDuration_DMG_CTRL :: "uint32_t \<Rightarrow> WifiTxVector \<Rightarrow> error + Time" where
  "GetPayloadDuration_DMG_CTRL sz txVector =
     (if GetTrainngFieldLength txVector = 0 then
        andThen (Ncw_DMG_CTRL sz) (\<lambda>Ncw.
          andThen (ieee_to_uint32 (ceil_ieee (Ldpcw_quotient sz Ncw)))
            (\<lambda>Ldpcw.
              let Ldplcw = (sz - 6) * 8 - (Ncw - 2) * Ldpcw;
                  DencodedSymmbols = (672 - (504 - Ldpcw)) * (Ncw - 2) + (672 - (504 - Ldplcw));
                  Chips = DencodedSymmbols * 32;
                  ret = to_double Chips / (176 / 100)
              in Inr (NanoSecondsD (ceil ret))))
      else
        andThen (Ncw_DMG_CTRL sz) (\<lambda>Ncw.
          Inr (NanoSecondsD (ceil (to_double (88 + (sz - 6) * 8 + Ncw * 168) * (57 / 100) * 32)))))"

subsection \<open>GetPayloadDuration: DMG SC and DMG OFDM (lines 796-895)\<close>

definition Ncbpb_SC :: "WifiMode \<Rightarrow> error + uint32_t" where
  "Ncbpb_SC payloadMode =
     (if GetConstellationSize payloadMode = 2 then Inr 448
      else if GetConstellationSize payloadMode = 4 then Inr (2 * 448)
      else if GetConstellationSize payloadMode = 16 then Inr (4 * 448)
      else if GetConstellationSize payloadMode = 64 then Inr (6 * 448)
      else if GetConstellationSize payloadMode = 256 then Inr (8 * 448)
      else Inl (FatalError ''unsupported constellation size''))"

definition Ncbps_OFDM :: "WifiMode \<Rightarrow> error + uint32_t" where
  "Ncbps_OFDM payloadMode =
     (if GetConstellationSize payloadMode = 2 then Inr 336
      else if GetConstellationSize payloadMode = 4 then Inr (2 * 336)
      else if GetConstellationSize payloadMode = 16 then Inr (4 * 336)
      else if GetConstellationSize payloadMode = 64 then Inr (6 * 336)
      else Inl (FatalError ''unsupported constellation size''))"

text \<open>The coded bit count; the same \<open>if\<close> chain appears in both DMG branches.\<close>

definition Ncbits :: "WifiMode \<Rightarrow> uint32_t \<Rightarrow> error + uint32_t" where
  "Ncbits payloadMode Nbits =
     (if GetCodeRate payloadMode = WIFI_CODE_RATE_1_4 then Inr (Nbits * 4)
      else if GetCodeRate payloadMode = WIFI_CODE_RATE_1_2 then Inr (Nbits * 2)
      else if GetCodeRate payloadMode = WIFI_CODE_RATE_13_16
        then double_to_uint32 (ceil (to_double Nbits * 16 / 13))
      else if GetCodeRate payloadMode = WIFI_CODE_RATE_3_4
        then double_to_uint32 (ceil (to_double Nbits * 4 / 3))
      else if GetCodeRate payloadMode = WIFI_CODE_RATE_5_8
        then double_to_uint32 (ceil (to_double Nbits * 8 / 5))
      else Inl (FatalError ''unsupported code rate''))"

text \<open>The floor applied when a training field is requested.\<close>

definition trainingFloor :: "WifiTxVector \<Rightarrow> double \<Rightarrow> uint32_t \<Rightarrow> error + uint32_t" where
  "trainingFloor txVector minimum tData =
     (if GetTrainngFieldLength txVector \<noteq> 0 then
        if to_double tData < minimum then double_to_uint32 minimum else Inr tData
      else Inr tData)"

definition GetPayloadDuration_DMG_SC :: "DmgFloors \<Rightarrow> uint32_t \<Rightarrow> WifiTxVector \<Rightarrow> error + Time" where
  "GetPayloadDuration_DMG_SC K sz txVector =
     (let payloadMode = GetMode txVector in
      andThen (Ncbpb_SC payloadMode) (\<lambda>Ncbpb.
        let Nbits = sz * 8 in
        andThen (Ncbits payloadMode Nbits) (\<lambda>ncbits.
          andThen (double_to_uint32 (ceil (to_double ncbits / 672))) (\<lambda>Ncw.
            andThen (double_to_uint32 (ceil (to_double Ncw * 672 / to_double Ncbpb))) (\<lambda>Nblks.
              let tData = word_of_int (lrint (ceil ((to_double Nblks * 512 + 64) / (176 / 100))))
              in andThen (trainingFloor txVector (OFDMSCMin K) tData) (\<lambda>tData'.
                   Inr (NanoSeconds (uint tData'))))))))"

definition GetPayloadDuration_DMG_OFDM :: "DmgFloors \<Rightarrow> uint32_t \<Rightarrow> WifiTxVector \<Rightarrow> error + Time" where
  "GetPayloadDuration_DMG_OFDM K sz txVector =
     (let payloadMode = GetMode txVector in
      andThen (Ncbps_OFDM payloadMode) (\<lambda>Ncbps.
        let Nbits = sz * 8 in
        andThen (Ncbits payloadMode Nbits) (\<lambda>ncbits.
          andThen (double_to_uint32 (ceil (to_double ncbits / 672))) (\<lambda>Ncw.
            andThen (double_to_uint32 (ceil ((to_double Ncw * 672) / to_double Ncbps))) (\<lambda>Nsym.
              let tData = Nsym * 242
              in andThen (trainingFloor txVector (OFDMBRPMin K) tData) (\<lambda>tData'.
                   Inr (NanoSeconds (uint tData'))))))))"

subsection \<open>GetPayloadDuration (lines 444-901)\<close>

definition unchanged :: "WifiPhy \<Rightarrow> error + Time \<Rightarrow> error + (Time \<times> WifiPhy)" where
  "unchanged phy r = (case r of Inl e \<Rightarrow> Inl e | Inr t \<Rightarrow> Inr (t, phy))"

definition GetPayloadDuration ::
  "DmgFloors \<Rightarrow> WifiPhy \<Rightarrow> uint32_t \<Rightarrow> WifiTxVector \<Rightarrow> WifiPreamble \<Rightarrow> double \<Rightarrow> mpduType
     \<Rightarrow> uint8_t \<Rightarrow> error + (Time \<times> WifiPhy)" where
  "GetPayloadDuration K phy sz txVector preamble frequency mpdutype incFlag =
     (let payloadMode = GetMode txVector in
      case GetModulationClass payloadMode of
        WIFI_MOD_CLASS_OFDM \<Rightarrow> GetPayloadDuration_OFDM phy sz txVector preamble mpdutype incFlag
      | WIFI_MOD_CLASS_ERP_OFDM \<Rightarrow> GetPayloadDuration_OFDM phy sz txVector preamble mpdutype incFlag
      | WIFI_MOD_CLASS_HT \<Rightarrow>
          GetPayloadDuration_HT phy sz txVector preamble frequency mpdutype incFlag
      | WIFI_MOD_CLASS_VHT \<Rightarrow>
          GetPayloadDuration_HT phy sz txVector preamble frequency mpdutype incFlag
      | WIFI_MOD_CLASS_DSSS \<Rightarrow> unchanged phy (GetPayloadDuration_DSSS sz payloadMode)
      | WIFI_MOD_CLASS_HR_DSSS \<Rightarrow> unchanged phy (GetPayloadDuration_DSSS sz payloadMode)
      | WIFI_MOD_CLASS_DMG_CTRL \<Rightarrow> unchanged phy (GetPayloadDuration_DMG_CTRL sz txVector)
      | WIFI_MOD_CLASS_DMG_LP_SC \<Rightarrow> Inr (NanoSeconds 0, phy)
      | WIFI_MOD_CLASS_DMG_SC \<Rightarrow> unchanged phy (GetPayloadDuration_DMG_SC K sz txVector)
      | WIFI_MOD_CLASS_DMG_OFDM \<Rightarrow> unchanged phy (GetPayloadDuration_DMG_OFDM K sz txVector)
      | WIFI_MOD_CLASS_UNKNOWN \<Rightarrow> Inl (FatalError ''unsupported modulation class''))"

subsection \<open>Mode descriptors (lines 1116-2366)\<close>

text \<open>
  Modelled from the spec: the rate of a mode is computed by \<open>WifiMode::GetDataRate\<close>,
  which is not among the sources; the descriptors below carry the nominal rate their name
  and the specification give them (6 Mbit/s for \<open>OfdmRate6Mbps\<close> and
  \<open>ErpOfdmRate6Mbps\<close>, the explicit bit rate
  argument for the DMG modes), whatever the channel width asked for.
\<close>

definition GetOfdmRate6Mbps :: WifiMode where
  "GetOfdmRate6Mbps =
     \<lparr>GetUniqueName = ''OfdmRate6Mbps'', GetModulationClass = WIFI_MOD_CLASS_OFDM,
      IsMandatory = True, GetCodeRate = WIFI_CODE_RATE_1_2, GetConstellationSize = 2,
      GetMcsValue = 0, GetDataRate = (\<lambda>w sgi nss. 6000000)\<rparr>"

definition GetErpOfdmRate6Mbps :: WifiMode where
  "GetErpOfdmRate6Mbps =
     \<lparr>GetUniqueName = ''ErpOfdmRate6Mbps'', GetModulationClass = WIFI_MOD_CLASS_ERP_OFDM,
      IsMandatory = True, GetCodeRate = WIFI_CODE_RATE_1_2, GetConstellationSize = 2,
      GetMcsValue = 0, GetDataRate = (\<lambda>w sgi nss. 6000000)\<rparr>"

definition GetDMG_MCS0 :: WifiMode where
  "GetDMG_MCS0 =
     \<lparr>GetUniqueName = ''DMG_MCS0'', GetModulationClass = WIFI_MOD_CLASS_DMG_CTRL,
      IsMandatory = True, GetCodeRate = WIFI_CODE_RATE_1_2, GetConstellationSize = 2,
      GetMcsValue = 0, GetDataRate = (\<lambda>w sgi nss. 27500000)\<rparr>"

definition GetDMG_MCS2 :: WifiMode where
  "GetDMG_MCS2 =
     \<lparr>GetUniqueName = ''DMG_MCS2'', GetModulationClass = WIFI_MOD_CLASS_DMG_SC,
      IsMandatory = True, GetCodeRate = WIFI_CODE_RATE_1_2, GetConstellationSize = 2,
      GetMcsValue = 0, GetDataRate = (\<lambda>w sgi nss. 770000000)\<rparr>"

text \<open>A transmit vector with one spatial stream, long guard interval and no training field.\<close>

definition txVector_of :: "WifiMode \<Rightarrow> nat \<Rightarrow> WifiTxVector" where
  "txVector_of m w =
     \<lparr>GetMode = m, GetChannelWidth = w, GetNss = 1, GetNess = 0,
      IsShortGuardInterval = False, IsStbc = False, GetTrainngFieldLength = 0\<rparr>"

text \<open>
  The floors with the values of the 802.11ad timing parameters (18 single-carrier blocks of
  512 chips and a guard interval of 64 chips at 0.57 ns per chip; 20 OFDM symbols of 242 ns),
  for use at concrete inputs. No result below depends on these values.
\<close>

definition floors_80211ad :: DmgFloors where
  "floors_80211ad = \<lparr>OFDMSCMin = (18 * 512 + 64) * (57 / 100), OFDMBRPMin = 20 * 242\<rparr>"

text \<open>An accumulator in the middle of a burst, for use at concrete inputs.\<close>

definition phy_mid :: WifiPhy where
  "phy_mid = \<lparr>m_totalAmpduSize = 100, m_totalAmpduNumSymbols = 137 / 4\<rparr>"

text \<open>
  Modelled from the spec: the rates of the HT and VHT modes are computed by
  \<open>WifiMode::GetDataRate\<close>, which is not among the sources; the two descriptors below
  carry the nominal rate of MCS 0 (6.5 Mbit/s per spatial stream at 20 MHz, long guard
  interval).
\<close>

definition GetHtMcs0 :: WifiMode where
  "GetHtMcs0 =
     \<lparr>GetUniqueName = ''HtMcs0'', GetModulationClass = WIFI_MOD_CLASS_HT,
      IsMandatory = False, GetCodeRate = WIFI_CODE_RATE_1_2, GetConstellationSize = 2,
      GetMcsValue = 0, GetDataRate = (\<lambda>w sgi nss. 6500000)\<rparr>"

definition GetVhtMcs0 :: WifiMode where
  "GetVhtMcs0 =
     \<lparr>GetUniqueName = ''VhtMcs0'', GetModulationClass = WIFI_MOD_CLASS_VHT,
      IsMandatory = False, GetCodeRate = WIFI_CODE_RATE_1_2, GetConstellationSize = 2,
      GetMcsValue = 0, GetDataRate = (\<lambda>w sgi nss. 6500000)\<rparr>"

text \<open>
  A transmit vector of HT MCS 0 with the short guard interval at 20 MHz: symbols of 3.6
  microseconds and, modelled from the spec as above, the nominal rate of 7.2 Mbit/s. For
  use at concrete inputs.
\<close>

definition txVector_HtMcs0_sgi :: WifiTxVector where
  "txVector_HtMcs0_sgi =
     (txVector_of (GetHtMcs0\<lparr>GetDataRate := (\<lambda>w sgi nss. 7200000)\<rparr>) 20)
       \<lparr>IsShortGuardInterval := True\<rparr>"

section \<open>Information elements of a management frame (common-header.cc)\<close>

text \<open>
  The frame keeps a \<open>std::map\<close> from element id to a reference-counted pointer to an
  element object. Pointers are modelled by addresses into a store of objects, so that two
  map entries naming one object are visible as such; \<open>Null\<close> is the default-constructed
  pointer. The buffer iterator is the list of bytes still to be read (or the bytes written
  so far).
\<close>

type_synonym WifiInformationElementId = uint8_t

text \<open>The concrete element classes the deserializer can create (the switch of lines 100-162).\<close>

datatype ElementClass =
    SupportedRates
  | ExtendedSupportedRatesIE
  | HtCapabilities
  | VhtCapabilities
  | HtOperations
  | ErpInformation
  | DmgCapabilities
  | MultiBandElement
  | DmgOperationElement
  | NextDmgAti
  | RelayCapabilitiesElement
  | ExtendedScheduleElement

text \<open>
  The id constants \<open>IE_SUPPORTED_RATES\<close>, ... are defined in a header that is not part of
  the sources at hand: the assignment of an id to each class is a parameter \<open>IE\<close> of the
  codec.
\<close>

type_synonym ElementIds = "ElementClass \<Rightarrow> WifiInformationElementId"

text \<open>
  Modelled from the spec: the element classes themselves (wifi-information-element.cc and
  the concrete elements) are not among the sources. An element is an object of one of the
  classes holding the bytes of its information field; its wire format is
  \<open>[1-byte type id][1-byte body length][body bytes]\<close>, its serialized size is
  \<open>2 + bodyLength\<close>, a freshly created element has an empty body, and parsing a body
  of \<open>length\<close> bytes stores exactly these bytes.
\<close>

record WifiInformationElement =
  elementClass :: ElementClass
  informationField :: "uint8_t list"

definition ElementId :: "ElementIds \<Rightarrow> WifiInformationElement \<Rightarrow> WifiInformationElementId" where
  "ElementId IE e = IE (elementClass e)"

definition GetInformationFieldSize :: "WifiInformationElement \<Rightarrow> uint8_t" where
  "GetInformationFieldSize e = of_nat (length (informationField e))"

definition GetSerializedSize :: "WifiInformationElement \<Rightarrow> uint32_t" where
  "GetSerializedSize e = 2 + ucast (GetInformationFieldSize e)"

definition Serialize :: "ElementIds \<Rightarrow> WifiInformationElement \<Rightarrow> uint8_t list \<Rightarrow> uint8_t list" where
  "Serialize IE e i = i @ [ElementId IE e, GetInformationFieldSize e] @ informationField e"

definition Create :: "ElementClass \<Rightarrow> WifiInformationElement" where
  "Create c = \<lparr>elementClass = c, informationField = []\<rparr>"

definition DeserializeElementID ::
  "uint8_t list \<Rightarrow> error + (uint8_t list \<times> WifiInformationElementId \<times> uint8_t)" where
  "DeserializeElementID i =
     (case i of
        elementId # len # rest \<Rightarrow> Inr (rest, elementId, len)
      | _ \<Rightarrow> Inl BufferOverrun)"

definition DeserializeElementBody ::
  "WifiInformationElement \<Rightarrow> uint8_t list \<Rightarrow> uint8_t
     \<Rightarrow> error + (uint8_t list \<times> WifiInformationElement)" where
  "DeserializeElementBody e i len =
     (if length i < unat len then Inl BufferOverrun
      else Inr (drop (unat len) i, e\<lparr>informationField := take (unat len) i\<rparr>))"

subsection \<open>The frame and its store\<close>

datatype Ptr = Null | Ref nat

record MgtFrame =
  objects :: "nat \<Rightarrow> WifiInformationElement"
  allocated :: nat
  m_map :: "WifiInformationElementId \<rightharpoonup> Ptr"

text \<open>Iteration over a \<open>std::map\<close> visits the keys in ascending order.\<close>

definition all_ids :: "WifiInformationElementId list" where
  "all_ids = map of_nat [0..<256]"

definition entries :: "(WifiInformationElementId \<rightharpoonup> Ptr) \<Rightarrow> (WifiInformationElementId \<times> Ptr) list" where
  "entries m = List.map_filter (\<lambda>k. map_option (Pair k) (m k)) all_ids"

subsection \<open>Operations (lines 41-89)\<close>

definition AddWifiInformationElement :: "ElementIds \<Rightarrow> MgtFrame \<Rightarrow> Ptr \<Rightarrow> error + MgtFrame" where
  "AddWifiInformationElement IE s element =
     (case element of
        Null \<Rightarrow> Inl NullPointerDereference
      | Ref a \<Rightarrow> Inr (s\<lparr>m_map := (m_map s)(ElementId IE (objects s a) \<mapsto> element)\<rparr>))"

text \<open>\<open>return m_map[id]\<close>: \<open>operator[]\<close> inserts a default-constructed pointer for a key that is absent.\<close>

definition GetInformationElement :: "MgtFrame \<Rightarrow> WifiInformationElementId \<Rightarrow> Ptr \<times> MgtFrame" where
  "GetInformationElement s elementId =
     (case m_map s elementId of
        None \<Rightarrow> (Null, s\<lparr>m_map := (m_map s)(elementId \<mapsto> Null)\<rparr>)
      | Some p \<Rightarrow> (p, s))"

fun sizeLoop :: "MgtFrame \<Rightarrow> (WifiInformationElementId \<times> Ptr) list \<Rightarrow> uint32_t \<Rightarrow> error + uint32_t" where
  "sizeLoop s [] sz = Inr sz"
| "sizeLoop s ((k, Null) # es) sz = Inl NullPointerDereference"
| "sizeLoop s ((k, Ref a) # es) sz = sizeLoop s es (sz + GetSerializedSize (objects s a))"

definition GetInformationElementsSerializedSize :: "MgtFrame \<Rightarrow> error + uint32_t" where
  "GetInformationElementsSerializedSize s = sizeLoop s (entries (m_map s)) 0"

fun serializeLoop ::
  "ElementIds \<Rightarrow> MgtFrame \<Rightarrow> (WifiInformationElementId \<times> Ptr) list \<Rightarrow> uint8_t list
     \<Rightarrow> error + uint8_t list" where
  "serializeLoop IE s [] i = Inr i"
| "serializeLoop IE s ((k, Null) # es) i = Inl NullPointerDereference"
| "serializeLoop IE s ((k, Ref a) # es) i = serializeLoop IE s es (Serialize IE (objects s a) i)"

definition SerializeInformationElements :: "ElementIds \<Rightarrow> MgtFrame \<Rightarrow> uint8_t list \<Rightarrow> error + uint8_t list" where
  "SerializeInformationElements IE s start = serializeLoop IE s (entries (m_map s)) start"

subsection \<open>Deserialization (lines 91-169)\<close>

text \<open>
  The switch on the id; it has no default label, so for any other id the variable
  \<open>element\<close> keeps the pointer of the previous iteration.
\<close>

definition switchCreate :: "ElementIds \<Rightarrow> WifiInformationElementId \<Rightarrow> ElementClass option" where
  "switchCreate IE elementId =
     (if elementId = IE SupportedRates then Some SupportedRates
      else if elementId = IE ExtendedSupportedRatesIE then Some ExtendedSupportedRatesIE
      else if elementId = IE HtCapabilities then Some HtCapabilities
      else if elementId = IE VhtCapabilities then Some VhtCapabilities
      else if elementId = IE HtOperations then Some HtOperations
      else if elementId = IE ErpInformation then Some ErpInformation
      else if elementId = IE DmgCapabilities then Some DmgCapabilities
      else if elementId = IE MultiBandElement then Some MultiBandElement
      else if elementId = IE DmgOperationElement then Some DmgOperationElement
      else if elementId = IE NextDmgAti then Some NextDmgAti
      else if elementId = IE RelayCapabilitiesElement then Some RelayCapabilitiesElement
      else if elementId = IE ExtendedScheduleElement then Some ExtendedScheduleElement
      else None)"

text \<open>One iteration of the \<open>while\<close> loop, from a buffer that is not at its end.\<close>

definition deserializeStep ::
  "ElementIds \<Rightarrow> MgtFrame \<Rightarrow> Ptr \<Rightarrow> uint8_t list \<Rightarrow> error + (uint8_t list \<times> MgtFrame \<times> Ptr)" where
  "deserializeStep IE s element i =
     andThen (DeserializeElementID i) (\<lambda>(i1, elementId, len).
       let (s1, element1) =
             (case switchCreate IE elementId of
                Some c \<Rightarrow> (s\<lparr>objects := (objects s)(allocated s := Create c),
                             allocated := Suc (allocated s)\<rparr>, Ref (allocated s))
              | None \<Rightarrow> (s, element))
       in case element1 of
            Null \<Rightarrow> Inl NullPointerDereference
          | Ref a \<Rightarrow>
              andThen (DeserializeElementBody (objects s1 a) i1 len) (\<lambda>(i2, e).
                Inr (i2,
                     s1\<lparr>objects := (objects s1)(a := e),
                        m_map := (m_map s1)(elementId \<mapsto> element1)\<rparr>,
                     element1)))"

function deserializeLoop ::
  "ElementIds \<Rightarrow> MgtFrame \<Rightarrow> Ptr \<Rightarrow> uint8_t list \<Rightarrow> error + (uint8_t list \<times> MgtFrame)" where
  "deserializeLoop IE s element i =
     (if i = [] then Inr (i, s)
      else case deserializeStep IE s element i of
             Inl e \<Rightarrow> Inl e
           | Inr (i', s', element') \<Rightarrow>
               if length i' < length i then deserializeLoop IE s' element' i'
               else Inl BufferOverrun)"
  by pat_completeness auto
termination
  by (relation "measure (\<lambda>(IE, s, element, i). length i)") auto

declare deserializeLoop.simps [simp del]

definition DeserializeInformationElements ::
  "ElementIds \<Rightarrow> MgtFrame \<Rightarrow> uint8_t list \<Rightarrow> error + (uint8_t list \<times> MgtFrame)" where
  "DeserializeInformationElements IE s start = deserializeLoop IE s Null start"

text \<open>
  A frame with no element, and the element ids of IEEE 802.11 for use at concrete inputs
  (no result below depends on their values).
\<close>

definition MgtFrame_empty :: MgtFrame where
  "MgtFrame_empty = \<lparr>objects = (\<lambda>a. Create SupportedRates), allocated = 0, m_map = Map.empty\<rparr>"

fun ids_80211 :: ElementIds where
  "ids_80211 SupportedRates = 1"
| "ids_80211 ExtendedSupportedRatesIE = 50"
| "ids_80211 HtCapabilities = 45"
| "ids_80211 VhtCapabilities = 191"
| "ids_80211 HtOperations = 61"
| "ids_80211 ErpInformation = 42"
| "ids_80211 DmgCapabilities = 148"
| "ids_80211 MultiBandElement = 158"
| "ids_80211 DmgOperationElement = 151"
| "ids_80211 NextDmgAti = 144"
| "ids_80211 RelayCapabilitiesElement = 167"
| "ids_80211 ExtendedScheduleElement = 146"

subsection \<open>What a frame holds\<close>

text \<open>
  The (id, body) pair reachable under each key of the map; a null entry holds no pair.
\<close>

definition contents ::
  "ElementIds \<Rightarrow> MgtFrame \<Rightarrow> WifiInformationElementId
     \<rightharpoonup> (WifiInformationElementId \<times> uint8_t list) option" where
  "contents IE s k =
     map_option
       (\<lambda>p. case p of
              Null \<Rightarrow> None
            | Ref a \<Rightarrow> Some (ElementId IE (objects s a), informationField (objects s a)))
       (m_map s k)"

definition pairs :: "ElementIds \<Rightarrow> MgtFrame \<Rightarrow> (WifiInformationElementId \<times> uint8_t list) set" where
  "pairs IE s = {x. \<exists>k. contents IE s k = Some (Some x)}"

text \<open>
  The frames the round trip is about: every entry points to an element, the element sits
  under its own id (as \<open>AddWifiInformationElement\<close> stores it), the deserializer's switch
  has a case for that id, and the body is short enough for its one-byte length field.
\<close>

definition registered :: "ElementIds \<Rightarrow> MgtFrame \<Rightarrow> bool" where
  "registered IE s =
     (\<forall>k p. m_map s k = Some p \<longrightarrow>
        (\<exists>a. p = Ref a \<and> ElementId IE (objects s a) = k \<and> switchCreate IE k \<noteq> None
             \<and> length (informationField (objects s a)) < 256))"

text \<open>A frame holding supported rates and HT capabilities, for use at concrete inputs.\<close>

definition MgtFrame_example :: MgtFrame where
  "MgtFrame_example =
     \<lparr>objects = (\<lambda>a. if a = 0 then \<lparr>elementClass = HtCapabilities, informationField = [7, 8, 9]\<rparr>
                      else \<lparr>elementClass = SupportedRates, informationField = [2, 4]\<rparr>),
      allocated = 2,
      m_map = [45 \<mapsto> Ref 0, 1 \<mapsto> Ref 1]\<rparr>"

subsection \<open>Auxiliary notions for the round trip\<close>

text \<open>
  The wire record of an (id, body) pair, the body an entry of the map points to, the effect
  of one parsed record on the contents of a frame, and the property that every address in
  the map has been allocated.
\<close>

definition wire :: "WifiInformationElementId \<times> uint8_t list \<Rightarrow> uint8_t list" where
  "wire kb = fst kb # of_nat (length (snd kb)) # snd kb"

definition store_pair ::
  "WifiInformationElementId \<times> uint8_t list
     \<Rightarrow> (WifiInformationElementId \<rightharpoonup> (WifiInformationElementId \<times> uint8_t list) option)
     \<Rightarrow> (WifiInformationElementId \<rightharpoonup> (WifiInformationElementId \<times> uint8_t list) option)" where
  "store_pair kb c = c(fst kb \<mapsto> Some kb)"

definition fresh :: "MgtFrame \<Rightarrow> bool" where
  "fresh r = (\<forall>k a. m_map r k = Some (Ref a) \<longrightarrow> a < allocated r)"

definition body_of :: "MgtFrame \<Rightarrow> Ptr \<Rightarrow> uint8_t list" where
  "body_of s p = (case p of Ref a \<Rightarrow> informationField (objects s a) | Null \<Rightarrow> [])"

section \<open>Aggregates: a sequence of calls on one accumulator\<close>

text \<open>
  The caller of \<open>GetPayloadDuration\<close> sends the MPDUs of an aggregate one after the other:
  the first with a preamble, the following ones without, the last one marked as such, each with
  the commit flag set. The definitions below describe such a sequence and name the quantities
  of the symbol-counting branches (legacy OFDM, ERP-OFDM, HT and VHT) that the statements
  about aggregates use: the divisor of the symbol counts, the symbol duration, the signal
  extension, and the symbol counts of a first frame, of a following frame and of a whole
  aggregate, each the expression of its branch.
\<close>

text \<open>A sequence of committed calls: each call starts from the state the previous one
  left; the result lists the duration and the state after every call, and is the first error
  if a call fails.\<close>

fun run ::
  "DmgFloors \<Rightarrow> WifiTxVector \<Rightarrow> double \<Rightarrow> WifiPhy \<Rightarrow> (uint32_t \<times> WifiPreamble \<times> mpduType) list
     \<Rightarrow> error + (Time \<times> WifiPhy) list" where
  "run K txVector frequency phy [] = Inr []"
| "run K txVector frequency phy ((sz, preamble, mpdutype) # calls) =
     (case GetPayloadDuration K phy sz txVector preamble frequency mpdutype 1 of
        Inl e \<Rightarrow> Inl e
      | Inr (d, phy') \<Rightarrow>
          (case run K txVector frequency phy' calls of
             Inl e \<Rightarrow> Inl e
           | Inr rs \<Rightarrow> Inr ((d, phy') # rs)))"

definition burst ::
  "WifiPreamble \<Rightarrow> uint32_t \<Rightarrow> uint32_t list \<Rightarrow> uint32_t
     \<Rightarrow> (uint32_t \<times> WifiPreamble \<times> mpduType) list" where
  "burst preamble s1 mids sk =
     (s1, preamble, MPDU_IN_AGGREGATE)
       # map (\<lambda>s. (s, WIFI_PREAMBLE_NONE, MPDU_IN_AGGREGATE)) mids
       @ [(sk, WIFI_PREAMBLE_NONE, LAST_MPDU_IN_AGGREGATE)]"

definition symbolic :: "WifiTxVector \<Rightarrow> bool" where
  "symbolic txVector \<longleftrightarrow>
     GetModulationClass (GetMode txVector) \<in> {WIFI_MOD_CLASS_OFDM, WIFI_MOD_CLASS_ERP_OFDM,
       WIFI_MOD_CLASS_HT, WIFI_MOD_CLASS_VHT}"

definition legacy :: "WifiTxVector \<Rightarrow> bool" where
  "legacy txVector \<longleftrightarrow>
     GetModulationClass (GetMode txVector) \<in> {WIFI_MOD_CLASS_OFDM, WIFI_MOD_CLASS_ERP_OFDM}"

definition divisor :: "WifiTxVector \<Rightarrow> double" where
  "divisor txVector =
     (if legacy txVector then numDataBitsPerSymbol_OFDM txVector
      else dmul (m_Stbc txVector) (numDataBitsPerSymbol_HT txVector))"

definition Tsym_of :: "WifiTxVector \<Rightarrow> Time" where
  "Tsym_of txVector =
     (if legacy txVector then symbolDuration_OFDM txVector else symbolDuration_HT txVector)"

definition extension :: "WifiTxVector \<Rightarrow> double \<Rightarrow> mpduType \<Rightarrow> Time" where
  "extension txVector frequency mpdutype =
     (if GetModulationClass (GetMode txVector) = WIFI_MOD_CLASS_ERP_OFDM then MicroSeconds 6
      else if GetModulationClass (GetMode txVector) = WIFI_MOD_CLASS_HT
              \<and> 2400 \<le> frequency \<and> frequency \<le> 2500 \<and> mpdutype \<noteq> MPDU_IN_AGGREGATE
      then MicroSeconds 6 else 0)"

definition firstSymbols :: "WifiTxVector \<Rightarrow> uint32_t \<Rightarrow> double" where
  "firstSymbols txVector sz =
     (if legacy txVector
      then ddiv (dadd (dadd 16 (dmul (to_double sz) 8)) 6) (numDataBitsPerSymbol_OFDM txVector)
      else ddiv (dmul (m_Stbc txVector)
                   (dadd (dadd 16 (dmul (to_double sz) 8)) (dmul 6 (Nes txVector))))
             (dmul (m_Stbc txVector) (numDataBitsPerSymbol_HT txVector)))"

definition middleSymbols :: "WifiTxVector \<Rightarrow> uint32_t \<Rightarrow> double" where
  "middleSymbols txVector sz =
     (if legacy txVector
      then ddiv (dmul (to_double sz) 8) (numDataBitsPerSymbol_OFDM txVector)
      else ddiv (dmul (dmul (m_Stbc txVector) (to_double sz)) 8)
             (dmul (m_Stbc txVector) (numDataBitsPerSymbol_HT txVector)))"

definition wholeSymbols :: "WifiTxVector \<Rightarrow> uint32_t \<Rightarrow> double" where
  "wholeSymbols txVector sz =
     (if legacy txVector
      then long_to_double (lrint (ceil
             (ddiv (dadd (dadd 16 (dmul (to_double sz) 8)) 6)
                (numDataBitsPerSymbol_OFDM txVector))))
      else long_to_double (lrint (dmul (m_Stbc txVector) (ceil
             (ddiv (dadd (dadd 16 (dmul (to_double sz) 8)) (dmul 6 (Nes txVector)))
                (dmul (m_Stbc txVector) (numDataBitsPerSymbol_HT txVector)))))))"

section \<open>Verified properties\<close>

subsection \<open>Rounding to double precision\<close>

text \<open>
  The leading exponent brackets a positive real between two powers of two; a positive real
  scaled by its quantum has a significand of 53 bits. Rounding is monotone on the
  non-negative reals, leaves every number with a significand below \<open>2 ^ 53\<close> as it is,
  and moves a number by at most the fraction \<open>2 ^ -53\<close> of itself or of its image.
\<close>

lemma bits_bounds: "0 < n \<Longrightarrow> 2 ^ (bits n - 1) \<le> n \<and> n < 2 ^ bits n"
proof (induction n rule: bits.induct)
  case (1 n)
  show ?case
  proof (cases "n div 2 = 0")
    case True
    then have "n = 1" using 1(2) by linarith
    then show ?thesis by (simp add: bits.simps)
  next
    case False
    then have ih: "2 ^ (bits (n div 2) - 1) \<le> n div 2" "n div 2 < 2 ^ bits (n div 2)"
      using 1 by auto
    have b: "bits n = Suc (bits (n div 2))" using 1(2) by (subst bits.simps) simp
    have p: "0 < bits (n div 2)" using False by (subst bits.simps) simp
    then have "(2::nat) ^ bits (n div 2) = 2 * 2 ^ (bits (n div 2) - 1)"
      by (cases "bits (n div 2)") simp_all
    then show ?thesis using ih b by simp linarith
  qed
qed

lemma expo_bounds:
  assumes "0 < x"
  shows "2 powi (expo x) \<le> x" and "x < 2 powi (expo x + 1)"
proof -
  have both: "2 powi (expo x) \<le> x \<and> x < 2 powi (expo x + 1)"
  proof (cases "1 \<le> x")
    case True
    define n where "n = nat \<lfloor>x\<rfloor>"
    have n: "0 < n" "real n \<le> x" "x < real n + 1" using True unfolding n_def by linarith+
    have e: "expo x = int (bits n) - 1" using True assms by (simp add: expo_def n_def)
    have bp: "0 < bits n" using n(1) by (subst bits.simps) simp
    from bits_bounds [OF n(1)] have lo: "2 ^ (bits n - 1) \<le> n" and hi: "n < 2 ^ bits n" by auto
    have "(2::real) powi (expo x) = 2 ^ (bits n - 1)"
      unfolding e using bp by (simp add: power_int_def nat_diff_distrib')
    moreover have "(2::real) powi (expo x + 1) = 2 ^ bits n"
      unfolding e by (simp add: power_int_def)
    moreover have "(2::real) ^ (bits n - 1) \<le> real n" using lo
      by (metis of_nat_le_iff of_nat_numeral of_nat_power)
    moreover have "real n + 1 \<le> 2 ^ bits n"
    proof -
      have "n + 1 \<le> 2 ^ bits n" using hi by simp
      then have "real (n + 1) \<le> real (2 ^ bits n)" by (simp only: of_nat_le_iff)
      then show ?thesis by simp
    qed
    ultimately show ?thesis using n by linarith
  next
    case False
    define y where "y = 1 / x"
    have y: "1 < y" using False assms by (simp add: y_def)
    define m where "m = nat (\<lceil>y\<rceil> - 1)"
    have m: "0 < m" "real m < y" "y \<le> real m + 1" using y unfolding m_def by linarith+
    have e: "expo x = - int (bits m)" using False assms by (simp add: expo_def m_def y_def)
    have bp: "0 < bits m" using m(1) by (subst bits.simps) simp
    from bits_bounds [OF m(1)] have lo: "2 ^ (bits m - 1) \<le> m" and hi: "m < 2 ^ bits m" by auto
    have "real m + 1 \<le> 2 ^ bits m"
    proof -
      have "m + 1 \<le> 2 ^ bits m" using hi by simp
      then have "real (m + 1) \<le> real (2 ^ bits m)" by (simp only: of_nat_le_iff)
      then show ?thesis by simp
    qed
    then have yhi: "y \<le> 2 ^ bits m" using m by linarith
    have "(2::real) ^ (bits m - 1) \<le> real m" using lo
      by (metis of_nat_le_iff of_nat_numeral of_nat_power)
    then have ylo: "2 ^ (bits m - 1) < y" using m by linarith
    have x: "x = 1 / y" using assms by (simp add: y_def)
    have p1: "(2::real) powi (expo x) = 1 / 2 ^ bits m"
      unfolding e by (simp add: power_int_def field_simps)
    have p2: "(2::real) powi (expo x + 1) = 1 / 2 ^ (bits m - 1)"
    proof -
      have "- int (bits m) + 1 = - int (bits m - 1)" using bp by linarith
      then have "(2::real) powi (- int (bits m) + 1) = 2 powi (- int (bits m - 1))"
        by (simp only:)
      also have "\<dots> = 1 / 2 ^ (bits m - 1)"
        by (simp only: power_int_minus power_int_of_nat inverse_eq_divide)
      finally show ?thesis unfolding e .
    qed
    have "1 / 2 ^ bits m \<le> 1 / y" using yhi y by (simp add: frac_le)
    then have a: "1 / 2 ^ bits m \<le> x" by (simp only: x)
    have "1 / y < 1 / 2 ^ (bits m - 1)" using ylo by (simp add: frac_less2)
    then have b: "x < 1 / 2 ^ (bits m - 1)" by (simp only: x)
    show ?thesis using a b by (simp only: p1 p2 simp_thms)
  qed
  from both show "2 powi (expo x) \<le> x" and "x < 2 powi (expo x + 1)" by auto
qed

lemma powi_less_D:
  assumes "(2::real) powi a < 2 powi b"
  shows "a < b"
proof (rule ccontr)
  assume "\<not> a < b"
  then have "b \<le> a" by simp
  then have "(2::real) powi b \<le> 2 powi a" by (rule power_int_increasing) simp
  with assms show False by simp
qed

lemma expo_eqI:
  assumes "0 < x" and lo: "2 powi k \<le> x" and hi: "x < 2 powi (k + 1)"
  shows "expo x = k"
proof -
  have "(2::real) powi (expo x) < 2 powi (k + 1)"
    using expo_bounds(1) [OF assms(1)] hi by linarith
  then have a: "expo x < k + 1" by (rule powi_less_D)
  have "(2::real) powi k < 2 powi (expo x + 1)"
    using expo_bounds(2) [OF assms(1)] lo by linarith
  then have b: "k < expo x + 1" by (rule powi_less_D)
  from a b show ?thesis by linarith
qed

lemma rhe_err: "\<bar>of_int (rhe y) - y\<bar> \<le> 1 / 2"
  unfolding rhe_def Let_def by (auto; linarith)

lemma rhe_of_int [simp]: "rhe (of_int k) = k"
  by (simp add: rhe_def)

lemma rhe_mono:
  assumes "x \<le> y"
  shows "rhe x \<le> rhe y"
proof (rule ccontr)
  assume "\<not> rhe x \<le> rhe y"
  then have "rhe y + 1 \<le> rhe x" by simp
  then have g: "(of_int (rhe y) :: real) + 1 \<le> of_int (rhe x)"
    by (metis of_int_1 of_int_add of_int_le_iff)
  have "x = y" using rhe_err [of x] rhe_err [of y] g assms by linarith
  with \<open>\<not> rhe x \<le> rhe y\<close> show False by simp
qed

lemma quantum_pos: "0 < quantum x"
  by (simp add: quantum_def zero_less_power_int)

lemma scaled_bounds:
  assumes "0 < x"
  shows "2 ^ 52 \<le> x / quantum x" and "x / quantum x < 2 ^ 53"
proof -
  have q: "quantum x = 2 powi (expo x) / 2 ^ 52"
    unfolding quantum_def by (subst power_int_diff) simp_all
  have q': "quantum x * 2 = 2 powi (expo x + 1) / 2 ^ 52"
    unfolding q by (subst power_int_add) simp_all
  have "2 ^ 52 * quantum x \<le> x" using expo_bounds(1) [OF assms] by (simp add: q)
  then show "2 ^ 52 \<le> x / quantum x" using quantum_pos [of x] by (simp add: le_divide_eq)
  have "x < 2 ^ 53 * quantum x"
  proof -
    have "(2::real) ^ 53 * quantum x = 2 ^ 52 * (quantum x * 2)" by simp
    also have "\<dots> = 2 powi (expo x + 1)" unfolding q' by simp
    finally show ?thesis using expo_bounds(2) [OF assms] by simp
  qed
  then show "x / quantum x < 2 ^ 53" using quantum_pos [of x] by (simp add: divide_less_eq)
qed

lemma mantissa_bounds:
  assumes "0 < x"
  shows "2 ^ 52 \<le> rhe (x / quantum x)" and "rhe (x / quantum x) \<le> 2 ^ 53"
proof -
  have "rhe (of_int (2 ^ 52)) \<le> rhe (x / quantum x)"
    by (rule rhe_mono) (use scaled_bounds(1) [OF assms] in simp)
  then show "2 ^ 52 \<le> rhe (x / quantum x)" by (simp only: rhe_of_int)
  have "rhe (x / quantum x) \<le> rhe (of_int (2 ^ 53))"
    by (rule rhe_mono) (use scaled_bounds(2) [OF assms] in simp)
  then show "rhe (x / quantum x) \<le> 2 ^ 53" by (simp only: rhe_of_int)
qed

lemma round_double_0 [simp]: "round_double 0 = 0"
  by (simp add: round_double_def rhe_def)

lemma round_double_lower:
  assumes "0 < x"
  shows "2 powi (expo x) \<le> round_double x"
proof -
  have q: "2 ^ 52 * quantum x = 2 powi (expo x)"
    unfolding quantum_def by (subst power_int_diff) simp_all
  have "(2 ^ 52 :: real) \<le> of_int (rhe (x / quantum x))"
    using mantissa_bounds(1) [OF assms] by (metis of_int_le_iff of_int_numeral of_int_power)
  then have "2 ^ 52 * quantum x \<le> of_int (rhe (x / quantum x)) * quantum x"
    using quantum_pos [of x] by (simp only: mult_le_cancel_right_pos)
  then show ?thesis by (simp only: q round_double_def)
qed

lemma round_double_upper:
  assumes "0 < x"
  shows "round_double x \<le> 2 powi (expo x + 1)"
proof -
  have q: "2 ^ 53 * quantum x = 2 powi (expo x + 1)"
  proof -
    have "(2::real) powi ((expo x - 52) + 53) = 2 powi (expo x - 52) * 2 powi 53"
      by (rule power_int_add) simp
    moreover have "(expo x - 52) + 53 = expo x + 1" by simp
    ultimately have "(2::real) powi (expo x + 1) = 2 powi (expo x - 52) * 2 powi 53"
      by (simp only:)
    then show ?thesis by (simp add: quantum_def)
  qed
  have "(of_int (rhe (x / quantum x)) :: real) \<le> 2 ^ 53"
    using mantissa_bounds(2) [OF assms] by (metis of_int_le_iff of_int_numeral of_int_power)
  then have "of_int (rhe (x / quantum x)) * quantum x \<le> 2 ^ 53 * quantum x"
    using quantum_pos [of x] by (simp only: mult_le_cancel_right_pos)
  then show ?thesis by (simp only: q round_double_def)
qed

lemma round_double_pos:
  assumes "0 < x"
  shows "0 < round_double x"
proof -
  have "0 < (2::real) powi (expo x)" by (rule zero_less_power_int) simp
  then show ?thesis using round_double_lower [OF assms] by linarith
qed

lemma round_double_nonneg: "0 \<le> x \<Longrightarrow> 0 \<le> round_double x"
  using round_double_pos [of x] by (cases "x = 0") simp_all

lemma round_double_mono:
  assumes "0 \<le> x" and "x \<le> y"
  shows "round_double x \<le> round_double y"
proof (cases "x = 0")
  case True
  then show ?thesis using round_double_nonneg [of y] assms by simp
next
  case False
  then have x: "0 < x" and y: "0 < y" using assms by simp_all
  have "(2::real) powi (expo x) < 2 powi (expo y + 1)"
    using expo_bounds(1) [OF x] expo_bounds(2) [OF y] assms by linarith
  then have "expo x < expo y + 1" by (rule powi_less_D)
  then have le: "expo x \<le> expo y" by simp
  show ?thesis
  proof (cases "expo x = expo y")
    case True
    then have q: "quantum x = quantum y" by (simp add: quantum_def)
    have "x / quantum y \<le> y / quantum y"
      using assms quantum_pos [of y] by (simp add: divide_right_mono)
    then have "rhe (x / quantum y) \<le> rhe (y / quantum y)" by (rule rhe_mono)
    then have "(of_int (rhe (x / quantum y)) :: real) \<le> of_int (rhe (y / quantum y))"
      by (simp only: of_int_le_iff)
    then show ?thesis unfolding round_double_def q using quantum_pos [of y]
      by (simp only: mult_le_cancel_right_pos)
  next
    case False
    then have "expo x + 1 \<le> expo y" using le by simp
    then have "(2::real) powi (expo x + 1) \<le> 2 powi (expo y)"
      by (rule power_int_increasing) simp
    then show ?thesis using round_double_upper [OF x] round_double_lower [OF y] by linarith
  qed
qed

lemma round_double_err:
  "\<bar>round_double x - x\<bar> \<le> quantum x / 2"
proof -
  define q where "q = quantum x"
  have q: "0 < q" unfolding q_def by (rule quantum_pos)
  have "round_double x - x = (of_int (rhe (x / q)) - x / q) * q"
    using q by (simp add: round_double_def q_def field_simps)
  then have "\<bar>round_double x - x\<bar> = \<bar>of_int (rhe (x / q)) - x / q\<bar> * q"
    using q by (simp add: abs_mult)
  also have "\<dots> \<le> 1 / 2 * q"
    using rhe_err [of "x / q"] q by (simp only: mult_le_cancel_right_pos)
  finally show ?thesis by (simp add: q_def)
qed

lemma half_quantum:
  assumes "0 < x"
  shows "quantum x / 2 \<le> x / 2 ^ 53" and "quantum x / 2 \<le> round_double x / 2 ^ 53"
proof -
  have q: "quantum x = 2 powi (expo x) / 2 ^ 52"
    unfolding quantum_def by (subst power_int_diff) simp_all
  show "quantum x / 2 \<le> x / 2 ^ 53"
    using expo_bounds(1) [OF assms] by (simp add: q)
  show "quantum x / 2 \<le> round_double x / 2 ^ 53"
    using round_double_lower [OF assms] by (simp add: q)
qed

lemma round_double_rel:
  assumes "0 \<le> x"
  shows "\<bar>round_double x - x\<bar> \<le> x / 2 ^ 53" and "\<bar>round_double x - x\<bar> \<le> round_double x / 2 ^ 53"
proof -
  have "\<bar>round_double x - x\<bar> \<le> x / 2 ^ 53 \<and> \<bar>round_double x - x\<bar> \<le> round_double x / 2 ^ 53"
  proof (cases "x = 0")
    case True
    then show ?thesis by simp
  next
    case False
    then have "0 < x" using assms by simp
    from half_quantum [OF this] round_double_err [of x] show ?thesis by linarith
  qed
  then show "\<bar>round_double x - x\<bar> \<le> x / 2 ^ 53" and "\<bar>round_double x - x\<bar> \<le> round_double x / 2 ^ 53" by auto
qed

lemma round_double_exact:
  assumes m: "0 < m" "m < 2 ^ 53"
  shows "round_double (of_int m * 2 powi k) = of_int m * 2 powi k"
proof -
  define x :: real where "x = of_int m * 2 powi k"
  have p: "0 < (2::real) powi k" by (rule zero_less_power_int) simp
  have x: "0 < x" unfolding x_def using m(1) p by simp
  have "(of_int m :: real) < 2 ^ 53"
    using m(2) by (metis of_int_less_iff of_int_numeral of_int_power)
  then have "x < 2 ^ 53 * 2 powi k" unfolding x_def using p by (simp only: mult_less_cancel_right_pos)
  also have "(2::real) ^ 53 * 2 powi k = 2 powi (k + 53)"
  proof -
    have "(2::real) powi (k + 53) = 2 powi k * 2 powi 53" by (rule power_int_add) simp
    then show ?thesis by simp
  qed
  finally have "(2::real) powi (expo x) < 2 powi (k + 53)"
    using expo_bounds(1) [OF x] by linarith
  then have "expo x < k + 53" by (rule powi_less_D)
  then have j: "0 \<le> k - (expo x - 52)" by simp
  define j where "j = nat (k - (expo x - 52))"
  have k: "k = (expo x - 52) + int j" using j by (simp add: j_def)
  have "(2::real) powi k = 2 powi (expo x - 52) * 2 powi (int j)"
    by (subst k, rule power_int_add) simp
  then have pk: "(2::real) powi k = quantum x * 2 ^ j"
    by (simp add: quantum_def)
  define q where "q = quantum x"
  have q: "0 < q" unfolding q_def by (rule quantum_pos)
  have xq: "x = of_int m * (q * 2 ^ j)" unfolding q_def pk [symmetric] by (rule x_def)
  have "x / q = of_int (m * 2 ^ j)" unfolding xq using q by simp
  then have "rhe (x / q) = m * 2 ^ j" by (simp only: rhe_of_int)
  then have "round_double x = of_int (m * 2 ^ j) * q" by (simp only: round_double_def q_def)
  also have "\<dots> = x" unfolding xq by simp
  finally show ?thesis by (simp only: x_def)
qed

lemma round_double_of_nat:
  assumes "n \<le> 2 ^ 53"
  shows "round_double (real n) = real n"
proof -
  consider "n = 0" | "0 < n" "n < 2 ^ 53" | "n = 2 ^ 53" using assms by linarith
  then show ?thesis
  proof cases
    case 1
    then show ?thesis by simp
  next
    case 2
    have "int n < 2 ^ 53" using 2(2) by (metis of_nat_less_iff of_nat_numeral of_nat_power)
    then have "round_double (of_int (int n) * 2 powi 0) = of_int (int n) * 2 powi 0"
      using 2(1) by (intro round_double_exact) simp_all
    then show ?thesis by simp
  next
    case 3
    have "round_double (of_int 1 * 2 powi 53) = of_int 1 * 2 powi 53"
      by (rule round_double_exact) simp_all
    then show ?thesis by (simp add: 3)
  qed
qed

lemma round_double_idem:
  assumes "0 \<le> x"
  shows "round_double (round_double x) = round_double x"
proof (cases "x = 0")
  case True
  then show ?thesis by simp
next
  case False
  then have x: "0 < x" using assms by simp
  define M where "M = rhe (x / quantum x)"
  have M: "2 ^ 52 \<le> M" "M \<le> 2 ^ 53" unfolding M_def using mantissa_bounds [OF x] by auto
  have f: "round_double x = of_int M * 2 powi (expo x - 52)" by (simp add: round_double_def M_def quantum_def)
  show ?thesis
  proof (cases "M = 2 ^ 53")
    case True
    have "(2::real) powi ((expo x - 52) + 53) = 2 powi (expo x - 52) * 2 powi 53"
      by (rule power_int_add) simp
    then have "round_double x = of_int 1 * 2 powi ((expo x - 52) + 53)" by (simp add: f True)
    moreover have "round_double (of_int 1 * 2 powi ((expo x - 52) + 53)) = of_int 1 * 2 powi ((expo x - 52) + 53)"
      by (rule round_double_exact) simp_all
    ultimately show ?thesis by simp
  next
    case False
    then have "0 < M" "M < 2 ^ 53" using M by simp_all
    from round_double_exact [OF this] show ?thesis by (simp only: f)
  qed
qed

lemma round_double_eval:
  assumes "0 < x" and "2 powi k \<le> x" and "x < 2 powi (k + 1)"
  shows "round_double x = of_int (rhe (x / 2 powi (k - 52))) * 2 powi (k - 52)"
  using expo_eqI [OF assms] by (simp add: round_double_def quantum_def)

subsection \<open>Unfolding the conversions\<close>

lemmas conv_defs = MicroSeconds_def NanoSeconds_def NanoSecondsD_def to_double_def ceil_def
  lrint_def trunc_def double_to_uint32_def andThen_def unchanged_def

lemmas double_defs = dadd_def dsub_def dmul_def ddiv_def uint64_to_double_def long_to_double_def

lemma round_double_numeral [simp]:
  "(numeral k :: nat) \<le> 2 ^ 53 \<Longrightarrow> round_double (numeral k) = numeral k"
  using round_double_of_nat [of "numeral k"] by simp

lemma round_double_1 [simp]: "round_double 1 = 1"
  using round_double_of_nat [of 1] by simp

lemma rhe_numeral [simp]: "rhe (numeral k) = numeral k"
  using rhe_of_int [of "numeral k"] by simp

lemma rhe_0 [simp]: "rhe 0 = 0"
  using rhe_of_int [of 0] by simp

lemma rhe_1 [simp]: "rhe 1 = 1"
  using rhe_of_int [of 1] by simp

lemma ceiling_one_divide_numeral [simp]: "\<lceil>1 / numeral b :: real\<rceil> = - (- 1 div numeral b)"
  using ceiling_divide_eq_div [of 1 "numeral b"] by simp

subsection \<open>Scenario A: OFDM at 6 Mbit/s, 20 MHz, 1000 bytes\<close>

lemma round_double_1337_4: "round_double (1337 / 4) = 1337 / 4"
  by (subst round_double_eval [where k = 8]) (simp_all add: rhe_def)

text \<open>
  C7. For a mode of class OFDM whose rate at 20 MHz is 6 Mbit/s, a channel width of 20 MHz,
  a normal MPDU sent with a preamble and a payload of 1000 bytes: the number of data bits
  per symbol is 24, the symbol count is the ceiling of (16 + 8000 + 6) / 24, which is 335,
  and the payload duration is 335 symbols of 4 microseconds, that is 1340 microseconds. The
  accumulator is left as it was.
\<close>

theorem C7_scenario_A:
  assumes "GetModulationClass (GetMode txVector) = WIFI_MOD_CLASS_OFDM"
    and "GetChannelWidth txVector = 20"
    and "GetDataRate (GetMode txVector) 20 False 1 = 6000000"
    and "preamble \<noteq> WIFI_PREAMBLE_NONE"
  shows "numDataBitsPerSymbol_OFDM txVector = 24
       \<and> numSymbols_OFDM phy 1000 preamble NORMAL_MPDU incFlag (numDataBitsPerSymbol_OFDM txVector)
           = Inr (of_int \<lceil>(16 + 8000 + 6) / (24::real)\<rceil>, phy)
       \<and> \<lceil>(16 + 8000 + 6) / (24::real)\<rceil> = 335
       \<and> GetPayloadDuration K phy 1000 txVector preamble frequency NORMAL_MPDU incFlag
           = Inr (335 * MicroSeconds 4, phy)
       \<and> 335 * MicroSeconds 4 = MicroSeconds 1340"
proof -
  have n: "numDataBitsPerSymbol_OFDM txVector = 24"
    using assms by (simp add: numDataBitsPerSymbol_OFDM_def symbolDuration_OFDM_def conv_defs
        double_defs)
  have s: "numSymbols_OFDM phy 1000 preamble NORMAL_MPDU incFlag 24
             = Inr (of_int \<lceil>(16 + 8000 + 6) / (24::real)\<rceil>, phy)"
    using assms by (simp add: numSymbols_OFDM_def conv_defs double_defs round_double_1337_4)
  have d: "GetPayloadDuration K phy 1000 txVector preamble frequency NORMAL_MPDU incFlag
             = Inr (335 * MicroSeconds 4, phy)"
    using assms by (simp add: GetPayloadDuration_def GetPayloadDuration_OFDM_def n s
        symbolDuration_OFDM_def MicroSeconds_def NanoSecondsD_def double_defs)
  show ?thesis using n s d by (simp add: MicroSeconds_def)
qed

theorem C7_scenario_A_witness:
  "GetPayloadDuration floors_80211ad WifiPhy_init 1000 (txVector_of GetOfdmRate6Mbps 20)
     WIFI_PREAMBLE_LONG 5180 NORMAL_MPDU 0 = Inr (MicroSeconds 1340, WifiPhy_init)"
  using C7_scenario_A [of "txVector_of GetOfdmRate6Mbps 20" WIFI_PREAMBLE_LONG WifiPhy_init 0
      floors_80211ad 5180]
  by (simp add: txVector_of_def GetOfdmRate6Mbps_def MicroSeconds_def)

subsection \<open>Preamble duration of legacy OFDM\<close>

text \<open>
  C2. The claim says that the preamble duration of a legacy OFDM mode differs between channel
  widths of 20, 10 and 5 MHz. The switch in \<open>GetPlcpPreambleDuration\<close> compares the width
  with 20000000, 10000000 and 5000000, while widths are given in MHz everywhere else (the
  header duration and the payload duration compare with 20, 10 and 5). At widths 20, 10 and 5
  the preamble duration is therefore the same 16 microseconds, whereas the header duration
  of the same three vectors is 4, 8 and 16 microseconds.
\<close>

theorem C2_preamble_same_at_5_10_20:
  "GetPlcpPreambleDuration (txVector_of GetOfdmRate6Mbps 20) WIFI_PREAMBLE_LONG = Inr (MicroSeconds 16)
 \<and> GetPlcpPreambleDuration (txVector_of GetOfdmRate6Mbps 10) WIFI_PREAMBLE_LONG = Inr (MicroSeconds 16)
 \<and> GetPlcpPreambleDuration (txVector_of GetOfdmRate6Mbps 5) WIFI_PREAMBLE_LONG = Inr (MicroSeconds 16)
 \<and> GetPlcpHeaderDuration (txVector_of GetOfdmRate6Mbps 20) WIFI_PREAMBLE_LONG = Inr (MicroSeconds 4)
 \<and> GetPlcpHeaderDuration (txVector_of GetOfdmRate6Mbps 10) WIFI_PREAMBLE_LONG = Inr (MicroSeconds 8)
 \<and> GetPlcpHeaderDuration (txVector_of GetOfdmRate6Mbps 5) WIFI_PREAMBLE_LONG = Inr (MicroSeconds 16)"
  by (simp add: GetPlcpPreambleDuration_def GetPlcpHeaderDuration_def txVector_of_def
      GetOfdmRate6Mbps_def)

subsection \<open>Duration probes leave the accumulator alone\<close>

lemma numSymbols_OFDM_probe:
  "incFlag \<noteq> 1 \<Longrightarrow> numSymbols_OFDM phy sz preamble mpdutype incFlag N = Inr (n, phy')
     \<Longrightarrow> phy' = phy"
  by (auto simp: numSymbols_OFDM_def Let_def split: if_splits)

lemma numSymbols_HT_probe:
  "incFlag \<noteq> 1 \<Longrightarrow> numSymbols_HT phy sz preamble mpdutype incFlag s e N = Inr (n, phy')
     \<Longrightarrow> phy' = phy"
  by (auto simp: numSymbols_HT_def Let_def split: if_splits)

lemma unchanged_Inr: "unchanged phy r = Inr (d, phy') \<Longrightarrow> phy' = phy"
  by (auto simp: unchanged_def split: sum.splits)

text \<open>
  C5. Whatever the size, transmit vector, preamble, frequency and role: a call of
  \<open>GetPayloadDuration\<close> whose \<open>incFlag\<close> is not 1 and that returns a duration returns
  with \<open>m_totalAmpduSize\<close> and \<open>m_totalAmpduNumSymbols\<close> as they were before the call.
  (A call that ends in a fatal error or a failed assertion does not return at all.)
\<close>

theorem C5_probe_leaves_accumulator:
  assumes "incFlag \<noteq> 1"
    and "GetPayloadDuration K phy sz txVector preamble frequency mpdutype incFlag = Inr (d, phy')"
  shows "m_totalAmpduSize phy' = m_totalAmpduSize phy
       \<and> m_totalAmpduNumSymbols phy' = m_totalAmpduNumSymbols phy"
proof -
  have "phy' = phy"
  proof (cases "GetModulationClass (GetMode txVector)")
    case WIFI_MOD_CLASS_OFDM
    with assms show ?thesis
      by (auto simp: GetPayloadDuration_def GetPayloadDuration_OFDM_def Let_def
          split: sum.splits if_splits dest: numSymbols_OFDM_probe)
  next
    case WIFI_MOD_CLASS_ERP_OFDM
    with assms show ?thesis
      by (auto simp: GetPayloadDuration_def GetPayloadDuration_OFDM_def Let_def
          split: sum.splits if_splits dest: numSymbols_OFDM_probe)
  next
    case WIFI_MOD_CLASS_HT
    with assms show ?thesis
      by (auto simp: GetPayloadDuration_def GetPayloadDuration_HT_def Let_def
          split: sum.splits if_splits dest: numSymbols_HT_probe)
  next
    case WIFI_MOD_CLASS_VHT
    with assms show ?thesis
      by (auto simp: GetPayloadDuration_def GetPayloadDuration_HT_def Let_def
          split: sum.splits if_splits dest: numSymbols_HT_probe)
  qed (use assms in \<open>auto simp: GetPayloadDuration_def NanoSeconds_def dest: unchanged_Inr\<close>)
  then show ?thesis by simp
qed

lemma first_probe_value:
  "GetPayloadDuration floors_80211ad phy_mid 1000 (txVector_of GetOfdmRate6Mbps 20)
     WIFI_PREAMBLE_LONG 5180 MPDU_IN_AGGREGATE 0 = Inr (1337000, phy_mid)"
  by (simp add: GetPayloadDuration_def GetPayloadDuration_OFDM_def numSymbols_OFDM_def
      numDataBitsPerSymbol_OFDM_def symbolDuration_OFDM_def txVector_of_def GetOfdmRate6Mbps_def
      conv_defs double_defs round_double_1337_4)

theorem C5_probe_leaves_accumulator_witness:
  "(0::uint8_t) \<noteq> 1
   \<and> GetPayloadDuration floors_80211ad phy_mid 1000 (txVector_of GetOfdmRate6Mbps 20)
       WIFI_PREAMBLE_LONG 5180 MPDU_IN_AGGREGATE 0 = Inr (1337000, phy_mid)
   \<and> m_totalAmpduSize phy_mid = 100 \<and> m_totalAmpduNumSymbols phy_mid = 137 / 4"
  using C5_probe_leaves_accumulator [OF _ first_probe_value]
  by (simp add: first_probe_value) (simp add: phy_mid_def)

subsection \<open>Durations are never negative\<close>

lemma to_double_nonneg [simp]: "0 \<le> to_double w"
  unfolding to_double_def by (rule of_nat_0_le_iff)

lemma lrint_of_int [simp]: "lrint (of_int k) = k"
  by (simp add: lrint_def)

lemma lrint_ceil [simp]: "lrint (ceil x) = \<lceil>x\<rceil>"
  by (simp add: ceil_def)

lemma lrint_nonneg: "0 \<le> x \<Longrightarrow> 0 \<le> lrint x"
  unfolding lrint_def using rhe_mono [of 0 x] by simp

lemma ceil_nonneg: "0 \<le> x \<Longrightarrow> 0 \<le> ceil x"
  unfolding ceil_def using ceiling_mono [of 0 x] by simp

lemma NanoSecondsD_nonneg: "0 \<le> x \<Longrightarrow> 0 \<le> NanoSecondsD x"
  by (simp add: NanoSecondsD_def)

lemma dadd_nonneg: "0 \<le> x \<Longrightarrow> 0 \<le> y \<Longrightarrow> 0 \<le> dadd x y"
  unfolding dadd_def by (rule round_double_nonneg) simp

lemma dmul_nonneg: "0 \<le> x \<Longrightarrow> 0 \<le> y \<Longrightarrow> 0 \<le> dmul x y"
  unfolding dmul_def by (rule round_double_nonneg) simp

lemma ddiv_nonneg: "0 \<le> x \<Longrightarrow> 0 \<le> y \<Longrightarrow> 0 \<le> ddiv x y"
  unfolding ddiv_def by (rule round_double_nonneg) simp

lemma dsub_nonneg: "y \<le> x \<Longrightarrow> 0 \<le> dsub x y"
  unfolding dsub_def by (rule round_double_nonneg) simp

lemma long_to_double_nonneg: "0 \<le> k \<Longrightarrow> 0 \<le> long_to_double k"
  unfolding long_to_double_def by (rule round_double_nonneg) simp

lemma uint64_to_double_nonneg: "0 \<le> uint64_to_double w"
  unfolding uint64_to_double_def by (rule round_double_nonneg) (rule of_nat_0_le_iff)

lemmas nonneg_intros = dadd_nonneg dmul_nonneg ddiv_nonneg long_to_double_nonneg lrint_nonneg
  ceil_nonneg uint64_to_double_nonneg to_double_nonneg zero_le_numeral zero_le_one

lemma numDataBitsPerSymbol_OFDM_nonneg: "0 \<le> numDataBitsPerSymbol_OFDM txVector"
  unfolding numDataBitsPerSymbol_OFDM_def by (intro nonneg_intros)

lemma numDataBitsPerSymbol_HT_nonneg: "0 \<le> numDataBitsPerSymbol_HT txVector"
  unfolding numDataBitsPerSymbol_HT_def by (intro nonneg_intros)

lemma symbolDuration_OFDM_pos: "0 < symbolDuration_OFDM txVector"
  by (simp add: symbolDuration_OFDM_def MicroSeconds_def)

lemma symbolDuration_HT_pos: "0 < symbolDuration_HT txVector"
  by (simp add: symbolDuration_HT_def MicroSeconds_def NanoSeconds_def)

lemma m_Stbc_pos: "0 < m_Stbc txVector"
  by (simp add: m_Stbc_def)

lemma Nes_values: "Nes txVector \<in> {1, 2, 3, 4, 6}"
  by (simp add: Nes_def Let_def)

lemma Nes_nonneg: "0 \<le> Nes txVector"
  using Nes_values [of txVector] by auto

lemma numSymbols_OFDM_nonneg:
  assumes "numSymbols_OFDM phy sz preamble mpdutype incFlag N = Inr (n, phy')" and "0 \<le> N"
  shows "0 \<le> n"
proof -
  have num: "0 \<le> dadd (dadd 16 (dmul (to_double w) 8)) 6" for w :: uint32_t
    by (intro nonneg_intros)
  have a: "0 \<le> ddiv (dadd (dadd 16 (dmul (to_double w) 8)) 6) N" for w :: uint32_t
    by (intro nonneg_intros assms(2))
  have b: "0 \<le> ddiv (dmul (to_double sz) 8) N"
    by (intro nonneg_intros assms(2))
  have c: "0 \<le> long_to_double (lrint (ceil (ddiv (dadd (dadd 16 (dmul (to_double w) 8)) 6) N)))"
    for w :: uint32_t
    by (intro nonneg_intros assms(2))
  show ?thesis using assms(1) a b c
    by (auto simp: numSymbols_OFDM_def Let_def split: if_splits intro: dsub_nonneg)
qed

lemma numSymbols_HT_nonneg:
  assumes "numSymbols_HT phy sz preamble mpdutype incFlag s e N = Inr (n, phy')"
    and "0 < s" and "0 \<le> e" and "0 \<le> N"
  shows "0 \<le> n"
proof -
  have s: "0 \<le> s" using assms(2) by simp
  have num: "0 \<le> dadd (dadd 16 (dmul (to_double w) 8)) (dmul 6 e)" for w :: uint32_t
    by (intro nonneg_intros assms(3))
  have den: "0 \<le> dmul s N" by (intro nonneg_intros s assms(4))
  have a: "0 \<le> ddiv (dmul s (dadd (dadd 16 (dmul (to_double sz) 8)) (dmul 6 e))) (dmul s N)"
    by (intro nonneg_intros s assms(3) assms(4))
  have b: "0 \<le> ddiv (dmul (dmul s (to_double sz)) 8) (dmul s N)"
    by (intro nonneg_intros s assms(4))
  have c: "0 \<le> long_to_double (lrint (dmul s (ceil
      (ddiv (dadd (dadd 16 (dmul (to_double w) 8)) (dmul 6 e)) (dmul s N)))))" for w :: uint32_t
    by (intro nonneg_intros s assms(3) assms(4))
  show ?thesis using assms(1) a b c
    by (auto simp: numSymbols_HT_def Let_def split: if_splits intro: dsub_nonneg)
qed

lemma GetPayloadDuration_OFDM_nonneg:
  assumes "GetPayloadDuration_OFDM phy sz txVector preamble mpdutype incFlag = Inr (d, phy')"
  shows "0 \<le> d"
proof -
  obtain n where n: "numSymbols_OFDM phy sz preamble mpdutype incFlag (numDataBitsPerSymbol_OFDM txVector) = Inr (n, phy')"
    and d: "d = NanoSecondsD (dmul n (of_int (symbolDuration_OFDM txVector))) \<or> d = NanoSecondsD (dmul n (of_int (symbolDuration_OFDM txVector))) + MicroSeconds 6"
    using assms by (auto simp: GetPayloadDuration_OFDM_def Let_def split: sum.splits if_splits)
  have "0 \<le> n" using numSymbols_OFDM_nonneg [OF n numDataBitsPerSymbol_OFDM_nonneg] .
  then have "0 \<le> dmul n (of_int (symbolDuration_OFDM txVector))"
    using symbolDuration_OFDM_pos [of txVector] by (intro dmul_nonneg) simp_all
  then have "0 \<le> NanoSecondsD (dmul n (of_int (symbolDuration_OFDM txVector)))"
    by (rule NanoSecondsD_nonneg)
  with d show ?thesis by (auto simp: MicroSeconds_def)
qed

lemma GetPayloadDuration_HT_nonneg:
  assumes "GetPayloadDuration_HT phy sz txVector preamble frequency mpdutype incFlag = Inr (d, phy')"
  shows "0 \<le> d"
proof -
  obtain n where n: "numSymbols_HT phy sz preamble mpdutype incFlag (m_Stbc txVector) (Nes txVector) (numDataBitsPerSymbol_HT txVector) = Inr (n, phy')"
    and d: "d = NanoSecondsD (dmul n (of_int (symbolDuration_HT txVector))) \<or> d = NanoSecondsD (dmul n (of_int (symbolDuration_HT txVector))) + MicroSeconds 6"
    using assms by (auto simp: GetPayloadDuration_HT_def Let_def split: sum.splits if_splits)
  have "0 \<le> n" using numSymbols_HT_nonneg [OF n m_Stbc_pos Nes_nonneg numDataBitsPerSymbol_HT_nonneg] .
  then have "0 \<le> dmul n (of_int (symbolDuration_HT txVector))"
    using symbolDuration_HT_pos [of txVector] by (intro dmul_nonneg) simp_all
  then have "0 \<le> NanoSecondsD (dmul n (of_int (symbolDuration_HT txVector)))"
    by (rule NanoSecondsD_nonneg)
  with d show ?thesis by (auto simp: MicroSeconds_def)
qed

lemma GetPayloadDuration_DSSS_nonneg:
  assumes "GetPayloadDuration_DSSS sz m = Inr d"
  shows "0 \<le> d"
proof -
  have "0 \<le> lrint (ceil ((to_double sz * 8) / (to_double (GetDataRate m 22 False 1) / 1000000)))"
    by (intro lrint_nonneg ceil_nonneg divide_nonneg_nonneg mult_nonneg_nonneg) simp_all
  then show ?thesis using assms
    by (auto simp: GetPayloadDuration_DSSS_def MicroSeconds_def simp del: lrint_ceil split: if_splits)
qed

lemma GetPayloadDuration_DMG_CTRL_nonneg:
  assumes "GetPayloadDuration_DMG_CTRL sz txVector = Inr d"
  shows "0 \<le> d"
proof -
  have "0 \<le> NanoSecondsD (ceil (to_double w / (176 / 100)))" for w :: uint32_t
    by (intro NanoSecondsD_nonneg ceil_nonneg divide_nonneg_nonneg) simp_all
  moreover have "0 \<le> NanoSecondsD (ceil (to_double w * (57 / 100) * 32))" for w :: uint32_t
    by (intro NanoSecondsD_nonneg ceil_nonneg mult_nonneg_nonneg) simp_all
  ultimately show ?thesis using assms
    by (auto simp: GetPayloadDuration_DMG_CTRL_def andThen_def Let_def
      split: if_splits sum.splits)
qed

lemma GetPayloadDuration_DMG_SC_nonneg:
  assumes "GetPayloadDuration_DMG_SC K sz txVector = Inr d"
  shows "0 \<le> d"
  using assms
  by (auto simp: GetPayloadDuration_DMG_SC_def andThen_def Let_def NanoSeconds_def
      split: if_splits sum.splits)

lemma GetPayloadDuration_DMG_OFDM_nonneg:
  assumes "GetPayloadDuration_DMG_OFDM K sz txVector = Inr d"
  shows "0 \<le> d"
  using assms
  by (auto simp: GetPayloadDuration_DMG_OFDM_def andThen_def Let_def NanoSeconds_def
      split: if_splits sum.splits)

lemma unchanged_InrD: "unchanged phy r = Inr (d, phy') \<Longrightarrow> r = Inr d"
  by (auto simp: unchanged_def split: sum.splits)

lemma GetPayloadDuration_nonneg:
  assumes "GetPayloadDuration K phy sz txVector preamble frequency mpdutype incFlag = Inr (d, phy')"
  shows "0 \<le> d"
  using assms
  by (cases "GetModulationClass (GetMode txVector)")
     (auto simp: GetPayloadDuration_def NanoSeconds_def
       dest: GetPayloadDuration_OFDM_nonneg GetPayloadDuration_HT_nonneg
         GetPayloadDuration_DSSS_nonneg [OF unchanged_InrD]
         GetPayloadDuration_DMG_CTRL_nonneg [OF unchanged_InrD]
         GetPayloadDuration_DMG_SC_nonneg [OF unchanged_InrD]
         GetPayloadDuration_DMG_OFDM_nonneg [OF unchanged_InrD])

subsection \<open>The calls of the symbol-counting branches\<close>

text \<open>
  For the classes OFDM, ERP-OFDM, HT and VHT the four kinds of call, written with the
  symbol counts, the divisor, the symbol duration and the signal extension of the transmit
  vector.
\<close>

lemma symbolic_cases:
  assumes "symbolic tv"
  obtains (ofdm) "legacy tv" "GetModulationClass (GetMode tv) = WIFI_MOD_CLASS_OFDM
                     \<or> GetModulationClass (GetMode tv) = WIFI_MOD_CLASS_ERP_OFDM"
        | (ht) "\<not> legacy tv" "GetModulationClass (GetMode tv) = WIFI_MOD_CLASS_HT
                     \<or> GetModulationClass (GetMode tv) = WIFI_MOD_CLASS_VHT"
  using assms by (auto simp: symbolic_def legacy_def)

lemma call_first:
  assumes sym: "symbolic tv" and pre: "preamble \<noteq> WIFI_PREAMBLE_NONE" and N: "divisor tv \<noteq> 0"
  shows "GetPayloadDuration K phy sz tv preamble f MPDU_IN_AGGREGATE incFlag =
           Inr (NanoSecondsD (dmul (firstSymbols tv sz) (of_int (Tsym_of tv)))
                  + extension tv f MPDU_IN_AGGREGATE,
                if incFlag = 1
                then phy\<lparr>m_totalAmpduSize := m_totalAmpduSize phy + sz,
                         m_totalAmpduNumSymbols :=
                           dadd (m_totalAmpduNumSymbols phy) (firstSymbols tv sz)\<rparr>
                else phy)"
  using sym
proof (cases rule: symbolic_cases)
  case ofdm
  then show ?thesis using pre N
    by (auto simp: GetPayloadDuration_def GetPayloadDuration_OFDM_def numSymbols_OFDM_def
        firstSymbols_def divisor_def Tsym_of_def extension_def Let_def)
next
  case ht
  then show ?thesis using pre N
    by (auto simp: GetPayloadDuration_def GetPayloadDuration_HT_def numSymbols_HT_def
        firstSymbols_def divisor_def Tsym_of_def extension_def Let_def)
qed

lemma call_middle:
  assumes sym: "symbolic tv" and N: "divisor tv \<noteq> 0"
  shows "GetPayloadDuration K phy sz tv WIFI_PREAMBLE_NONE f MPDU_IN_AGGREGATE incFlag =
           Inr (NanoSecondsD (dmul (middleSymbols tv sz) (of_int (Tsym_of tv)))
                  + extension tv f MPDU_IN_AGGREGATE,
                if incFlag = 1
                then phy\<lparr>m_totalAmpduSize := m_totalAmpduSize phy + sz,
                         m_totalAmpduNumSymbols :=
                           dadd (m_totalAmpduNumSymbols phy) (middleSymbols tv sz)\<rparr>
                else phy)"
  using sym
proof (cases rule: symbolic_cases)
  case ofdm
  then show ?thesis using N
    by (auto simp: GetPayloadDuration_def GetPayloadDuration_OFDM_def numSymbols_OFDM_def
        middleSymbols_def divisor_def Tsym_of_def extension_def Let_def)
next
  case ht
  then show ?thesis using N
    by (auto simp: GetPayloadDuration_def GetPayloadDuration_HT_def numSymbols_HT_def
        middleSymbols_def divisor_def Tsym_of_def extension_def Let_def)
qed

lemma call_last:
  assumes sym: "symbolic tv" and N: "divisor tv \<noteq> 0"
    and le: "m_totalAmpduNumSymbols phy \<le> wholeSymbols tv (m_totalAmpduSize phy + sz)"
  shows "GetPayloadDuration K phy sz tv WIFI_PREAMBLE_NONE f LAST_MPDU_IN_AGGREGATE incFlag =
           Inr (NanoSecondsD (dmul (dsub (wholeSymbols tv (m_totalAmpduSize phy + sz))
                                      (m_totalAmpduNumSymbols phy))
                                (of_int (Tsym_of tv)))
                  + extension tv f LAST_MPDU_IN_AGGREGATE,
                if incFlag = 1
                then phy\<lparr>m_totalAmpduSize := 0, m_totalAmpduNumSymbols := 0\<rparr>
                else phy)"
  using sym
proof (cases rule: symbolic_cases)
  case ofdm
  then show ?thesis using N le
    by (auto simp: GetPayloadDuration_def GetPayloadDuration_OFDM_def numSymbols_OFDM_def
        wholeSymbols_def divisor_def Tsym_of_def extension_def Let_def)
next
  case ht
  then show ?thesis using N le
    by (auto simp: GetPayloadDuration_def GetPayloadDuration_HT_def numSymbols_HT_def
        wholeSymbols_def divisor_def Tsym_of_def extension_def Let_def)
qed

lemma call_last_overrun:
  assumes sym: "symbolic tv" and N: "divisor tv \<noteq> 0"
    and gt: "wholeSymbols tv (m_totalAmpduSize phy + sz) < m_totalAmpduNumSymbols phy"
  shows "GetPayloadDuration K phy sz tv WIFI_PREAMBLE_NONE f LAST_MPDU_IN_AGGREGATE incFlag
           = Inl AssertFailed"
  using sym
proof (cases rule: symbolic_cases)
  case ofdm
  then show ?thesis using N gt
    by (auto simp: GetPayloadDuration_def GetPayloadDuration_OFDM_def numSymbols_OFDM_def
        wholeSymbols_def divisor_def Let_def)
next
  case ht
  then show ?thesis using N gt
    by (auto simp: GetPayloadDuration_def GetPayloadDuration_HT_def numSymbols_HT_def
        wholeSymbols_def divisor_def Let_def)
qed

lemma call_normal:
  assumes sym: "symbolic tv" and pre: "preamble \<noteq> WIFI_PREAMBLE_NONE" and N: "divisor tv \<noteq> 0"
  shows "GetPayloadDuration K phy sz tv preamble f NORMAL_MPDU incFlag =
           Inr (NanoSecondsD (dmul (wholeSymbols tv sz) (of_int (Tsym_of tv)))
                  + extension tv f NORMAL_MPDU, phy)"
  using sym
proof (cases rule: symbolic_cases)
  case ofdm
  then show ?thesis using pre N
    by (auto simp: GetPayloadDuration_def GetPayloadDuration_OFDM_def numSymbols_OFDM_def
        wholeSymbols_def divisor_def Tsym_of_def extension_def Let_def)
next
  case ht
  then show ?thesis using pre N
    by (auto simp: GetPayloadDuration_def GetPayloadDuration_HT_def numSymbols_HT_def
        wholeSymbols_def divisor_def Tsym_of_def extension_def Let_def)
qed

lemma call_zero_divisor:
  assumes sym: "symbolic tv" and N: "divisor tv = 0"
  shows "\<exists>e. GetPayloadDuration K phy sz tv preamble f mpdutype incFlag = Inl e"
  using sym
proof (cases rule: symbolic_cases)
  case ofdm
  then show ?thesis using N
    by (auto simp: GetPayloadDuration_def GetPayloadDuration_OFDM_def numSymbols_OFDM_def
        divisor_def Let_def)
next
  case ht
  then show ?thesis using N
    by (auto simp: GetPayloadDuration_def GetPayloadDuration_HT_def numSymbols_HT_def
        divisor_def Let_def)
qed

lemma call_wrong_combination:
  assumes sym: "symbolic tv"
    and wrong: "(mpdutype = NORMAL_MPDU \<and> preamble = WIFI_PREAMBLE_NONE)
              \<or> (mpdutype = LAST_MPDU_IN_AGGREGATE \<and> preamble \<noteq> WIFI_PREAMBLE_NONE)"
  shows "GetPayloadDuration K phy sz tv preamble f mpdutype incFlag
           = Inl (FatalError ''Wrong combination of preamble and packet type'')"
  using sym
proof (cases rule: symbolic_cases)
  case ofdm
  then show ?thesis using wrong
    by (auto simp: GetPayloadDuration_def GetPayloadDuration_OFDM_def numSymbols_OFDM_def)
next
  case ht
  then show ?thesis using wrong
    by (auto simp: GetPayloadDuration_def GetPayloadDuration_HT_def numSymbols_HT_def)
qed

lemma call_combination:
  assumes sym: "symbolic tv"
    and ra: "GetPayloadDuration K phy sz tv preamble f mpdutype incFlag = Inr r"
  shows "mpdutype = MPDU_IN_AGGREGATE
       \<or> (mpdutype = LAST_MPDU_IN_AGGREGATE \<and> preamble = WIFI_PREAMBLE_NONE)
       \<or> (mpdutype = NORMAL_MPDU \<and> preamble \<noteq> WIFI_PREAMBLE_NONE)"
proof (rule ccontr)
  assume "\<not> ?thesis"
  then have "(mpdutype = NORMAL_MPDU \<and> preamble = WIFI_PREAMBLE_NONE)
              \<or> (mpdutype = LAST_MPDU_IN_AGGREGATE \<and> preamble \<noteq> WIFI_PREAMBLE_NONE)"
    by (cases mpdutype) auto
  from call_wrong_combination [OF sym this, of K phy sz f incFlag] ra show False by simp
qed

lemma Tsym_of_pos: "0 < Tsym_of tv"
  by (simp add: Tsym_of_def symbolDuration_OFDM_pos symbolDuration_HT_pos)

lemma divisor_nonneg: "0 \<le> divisor tv"
  unfolding divisor_def
  using numDataBitsPerSymbol_OFDM_nonneg [of tv] numDataBitsPerSymbol_HT_nonneg [of tv]
    m_Stbc_pos [of tv]
  by (auto intro!: dmul_nonneg)

lemma m_Stbc_nonneg: "0 \<le> m_Stbc tv"
  using m_Stbc_pos [of tv] by simp

lemmas symbol_intros = nonneg_intros numDataBitsPerSymbol_OFDM_nonneg
  numDataBitsPerSymbol_HT_nonneg m_Stbc_nonneg Nes_nonneg

lemma firstSymbols_nonneg: "0 \<le> firstSymbols tv sz"
proof (cases "legacy tv")
  case True
  have "0 \<le> ddiv (dadd (dadd 16 (dmul (to_double sz) 8)) 6) (numDataBitsPerSymbol_OFDM tv)"
    by (intro symbol_intros)
  then show ?thesis by (simp only: firstSymbols_def True if_True)
next
  case False
  have "0 \<le> ddiv (dmul (m_Stbc tv) (dadd (dadd 16 (dmul (to_double sz) 8)) (dmul 6 (Nes tv))))
             (dmul (m_Stbc tv) (numDataBitsPerSymbol_HT tv))"
    by (intro symbol_intros)
  then show ?thesis by (simp only: firstSymbols_def False if_False)
qed

lemma middleSymbols_nonneg: "0 \<le> middleSymbols tv sz"
proof (cases "legacy tv")
  case True
  have "0 \<le> ddiv (dmul (to_double sz) 8) (numDataBitsPerSymbol_OFDM tv)"
    by (intro symbol_intros)
  then show ?thesis by (simp only: middleSymbols_def True if_True)
next
  case False
  have "0 \<le> ddiv (dmul (dmul (m_Stbc tv) (to_double sz)) 8)
             (dmul (m_Stbc tv) (numDataBitsPerSymbol_HT tv))"
    by (intro symbol_intros)
  then show ?thesis by (simp only: middleSymbols_def False if_False)
qed

lemma wholeSymbols_nonneg: "0 \<le> wholeSymbols tv sz"
proof (cases "legacy tv")
  case True
  have "0 \<le> long_to_double (lrint (ceil
             (ddiv (dadd (dadd 16 (dmul (to_double sz) 8)) 6) (numDataBitsPerSymbol_OFDM tv))))"
    by (intro symbol_intros)
  then show ?thesis by (simp only: wholeSymbols_def True if_True)
next
  case False
  have "0 \<le> long_to_double (lrint (dmul (m_Stbc tv) (ceil
             (ddiv (dadd (dadd 16 (dmul (to_double sz) 8)) (dmul 6 (Nes tv)))
                (dmul (m_Stbc tv) (numDataBitsPerSymbol_HT tv))))))"
    by (intro symbol_intros)
  then show ?thesis by (simp only: wholeSymbols_def False if_False)
qed

subsection \<open>Payload size 0\<close>

lemma to_double_eq_0_iff [simp]: "to_double w = 0 \<longleftrightarrow> w = 0"
  by (simp add: to_double_def unsigned_eq_0_iff)

lemma to_double_0 [simp]: "to_double 0 = 0"
  by simp

lemma double_to_uint32_0 [simp]: "double_to_uint32 0 = Inr 0"
  by (simp add: double_to_uint32_def trunc_def)

lemma ceil_0 [simp]: "ceil 0 = 0"
  by (simp add: ceil_def)

lemma divisor_nonzero:
  assumes "legacy tv \<Longrightarrow> numDataBitsPerSymbol_OFDM tv \<noteq> 0"
    and "\<not> legacy tv \<Longrightarrow> numDataBitsPerSymbol_HT tv \<noteq> 0"
  shows "divisor tv \<noteq> 0"
proof (cases "legacy tv")
  case True
  then show ?thesis using assms(1) by (simp add: divisor_def)
next
  case False
  have "0 < m_Stbc tv * numDataBitsPerSymbol_HT tv"
    using m_Stbc_pos [of tv] numDataBitsPerSymbol_HT_nonneg [of tv] assms(2) [OF False] by simp
  then have "0 < dmul (m_Stbc tv) (numDataBitsPerSymbol_HT tv)"
    unfolding dmul_def by (rule round_double_pos)
  then show ?thesis using False by (simp add: divisor_def)
qed

lemma symbolic_size_zero:
  assumes sym: "symbolic tv"
    and combo: "mpdutype = MPDU_IN_AGGREGATE
             \<or> (mpdutype = LAST_MPDU_IN_AGGREGATE \<and> preamble = WIFI_PREAMBLE_NONE)
             \<or> (mpdutype = NORMAL_MPDU \<and> preamble \<noteq> WIFI_PREAMBLE_NONE)"
    and N: "divisor tv \<noteq> 0"
    and last: "mpdutype = LAST_MPDU_IN_AGGREGATE
             \<Longrightarrow> m_totalAmpduNumSymbols phy \<le> wholeSymbols tv (m_totalAmpduSize phy)"
  shows "\<exists>d phy'. GetPayloadDuration K phy 0 tv preamble f mpdutype incFlag = Inr (d, phy')"
proof (cases mpdutype)
  case NORMAL_MPDU
  then have "preamble \<noteq> WIFI_PREAMBLE_NONE" using combo by simp
  from call_normal [OF sym this N] NORMAL_MPDU show ?thesis by simp
next
  case MPDU_IN_AGGREGATE
  show ?thesis
  proof (cases "preamble = WIFI_PREAMBLE_NONE")
    case True
    with call_middle [OF sym N] MPDU_IN_AGGREGATE show ?thesis by simp
  next
    case False
    from call_first [OF sym False N] MPDU_IN_AGGREGATE show ?thesis by simp
  qed
next
  case LAST_MPDU_IN_AGGREGATE
  then have p: "preamble = WIFI_PREAMBLE_NONE" using combo by simp
  have "m_totalAmpduNumSymbols phy \<le> wholeSymbols tv (m_totalAmpduSize phy + 0)"
    using last [OF LAST_MPDU_IN_AGGREGATE] by simp
  from call_last [OF sym N this] LAST_MPDU_IN_AGGREGATE p show ?thesis by simp
qed

lemma GetPayloadDuration_DSSS_size_zero:
  assumes "GetDataRate m 22 False 1 \<noteq> 0"
  shows "\<exists>d. GetPayloadDuration_DSSS 0 m = Inr d"
  using assms by (simp add: GetPayloadDuration_DSSS_def)

lemma GetPayloadDuration_DMG_CTRL_size_zero:
  assumes "GetTrainngFieldLength txVector \<noteq> 0"
  shows "\<exists>d. GetPayloadDuration_DMG_CTRL 0 txVector = Inr d"
  using assms by (simp add: GetPayloadDuration_DMG_CTRL_def Ncw_DMG_CTRL_def ceil_def andThen_def)

lemma Ncbits_zero:
  assumes "GetCodeRate m \<in> {WIFI_CODE_RATE_1_4, WIFI_CODE_RATE_1_2, WIFI_CODE_RATE_13_16,
                             WIFI_CODE_RATE_3_4, WIFI_CODE_RATE_5_8}"
  shows "Ncbits m 0 = Inr 0"
  using assms by (auto simp: Ncbits_def)

lemma double_to_uint32_floor:
  assumes "0 \<le> x" and "x < 2 ^ 32"
  shows "\<exists>w. double_to_uint32 x = Inr w"
proof -
  have "\<lfloor>x\<rfloor> < 2 ^ 32" using assms(2) by (simp add: floor_less_iff)
  then show ?thesis using assms(1) by (simp add: double_to_uint32_def trunc_def)
qed

lemma trainingFloor_returns:
  assumes "GetTrainngFieldLength txVector \<noteq> 0 \<Longrightarrow> minimum < 2 ^ 32"
  shows "\<exists>w. trainingFloor txVector minimum tData = Inr w"
proof (cases "GetTrainngFieldLength txVector \<noteq> 0 \<and> to_double tData < minimum")
  case True
  then have "0 \<le> minimum" using to_double_nonneg [of tData] by linarith
  then show ?thesis using True assms double_to_uint32_floor [of minimum]
    by (auto simp: trainingFloor_def)
next
  case False
  then show ?thesis by (auto simp: trainingFloor_def)
qed

lemma GetPayloadDuration_DMG_SC_size_zero:
  assumes "GetConstellationSize (GetMode txVector) \<in> {2, 4, 16, 64, 256}"
    and "GetCodeRate (GetMode txVector) \<in> {WIFI_CODE_RATE_1_4, WIFI_CODE_RATE_1_2,
           WIFI_CODE_RATE_13_16, WIFI_CODE_RATE_3_4, WIFI_CODE_RATE_5_8}"
    and "GetTrainngFieldLength txVector \<noteq> 0 \<Longrightarrow> OFDMSCMin K < 2 ^ 32"
  shows "\<exists>d. GetPayloadDuration_DMG_SC K 0 txVector = Inr d"
proof -
  obtain b where b: "Ncbpb_SC (GetMode txVector) = Inr b"
    using assms(1) by (auto simp: Ncbpb_SC_def)
  obtain w where w: "trainingFloor txVector (OFDMSCMin K)
      (word_of_int (lrint (ceil ((to_double (0::uint32_t) * 512 + 64) / (176 / 100))))) = Inr w"
    using trainingFloor_returns [OF assms(3)] by blast
  show ?thesis using b w Ncbits_zero [OF assms(2)]
    by (simp add: GetPayloadDuration_DMG_SC_def andThen_def Let_def)
qed

lemma GetPayloadDuration_DMG_OFDM_size_zero:
  assumes "GetConstellationSize (GetMode txVector) \<in> {2, 4, 16, 64}"
    and "GetCodeRate (GetMode txVector) \<in> {WIFI_CODE_RATE_1_4, WIFI_CODE_RATE_1_2,
           WIFI_CODE_RATE_13_16, WIFI_CODE_RATE_3_4, WIFI_CODE_RATE_5_8}"
    and "GetTrainngFieldLength txVector \<noteq> 0 \<Longrightarrow> OFDMBRPMin K < 2 ^ 32"
  shows "\<exists>d. GetPayloadDuration_DMG_OFDM K 0 txVector = Inr d"
proof -
  obtain b where b: "Ncbps_OFDM (GetMode txVector) = Inr b"
    using assms(1) by (auto simp: Ncbps_OFDM_def)
  obtain w where w: "trainingFloor txVector (OFDMBRPMin K) 0 = Inr w"
    using trainingFloor_returns [OF assms(3)] by blast
  show ?thesis using b w Ncbits_zero [OF assms(2)]
    by (simp add: GetPayloadDuration_DMG_OFDM_def andThen_def Let_def)
qed

lemma Ncw_DMG_CTRL_small:
  assumes "unat sz \<le> 6"
  shows "Ncw_DMG_CTRL sz = Inr 1"
proof -
  have le6: "to_double sz \<le> 6" using assms by (simp add: to_double_def del: of_nat_unat)
  have "\<lceil>(to_double sz - 6) * 8 / 168\<rceil> = 0"
  proof (rule ceiling_unique)
    show "real_of_int 0 - 1 < (to_double sz - 6) * 8 / 168"
      using to_double_nonneg [of sz] by (simp del: to_double_nonneg)
    show "(to_double sz - 6) * 8 / 168 \<le> real_of_int 0"
      using le6 by simp
  qed
  then have "ceil ((to_double sz - 6) * 8 / 168) = 0" by (simp add: ceil_def)
  then show ?thesis by (simp add: Ncw_DMG_CTRL_def andThen_def)
qed

lemma Ldpcw_quotient_small:
  assumes "unat sz \<le> 6"
  shows "Ldpcw_quotient sz 1 = (if unat sz = 6 then NaN else MinusInfinity)"
proof -
  have "to_double sz = 6 \<longleftrightarrow> unat sz = 6" by (simp add: to_double_def del: of_nat_unat)
  moreover have "to_double sz \<le> 6" using assms by (simp add: to_double_def del: of_nat_unat)
  ultimately show ?thesis by (auto simp: Ldpcw_quotient_def divide_ieee_def)
qed

lemma dmg_ctrl_0: "GetPayloadDuration floors_80211ad WifiPhy_init 0 (txVector_of GetDMG_MCS0 2160)
     WIFI_PREAMBLE_LONG 60480 NORMAL_MPDU 0 = Inr (2440321455, WifiPhy_init)"
proof -
  have n: "Ncw_DMG_CTRL 0 = Inr 1" by (rule Ncw_DMG_CTRL_small) simp
  have q: "Ldpcw_quotient 0 1 = MinusInfinity" using Ldpcw_quotient_small [of 0] by simp
  have "GetPayloadDuration_DMG_CTRL 0 (txVector_of GetDMG_MCS0 2160) = Inr 2440321455"
    by (simp add: GetPayloadDuration_DMG_CTRL_def n q txVector_of_def andThen_def
        ieee_to_uint32_def ceil_ieee_def NanoSecondsD_def ceil_def to_double_def)
  then show ?thesis
    by (simp add: GetPayloadDuration_def unchanged_def txVector_of_def GetDMG_MCS0_def)
qed

text \<open>
  C1. The claim says that size 0 gives a well-defined duration for every class and that no
  division by zero arises, the DMG control branch included. In that branch, without a
  training field, the number of codewords at size 0 is 1 + ceil (-48 / 168) = 1, and the next
  line divides -48 by \<open>Ncw - 1 = 0\<close>: the quotient is minus infinity (for every size up to
  5; at size 6 it is 0 / 0, a NaN). The cast of it to \<open>uint32_t\<close> is undefined; with the
  zero that the conversion instruction leaves, the call of DMG MCS 0 goes on in wrapped
  32-bit arithmetic and returns 2440321455 ns for the empty payload.
\<close>

theorem C1_size_zero_counterexample:
  "Ncw_DMG_CTRL 0 = Inr 1
   \<and> to_double (1 - 1 :: uint32_t) = 0
   \<and> Ldpcw_quotient 0 1 = MinusInfinity
   \<and> GetPayloadDuration floors_80211ad WifiPhy_init 0 (txVector_of GetDMG_MCS0 2160)
        WIFI_PREAMBLE_LONG 60480 NORMAL_MPDU 0 = Inr (2440321455, WifiPhy_init)"
proof -
  have n: "Ncw_DMG_CTRL 0 = Inr 1" by (rule Ncw_DMG_CTRL_small) simp
  have q: "Ldpcw_quotient 0 1 = MinusInfinity" using Ldpcw_quotient_small [of 0] by simp
  show ?thesis using n q dmg_ctrl_0 by simp
qed

text \<open>
  C1, amended. With a payload of size 0, \<open>GetPayloadDuration\<close> returns a duration, the
  duration is not negative, and no divisor of the call is zero, for every modulation class
  except the DMG control class without a training field, provided the configuration is one
  the code supports: the class is known; for the OFDM, ERP-OFDM, HT and VHT classes the role
  and the preamble fit together, the mode's rate gives a non-zero number of data bits per
  symbol and, for the last MPDU of an aggregate, the assertion of the branch holds (the
  accumulated symbols do not exceed the symbol count of the accumulated bytes); for DSSS and
  HR-DSSS the rate is not zero; for the DMG SC and OFDM classes the constellation size and
  the code rate are among those the branch handles; and, when a training field is requested,
  the two floors fit in 32 bits. (In all these branches a zero divisor ends the call with an
  error, so a call that returns has met none.)
\<close>

theorem C1_size_zero_amended:
  assumes "GetModulationClass (GetMode txVector) \<noteq> WIFI_MOD_CLASS_UNKNOWN"
    and "GetModulationClass (GetMode txVector) = WIFI_MOD_CLASS_DMG_CTRL
         \<Longrightarrow> GetTrainngFieldLength txVector \<noteq> 0"
    and "symbolic txVector
         \<Longrightarrow> mpdutype = MPDU_IN_AGGREGATE
             \<or> (mpdutype = LAST_MPDU_IN_AGGREGATE \<and> preamble = WIFI_PREAMBLE_NONE)
             \<or> (mpdutype = NORMAL_MPDU \<and> preamble \<noteq> WIFI_PREAMBLE_NONE)"
    and "symbolic txVector \<Longrightarrow> mpdutype = LAST_MPDU_IN_AGGREGATE
         \<Longrightarrow> m_totalAmpduNumSymbols phy \<le> wholeSymbols txVector (m_totalAmpduSize phy)"
    and "GetModulationClass (GetMode txVector) \<in> {WIFI_MOD_CLASS_OFDM, WIFI_MOD_CLASS_ERP_OFDM}
         \<Longrightarrow> numDataBitsPerSymbol_OFDM txVector \<noteq> 0"
    and "GetModulationClass (GetMode txVector) \<in> {WIFI_MOD_CLASS_HT, WIFI_MOD_CLASS_VHT}
         \<Longrightarrow> numDataBitsPerSymbol_HT txVector \<noteq> 0"
    and "GetModulationClass (GetMode txVector) \<in> {WIFI_MOD_CLASS_DSSS, WIFI_MOD_CLASS_HR_DSSS}
         \<Longrightarrow> GetDataRate (GetMode txVector) 22 False 1 \<noteq> 0"
    and "GetModulationClass (GetMode txVector) = WIFI_MOD_CLASS_DMG_SC
         \<Longrightarrow> GetConstellationSize (GetMode txVector) \<in> {2, 4, 16, 64, 256}"
    and "GetModulationClass (GetMode txVector) = WIFI_MOD_CLASS_DMG_OFDM
         \<Longrightarrow> GetConstellationSize (GetMode txVector) \<in> {2, 4, 16, 64}"
    and "GetModulationClass (GetMode txVector) \<in> {WIFI_MOD_CLASS_DMG_SC, WIFI_MOD_CLASS_DMG_OFDM}
         \<Longrightarrow> GetCodeRate (GetMode txVector) \<in> {WIFI_CODE_RATE_1_4, WIFI_CODE_RATE_1_2,
               WIFI_CODE_RATE_13_16, WIFI_CODE_RATE_3_4, WIFI_CODE_RATE_5_8}"
    and "GetTrainngFieldLength txVector \<noteq> 0
         \<Longrightarrow> OFDMSCMin K < 2 ^ 32 \<and> OFDMBRPMin K < 2 ^ 32"
  shows "\<exists>d phy'. GetPayloadDuration K phy 0 txVector preamble frequency mpdutype incFlag
                     = Inr (d, phy') \<and> 0 \<le> d"
proof -
  have four: "\<exists>d phy'. GetPayloadDuration K phy 0 txVector preamble frequency mpdutype incFlag
                     = Inr (d, phy')"
    if sym: "symbolic txVector"
  proof -
    have "divisor txVector \<noteq> 0"
    proof (rule divisor_nonzero)
      assume "legacy txVector"
      then show "numDataBitsPerSymbol_OFDM txVector \<noteq> 0"
        using assms(5) by (simp add: legacy_def)
    next
      assume "\<not> legacy txVector"
      then have "GetModulationClass (GetMode txVector) \<in> {WIFI_MOD_CLASS_HT, WIFI_MOD_CLASS_VHT}"
        using sym by (auto simp: legacy_def symbolic_def)
      then show "numDataBitsPerSymbol_HT txVector \<noteq> 0" by (rule assms(6))
    qed
    from symbolic_size_zero [OF sym assms(3) [OF sym] this assms(4) [OF sym]]
    show ?thesis by blast
  qed
  have "\<exists>d phy'. GetPayloadDuration K phy 0 txVector preamble frequency mpdutype incFlag
                     = Inr (d, phy')"
  proof (cases "GetModulationClass (GetMode txVector)")
    case WIFI_MOD_CLASS_UNKNOWN
    with assms(1) show ?thesis by simp
  next
    case WIFI_MOD_CLASS_DSSS
    with GetPayloadDuration_DSSS_size_zero [of "GetMode txVector"] assms(7) show ?thesis
      by (auto simp: GetPayloadDuration_def unchanged_def)
  next
    case WIFI_MOD_CLASS_HR_DSSS
    with GetPayloadDuration_DSSS_size_zero [of "GetMode txVector"] assms(7) show ?thesis
      by (auto simp: GetPayloadDuration_def unchanged_def)
  next
    case WIFI_MOD_CLASS_ERP_OFDM
    then show ?thesis by (intro four) (simp add: symbolic_def)
  next
    case WIFI_MOD_CLASS_OFDM
    then show ?thesis by (intro four) (simp add: symbolic_def)
  next
    case WIFI_MOD_CLASS_HT
    then show ?thesis by (intro four) (simp add: symbolic_def)
  next
    case WIFI_MOD_CLASS_VHT
    then show ?thesis by (intro four) (simp add: symbolic_def)
  next
    case WIFI_MOD_CLASS_DMG_CTRL
    with GetPayloadDuration_DMG_CTRL_size_zero [of txVector] assms(2) show ?thesis
      by (auto simp: GetPayloadDuration_def unchanged_def)
  next
    case WIFI_MOD_CLASS_DMG_OFDM
    with GetPayloadDuration_DMG_OFDM_size_zero [of txVector K] assms(9,10,11) show ?thesis
      by (auto simp: GetPayloadDuration_def unchanged_def)
  next
    case WIFI_MOD_CLASS_DMG_SC
    with GetPayloadDuration_DMG_SC_size_zero [of txVector K] assms(8,10,11) show ?thesis
      by (auto simp: GetPayloadDuration_def unchanged_def)
  next
    case WIFI_MOD_CLASS_DMG_LP_SC
    then show ?thesis by (simp add: GetPayloadDuration_def)
  qed
  then show ?thesis using GetPayloadDuration_nonneg by blast
qed

theorem C1_size_zero_amended_witness:
  "\<exists>d phy'. GetPayloadDuration floors_80211ad WifiPhy_init 0
      ((txVector_of GetDMG_MCS0 2160)\<lparr>GetTrainngFieldLength := 1\<rparr>)
      WIFI_PREAMBLE_LONG 60480 NORMAL_MPDU 0 = Inr (d, phy') \<and> 0 \<le> d"
  by (rule C1_size_zero_amended)
     (simp_all add: txVector_of_def GetDMG_MCS0_def floors_80211ad_def)

subsection \<open>The 6 microsecond signal extension of HT and VHT\<close>

lemma round_double_4011_13: "round_double (4011 / 13) = 2713933008621253 / 8796093022208"
  by (subst round_double_eval [where k = 8]) (simp_all add: rhe_def)

lemma vht_24: "GetPayloadDuration floors_80211ad WifiPhy_init 1000 (txVector_of GetVhtMcs0 20)
     WIFI_PREAMBLE_VHT 2412 NORMAL_MPDU 0 = Inr (1236000, WifiPhy_init)"
  by (simp add: GetPayloadDuration_def GetPayloadDuration_HT_def numSymbols_HT_def
      numDataBitsPerSymbol_HT_def symbolDuration_HT_def m_Stbc_def Nes_def txVector_of_def GetVhtMcs0_def
      conv_defs double_defs round_double_4011_13)

lemma vht_24n: "numSymbols_HT WifiPhy_init 1000 WIFI_PREAMBLE_VHT NORMAL_MPDU 0 (m_Stbc (txVector_of GetVhtMcs0 20)) (Nes (txVector_of GetVhtMcs0 20))
   (numDataBitsPerSymbol_HT (txVector_of GetVhtMcs0 20)) = Inr (309, WifiPhy_init)"
  by (simp add:  numSymbols_HT_def
      numDataBitsPerSymbol_HT_def symbolDuration_HT_def m_Stbc_def Nes_def txVector_of_def GetVhtMcs0_def
      conv_defs double_defs round_double_4011_13)

lemma ht_24: "GetPayloadDuration floors_80211ad WifiPhy_init 1000 (txVector_of GetHtMcs0 20)
     WIFI_PREAMBLE_HT_MF 2412 NORMAL_MPDU 0 = Inr (1242000, WifiPhy_init)"
  by (simp add: GetPayloadDuration_def GetPayloadDuration_HT_def numSymbols_HT_def
      numDataBitsPerSymbol_HT_def symbolDuration_HT_def m_Stbc_def Nes_def txVector_of_def GetHtMcs0_def
      conv_defs double_defs round_double_4011_13)

text \<open>
  C6. The claim says that the HT and the VHT class both add 6 microseconds when the frequency
  is in the 2.4 GHz band and the frame ends the transmission. The condition of the code names
  \<open>WIFI_MOD_CLASS_HT\<close> only: a normal MPDU of 1000 bytes sent at VHT MCS 0 on 2412 MHz
  lasts 309 symbols of 4 microseconds, with nothing added.
\<close>

theorem C6_vht_counterexample:
  "GetModulationClass (GetMode (txVector_of GetVhtMcs0 20)) = WIFI_MOD_CLASS_VHT
   \<and> numSymbols_HT WifiPhy_init 1000 WIFI_PREAMBLE_VHT NORMAL_MPDU 0
        (m_Stbc (txVector_of GetVhtMcs0 20)) (Nes (txVector_of GetVhtMcs0 20))
        (numDataBitsPerSymbol_HT (txVector_of GetVhtMcs0 20)) = Inr (309, WifiPhy_init)
   \<and> GetPayloadDuration floors_80211ad WifiPhy_init 1000 (txVector_of GetVhtMcs0 20)
        WIFI_PREAMBLE_VHT 2412 NORMAL_MPDU 0 = Inr (309 * MicroSeconds 4, WifiPhy_init)
   \<and> 309 * MicroSeconds 4 \<noteq> 309 * MicroSeconds 4 + MicroSeconds 6"
  using vht_24 vht_24n by (simp add: MicroSeconds_def txVector_of_def GetVhtMcs0_def)

text \<open>
  C6, amended. For the HT and VHT classes, a call that returns gives the symbol count times
  the symbol duration (the product of doubles, with the fraction of a nanosecond dropped),
  plus 6 microseconds exactly
  when the class is HT, the frequency lies between 2400 and 2500 MHz and the frame ends the
  transmission; the VHT class never adds them. Among the calls that return, the frame ends
  the transmission (normal MPDU with a preamble, or last MPDU of an aggregate without one)
  exactly when its role is not \<open>MPDU_IN_AGGREGATE\<close>.
\<close>

theorem C6_amended:
  assumes "GetModulationClass (GetMode txVector) = WIFI_MOD_CLASS_HT
         \<or> GetModulationClass (GetMode txVector) = WIFI_MOD_CLASS_VHT"
    and "GetPayloadDuration K phy sz txVector preamble frequency mpdutype incFlag = Inr (d, phy')"
  shows "\<exists>numSymbols.
           numSymbols_HT phy sz preamble mpdutype incFlag (m_Stbc txVector) (Nes txVector)
             (numDataBitsPerSymbol_HT txVector) = Inr (numSymbols, phy')
         \<and> d = NanoSecondsD (dmul numSymbols (of_int (symbolDuration_HT txVector)))
               + (if GetModulationClass (GetMode txVector) = WIFI_MOD_CLASS_HT
                     \<and> 2400 \<le> frequency \<and> frequency \<le> 2500
                     \<and> mpdutype \<noteq> MPDU_IN_AGGREGATE
                  then MicroSeconds 6 else 0)
         \<and> (mpdutype \<noteq> MPDU_IN_AGGREGATE \<longleftrightarrow>
              (mpdutype = NORMAL_MPDU \<and> preamble \<noteq> WIFI_PREAMBLE_NONE)
              \<or> (mpdutype = LAST_MPDU_IN_AGGREGATE \<and> preamble = WIFI_PREAMBLE_NONE))"
proof -
  obtain n where n: "numSymbols_HT phy sz preamble mpdutype incFlag (m_Stbc txVector) (Nes txVector)
             (numDataBitsPerSymbol_HT txVector) = Inr (n, phy')"
    using assms by (auto simp: GetPayloadDuration_def GetPayloadDuration_HT_def Let_def split: sum.splits if_splits)
  have combo: "(mpdutype \<noteq> MPDU_IN_AGGREGATE \<longleftrightarrow>
              (mpdutype = NORMAL_MPDU \<and> preamble \<noteq> WIFI_PREAMBLE_NONE)
              \<or> (mpdutype = LAST_MPDU_IN_AGGREGATE \<and> preamble = WIFI_PREAMBLE_NONE))"
    using n by (cases mpdutype) (auto simp: numSymbols_HT_def Let_def split: if_splits)
  have "d = NanoSecondsD (dmul n (of_int (symbolDuration_HT txVector)))
               + (if GetModulationClass (GetMode txVector) = WIFI_MOD_CLASS_HT
                     \<and> 2400 \<le> frequency \<and> frequency \<le> 2500
                     \<and> mpdutype \<noteq> MPDU_IN_AGGREGATE
                  then MicroSeconds 6 else 0)"
    using assms n combo by (auto simp: GetPayloadDuration_def GetPayloadDuration_HT_def Let_def split: if_splits)
  with n combo show ?thesis by blast
qed

theorem C6_amended_witness:
  "\<exists>numSymbols.
     numSymbols_HT WifiPhy_init 1000 WIFI_PREAMBLE_HT_MF NORMAL_MPDU 0
       (m_Stbc (txVector_of GetHtMcs0 20)) (Nes (txVector_of GetHtMcs0 20))
       (numDataBitsPerSymbol_HT (txVector_of GetHtMcs0 20)) = Inr (numSymbols, WifiPhy_init)
     \<and> (1242000::int) = NanoSecondsD (dmul numSymbols (of_int (symbolDuration_HT (txVector_of GetHtMcs0 20))))
          + MicroSeconds 6"
  using C6_amended [OF _ ht_24] by (simp add: txVector_of_def GetHtMcs0_def)

section \<open>Properties of the element container\<close>

subsection \<open>Traversal order of the map\<close>

lemma set_all_ids: "set all_ids = UNIV"
proof -
  have "k \<in> set all_ids" for k :: uint8_t
  proof -
    have "unat k < 256" using unsigned_less [of k, where 'a = nat] by simp
    moreover have "of_nat (unat k) = k" by simp
    ultimately show ?thesis unfolding all_ids_def
      by (metis atLeastLessThan_iff imageI le0 set_map set_upt)
  qed
  then show ?thesis by auto
qed

lemma distinct_all_ids: "distinct all_ids"
proof -
  have "inj_on (of_nat :: nat \<Rightarrow> uint8_t) {0..<256}"
  proof (rule inj_onI)
    fix a b :: nat
    assume a: "a \<in> {0..<256}" and b: "b \<in> {0..<256}"
      and eq: "(of_nat a :: uint8_t) = of_nat b"
    have "unat (of_nat a :: uint8_t) = a"
      by (rule of_nat_inverse [OF refl]) (use a in simp)
    moreover have "unat (of_nat b :: uint8_t) = b"
      by (rule of_nat_inverse [OF refl]) (use b in simp)
    ultimately show "a = b" using eq by metis
  qed
  then show ?thesis unfolding all_ids_def distinct_map
    by (simp only: distinct_upt set_upt simp_thms)
qed

lemma sorted_all_ids: "sorted_wrt (<) all_ids"
proof -
  have "(of_nat a :: uint8_t) < of_nat b" if "a < b" "b < 256" for a b :: nat
  proof -
    have "unat (of_nat a :: uint8_t) = a"
      by (rule of_nat_inverse [OF refl]) (use that in simp)
    moreover have "unat (of_nat b :: uint8_t) = b"
      by (rule of_nat_inverse [OF refl]) (use that in simp)
    ultimately show ?thesis using that by (simp add: word_less_nat_alt)
  qed
  then have "\<forall>i j. i < j \<longrightarrow> j < length [0..<256::nat]
      \<longrightarrow> (of_nat ([0..<256] ! i) :: uint8_t) < of_nat ([0..<256] ! j)"
    by (simp only: length_upt nth_upt) auto
  then show ?thesis unfolding all_ids_def sorted_wrt_map
    by (simp only: sorted_wrt_iff_nth_less)
qed

lemma map_fst_map_filter:
  "map fst (List.map_filter (\<lambda>k. map_option (Pair k) (m k)) xs) = filter (\<lambda>k. m k \<noteq> None) xs"
  by (induction xs) (auto split: option.splits)

lemma set_map_filter_pairs:
  "set (List.map_filter (\<lambda>k. map_option (Pair k) (m k)) xs) = {(k, p). k \<in> set xs \<and> m k = Some p}"
  by (induction xs) (auto split: option.splits)

lemma map_fst_entries: "map fst (entries m) = filter (\<lambda>k. m k \<noteq> None) all_ids"
  by (simp add: entries_def map_fst_map_filter)

lemma set_entries: "set (entries m) = {(k, p). m k = Some p}"
  by (simp add: entries_def set_map_filter_pairs set_all_ids)

lemma distinct_keys_entries: "distinct (map fst (entries m))"
  by (simp add: map_fst_entries distinct_all_ids)

lemma sorted_keys_entries: "sorted_wrt (<) (map fst (entries m))"
  by (simp add: map_fst_entries sorted_wrt_filter sorted_all_ids)

lemma length_entries: "length (entries m) = card (dom m)"
proof -
  have "set (map fst (entries m)) = dom m"
    using set_all_ids by (auto simp: map_fst_entries)
  then show ?thesis
    using distinct_card [OF distinct_keys_entries, of m] by simp
qed

lemma sizeLoop_Null:
  "(k, Null) \<in> set es \<Longrightarrow> sizeLoop s es sz = Inl NullPointerDereference"
  by (induction s es sz rule: sizeLoop.induct) auto

lemma serializeLoop_Null:
  "(k, Null) \<in> set es \<Longrightarrow> serializeLoop IE s es i = Inl NullPointerDereference"
  by (induction IE s es i rule: serializeLoop.induct) auto

lemma entries_empty: "entries Map.empty = []"
  by (simp add: entries_def List.map_filter_def)

subsection \<open>Looking up an absent id\<close>

text \<open>
  C10. For a frame and an id that is not a key of its map, \<open>GetInformationElement\<close>
  returns the null pointer and leaves a null entry under that id in the map: the map has one
  entry more than before, the traversal of the map meets the entry (id, null), and
  \<open>GetInformationElementsSerializedSize\<close> and \<open>SerializeInformationElements\<close>, which
  call a member function through every entry, dereference a null pointer.
\<close>

theorem C10_lookup_inserts_null:
  assumes "m_map s elementId = None"
  shows "\<exists>s'. GetInformationElement s elementId = (Null, s')
           \<and> m_map s' = (m_map s)(elementId \<mapsto> Null)
           \<and> card (dom (m_map s')) = card (dom (m_map s)) + 1
           \<and> length (entries (m_map s')) = length (entries (m_map s)) + 1
           \<and> (elementId, Null) \<in> set (entries (m_map s'))
           \<and> GetInformationElementsSerializedSize s' = Inl NullPointerDereference
           \<and> SerializeInformationElements IE s' start = Inl NullPointerDereference"
proof -
  define s' where "s' = s\<lparr>m_map := (m_map s)(elementId \<mapsto> Null)\<rparr>"
  have get: "GetInformationElement s elementId = (Null, s')"
    using assms by (simp add: GetInformationElement_def s'_def)
  have m: "m_map s' = (m_map s)(elementId \<mapsto> Null)" by (simp add: s'_def)
  have "elementId \<notin> dom (m_map s)" using assms by (simp add: domIff)
  then have c: "card (dom (m_map s')) = card (dom (m_map s)) + 1"
    by (simp add: m)
  have e: "(elementId, Null) \<in> set (entries (m_map s'))"
    by (simp add: set_entries m)
  show ?thesis
    using get m c e sizeLoop_Null [OF e] serializeLoop_Null [OF e]
    by (simp add: length_entries GetInformationElementsSerializedSize_def
        SerializeInformationElements_def)
qed

theorem C10_lookup_inserts_null_witness:
  "m_map MgtFrame_empty 45 = None
   \<and> (\<exists>s'. GetInformationElement MgtFrame_empty 45 = (Null, s')
         \<and> length (entries (m_map s')) = 1
         \<and> GetInformationElementsSerializedSize s' = Inl NullPointerDereference
         \<and> SerializeInformationElements ids_80211 s' [] = Inl NullPointerDereference)"
proof -
  have n: "m_map MgtFrame_empty 45 = None" by (simp add: MgtFrame_empty_def)
  have "entries (m_map MgtFrame_empty) = []" by (simp add: MgtFrame_empty_def entries_empty)
  then show ?thesis
    using C10_lookup_inserts_null [OF n, of ids_80211 "[]"] n by auto
qed

subsection \<open>Serializing and parsing back\<close>

lemma switchCreate_Some: "switchCreate IE k = Some c \<Longrightarrow> IE c = k"
  by (auto simp: switchCreate_def split: if_splits)

lemma unat_length_byte: "length b < 256 \<Longrightarrow> unat (of_nat (length b) :: uint8_t) = length b"
  by (rule of_nat_inverse [OF refl]) simp

lemma deserializeStep_record:
  assumes c: "switchCreate IE k = Some c" and b: "length b < 256"
  shows "deserializeStep IE r el (wire (k, b) @ rest) =
           Inr (rest,
                r\<lparr>objects := (objects r)(allocated r := \<lparr>elementClass = c, informationField = b\<rparr>),
                  allocated := Suc (allocated r),
                  m_map := (m_map r)(k \<mapsto> Ref (allocated r))\<rparr>,
                Ref (allocated r))"
  using c unat_length_byte [OF b]
  by (simp add: deserializeStep_def wire_def DeserializeElementID_def DeserializeElementBody_def
      andThen_def Create_def)

lemma contents_after_record:
  assumes "fresh r" and c: "switchCreate IE k = Some c"
  shows "contents IE (r\<lparr>objects := (objects r)(allocated r := \<lparr>elementClass = c, informationField = b\<rparr>),
                  allocated := Suc (allocated r),
                  m_map := (m_map r)(k \<mapsto> Ref (allocated r))\<rparr>)
         = (contents IE r)(k \<mapsto> Some (k, b))"
proof
  fix k'
  show "contents IE (r\<lparr>objects := (objects r)(allocated r := \<lparr>elementClass = c, informationField = b\<rparr>),
                  allocated := Suc (allocated r),
                  m_map := (m_map r)(k \<mapsto> Ref (allocated r))\<rparr>) k'
         = ((contents IE r)(k \<mapsto> Some (k, b))) k'"
  proof (cases "k' = k")
    case True
    then show ?thesis using switchCreate_Some [OF c] by (simp add: contents_def ElementId_def)
  next
    case False
    show ?thesis
    proof (cases "m_map r k'")
      case None
      with False show ?thesis by (simp add: contents_def)
    next
      case (Some p)
      show ?thesis
      proof (cases p)
        case Null
        with Some False show ?thesis by (simp add: contents_def)
      next
        case (Ref a)
        with Some assms(1) have "a < allocated r" by (auto simp: fresh_def)
        with Some Ref False show ?thesis by (simp add: contents_def)
      qed
    qed
  qed
qed

lemma fresh_after_record:
  assumes "fresh r"
  shows "fresh (r\<lparr>objects := ob, allocated := Suc (allocated r),
                  m_map := (m_map r)(k \<mapsto> Ref (allocated r))\<rparr>)"
  using assms by (auto simp: fresh_def less_Suc_eq)

lemma deserializeLoop_records:
  assumes "\<forall>kb \<in> set ps. switchCreate IE (fst kb) \<noteq> None \<and> length (snd kb) < 256"
    and "fresh r"
  shows "\<exists>r' el'. deserializeLoop IE r el (concat (map wire ps) @ rest) = deserializeLoop IE r' el' rest
           \<and> fresh r'
           \<and> contents IE r' = fold store_pair ps (contents IE r)"
  using assms
proof (induction ps arbitrary: r el)
  case Nil
  then show ?case by auto
next
  case (Cons kb ps)
  obtain k b where kb: "kb = (k, b)" by (cases kb)
  from Cons.prems(1) kb obtain c where c: "switchCreate IE k = Some c" and b: "length b < 256"
    by auto
  let ?r1 = "r\<lparr>objects := (objects r)(allocated r := \<lparr>elementClass = c, informationField = b\<rparr>),
                  allocated := Suc (allocated r),
                  m_map := (m_map r)(k \<mapsto> Ref (allocated r))\<rparr>"
  have step: "deserializeLoop IE r el (concat (map wire (kb # ps)) @ rest)
               = deserializeLoop IE ?r1 (Ref (allocated r)) (concat (map wire ps) @ rest)"
    using deserializeStep_record [OF c b, of r el "concat (map wire ps) @ rest"]
    by (subst deserializeLoop.simps) (simp add: kb wire_def)
  have f1: "fresh ?r1" using fresh_after_record [OF Cons.prems(2)] .
  have ps_ok: "\<forall>kb \<in> set ps. switchCreate IE (fst kb) \<noteq> None \<and> length (snd kb) < 256"
    using Cons.prems(1) by simp
  from Cons.IH [OF ps_ok f1, of "Ref (allocated r)"]
  obtain r' el' where r':
    "deserializeLoop IE ?r1 (Ref (allocated r)) (concat (map wire ps) @ rest) = deserializeLoop IE r' el' rest"
    "fresh r'" "contents IE r' = fold store_pair ps (contents IE ?r1)"
    by blast
  have "contents IE ?r1 = store_pair kb (contents IE r)"
    using contents_after_record [OF Cons.prems(2) c, of b] by (simp add: kb store_pair_def)
  then have "contents IE r' = fold store_pair (kb # ps) (contents IE r)"
    using r'(3) by simp
  with step r'(1,2) show ?case by metis
qed

lemma fold_store_pair_other:
  "k \<notin> fst ` set ps \<Longrightarrow> fold store_pair ps c k = c k"
  by (induction ps arbitrary: c) (auto simp: store_pair_def)

lemma fold_store_pair_member:
  "distinct (map fst ps) \<Longrightarrow> (k, b) \<in> set ps \<Longrightarrow> fold store_pair ps c k = Some (Some (k, b))"
proof (induction ps arbitrary: c)
  case Nil
  then show ?case by simp
next
  case (Cons kb ps)
  show ?case
  proof (cases "kb = (k, b)")
    case True
    then have "k \<notin> fst ` set ps" using Cons.prems(1) by auto
    then have "fold store_pair ps (store_pair kb c) k = store_pair kb c k"
      by (rule fold_store_pair_other)
    moreover have "store_pair kb c k = Some (Some (k, b))"
      using True by (simp add: store_pair_def)
    ultimately show ?thesis by simp
  next
    case False
    then have "(k, b) \<in> set ps" using Cons.prems(2) by simp
    moreover have "distinct (map fst ps)" using Cons.prems(1) by simp
    ultimately show ?thesis using Cons.IH by simp
  qed
qed

lemma serializeLoop_registered:
  assumes "\<forall>kp \<in> set es. \<exists>a. snd kp = Ref a \<and> ElementId IE (objects s a) = fst kp"
  shows "serializeLoop IE s es i =
           Inr (i @ concat (map (\<lambda>kp. wire (fst kp, case snd kp of Ref a \<Rightarrow> informationField (objects s a) | Null \<Rightarrow> [])) es))"
  using assms
proof (induction IE s es i rule: serializeLoop.induct)
  case (1 IE s i)
  then show ?case by simp
next
  case (2 IE s k es i)
  then show ?case by simp
next
  case (3 IE s k a es i)
  then show ?case by (simp add: Serialize_def wire_def GetInformationFieldSize_def)
qed

text \<open>
  C9. Take a frame in which every entry of the map points to an element stored under its own
  id, whose id has a case in the deserializer's switch and whose body has fewer than 256
  bytes. Serializing it succeeds, and deserializing the bytes into a frame with an empty map
  consumes them all and yields a frame that holds, under every key, the same (id, body) pair
  as the original, and under no other key anything; so the two frames hold the same set of
  (id, body) pairs, byte for byte.
\<close>

theorem C9_round_trip:
  assumes reg: "registered IE s" and empty: "m_map r = Map.empty"
  shows "\<exists>bytes r'. SerializeInformationElements IE s [] = Inr bytes
           \<and> DeserializeInformationElements IE r bytes = Inr ([], r')
           \<and> contents IE r' = contents IE s
           \<and> pairs IE r' = pairs IE s"
proof -
  define es where "es = entries (m_map s)"
  define ps where "ps = map (\<lambda>kp. (fst kp, body_of s (snd kp))) es"
  have es_set: "(k, p) \<in> set es \<longleftrightarrow> m_map s k = Some p" for k p
    by (simp add: es_def set_entries)
  have es_ok: "\<forall>kp \<in> set es. \<exists>a. snd kp = Ref a \<and> ElementId IE (objects s a) = fst kp"
  proof
    fix kp assume "kp \<in> set es"
    then have "m_map s (fst kp) = Some (snd kp)" using es_set [of "fst kp" "snd kp"] by simp
    with reg show "\<exists>a. snd kp = Ref a \<and> ElementId IE (objects s a) = fst kp"
      unfolding registered_def by blast
  qed
  have ser: "SerializeInformationElements IE s [] = Inr (concat (map wire ps))"
    using serializeLoop_registered [OF es_ok, of "[]"]
    by (simp add: SerializeInformationElements_def es_def ps_def body_of_def comp_def)
  have ps_ok: "\<forall>kb \<in> set ps. switchCreate IE (fst kb) \<noteq> None \<and> length (snd kb) < 256"
  proof
    fix kb assume "kb \<in> set ps"
    then obtain kp where kp: "kp \<in> set es" and kb: "kb = (fst kp, body_of s (snd kp))"
      by (auto simp: ps_def)
    from kp have "m_map s (fst kp) = Some (snd kp)" using es_set [of "fst kp" "snd kp"] by simp
    with reg obtain a where "snd kp = Ref a" "switchCreate IE (fst kp) \<noteq> None"
      "length (informationField (objects s a)) < 256"
      unfolding registered_def by blast
    then show "switchCreate IE (fst kb) \<noteq> None \<and> length (snd kb) < 256"
      by (simp add: kb body_of_def)
  qed
  have fr: "fresh r" by (simp add: fresh_def empty)
  obtain r' el' where loop: "deserializeLoop IE r Null (concat (map wire ps) @ []) = deserializeLoop IE r' el' []"
    and c': "contents IE r' = fold store_pair ps (contents IE r)"
    using deserializeLoop_records [OF ps_ok fr, of Null "[]"] by blast
  have des: "DeserializeInformationElements IE r (concat (map wire ps)) = Inr ([], r')"
    using loop by (simp add: DeserializeInformationElements_def deserializeLoop.simps [of _ _ _ "[]"])
  have keys: "map fst ps = map fst es" by (simp add: ps_def comp_def)
  have dist: "distinct (map fst ps)" by (simp add: keys es_def distinct_keys_entries)
  have "contents IE r' k = contents IE s k" for k
  proof (cases "m_map s k")
    case None
    then have "k \<notin> fst ` set es" using es_set by force
    then have "k \<notin> fst ` set ps" using keys by (metis set_map)
    then have "fold store_pair ps (contents IE r) k = contents IE r k"
      by (rule fold_store_pair_other)
    then show ?thesis using None by (simp add: c' contents_def empty)
  next
    case (Some p)
    with reg obtain a where a: "p = Ref a" "ElementId IE (objects s a) = k"
      unfolding registered_def by blast
    from Some have "(k, p) \<in> set es" by (simp add: es_set)
    then have "(k, body_of s p) \<in> set ps" by (force simp: ps_def)
    then have "fold store_pair ps (contents IE r) k = Some (Some (k, body_of s p))"
      using fold_store_pair_member [OF dist] by blast
    then show ?thesis using Some a by (simp add: c' contents_def body_of_def)
  qed
  then have eq: "contents IE r' = contents IE s" by (rule ext)
  then have "pairs IE r' = pairs IE s" by (simp add: pairs_def)
  with ser des eq show ?thesis by blast
qed

lemma registered_example: "registered ids_80211 MgtFrame_example"
  by (auto simp: registered_def MgtFrame_example_def ElementId_def switchCreate_def split: if_splits)

theorem C9_round_trip_witness:
  "registered ids_80211 MgtFrame_example \<and> m_map MgtFrame_empty = Map.empty
   \<and> (\<exists>bytes r'. SerializeInformationElements ids_80211 MgtFrame_example [] = Inr bytes
         \<and> DeserializeInformationElements ids_80211 MgtFrame_empty bytes = Inr ([], r')
         \<and> contents ids_80211 r' = contents ids_80211 MgtFrame_example
         \<and> pairs ids_80211 r' = pairs ids_80211 MgtFrame_example)"
proof -
  have e: "m_map MgtFrame_empty = Map.empty" by (simp add: MgtFrame_empty_def)
  show ?thesis using C9_round_trip [OF registered_example e] registered_example e by simp
qed

section \<open>Monotonicity of the payload duration in the payload size\<close>

subsection \<open>OFDM, ERP-OFDM, HT, VHT and DSSS\<close>

lemma to_double_mono: "a \<le> b \<Longrightarrow> to_double a \<le> to_double b"
  by (simp add: to_double_def word_le_nat_alt del: of_nat_unat)

lemma to_double_unat: "to_double w = real (unat w)"
  by (simp add: to_double_def)

lemma NanoSecondsD_mono: "x \<le> y \<Longrightarrow> NanoSecondsD x \<le> NanoSecondsD y"
  by (simp add: NanoSecondsD_def floor_mono)

lemma ceil_mono: "x \<le> y \<Longrightarrow> ceil x \<le> ceil y"
  by (simp add: ceil_def ceiling_mono)

lemma lrint_mono: "x \<le> y \<Longrightarrow> lrint x \<le> lrint y"
  by (simp add: lrint_def rhe_mono)

lemma dadd_mono: "0 \<le> a \<Longrightarrow> 0 \<le> c \<Longrightarrow> a \<le> b \<Longrightarrow> c \<le> d \<Longrightarrow> dadd a c \<le> dadd b d"
  unfolding dadd_def by (rule round_double_mono) simp_all

lemma dmul_mono: "0 \<le> a \<Longrightarrow> 0 \<le> c \<Longrightarrow> a \<le> b \<Longrightarrow> c \<le> d \<Longrightarrow> dmul a c \<le> dmul b d"
  unfolding dmul_def by (rule round_double_mono) (simp_all add: mult_mono)

lemma ddiv_mono: "0 \<le> a \<Longrightarrow> a \<le> b \<Longrightarrow> 0 \<le> y \<Longrightarrow> ddiv a y \<le> ddiv b y"
  unfolding ddiv_def by (rule round_double_mono) (simp_all add: divide_right_mono)

lemma dsub_mono: "c \<le> a \<Longrightarrow> a \<le> b \<Longrightarrow> dsub a c \<le> dsub b c"
  unfolding dsub_def by (rule round_double_mono) simp_all

lemma long_to_double_mono: "0 \<le> k \<Longrightarrow> k \<le> l \<Longrightarrow> long_to_double k \<le> long_to_double l"
  unfolding long_to_double_def by (rule round_double_mono) simp_all

lemma word_add_mono_right:
  fixes B a b :: uint32_t
  assumes "a \<le> b" and "unat B + unat b < 2 ^ 32"
  shows "B + a \<le> B + b"
proof -
  have "unat a \<le> unat b" using assms(1) by (simp add: word_le_nat_alt)
  then have "unat (B + a) = unat B + unat a" "unat (B + b) = unat B + unat b"
    using assms(2) by (simp_all add: unat_add_lem [THEN iffD1])
  then show ?thesis using \<open>unat a \<le> unat b\<close> by (simp add: word_le_nat_alt)
qed

lemmas mono_intros = dadd_mono dmul_mono ddiv_mono long_to_double_mono lrint_mono ceil_mono
  to_double_mono order_refl

lemma firstSymbols_mono:
  assumes ab: "a \<le> b"
  shows "firstSymbols tv a \<le> firstSymbols tv b"
proof (cases "legacy tv")
  case True
  have "ddiv (dadd (dadd 16 (dmul (to_double a) 8)) 6) (numDataBitsPerSymbol_OFDM tv)
      \<le> ddiv (dadd (dadd 16 (dmul (to_double b) 8)) 6) (numDataBitsPerSymbol_OFDM tv)"
    by (intro mono_intros symbol_intros ab)
  then show ?thesis by (simp only: firstSymbols_def True if_True)
next
  case False
  have "ddiv (dmul (m_Stbc tv) (dadd (dadd 16 (dmul (to_double a) 8)) (dmul 6 (Nes tv))))
             (dmul (m_Stbc tv) (numDataBitsPerSymbol_HT tv))
      \<le> ddiv (dmul (m_Stbc tv) (dadd (dadd 16 (dmul (to_double b) 8)) (dmul 6 (Nes tv))))
             (dmul (m_Stbc tv) (numDataBitsPerSymbol_HT tv))"
    by (intro mono_intros symbol_intros ab)
  then show ?thesis by (simp only: firstSymbols_def False if_False)
qed

lemma middleSymbols_mono:
  assumes ab: "a \<le> b"
  shows "middleSymbols tv a \<le> middleSymbols tv b"
proof (cases "legacy tv")
  case True
  have "ddiv (dmul (to_double a) 8) (numDataBitsPerSymbol_OFDM tv)
      \<le> ddiv (dmul (to_double b) 8) (numDataBitsPerSymbol_OFDM tv)"
    by (intro mono_intros symbol_intros ab)
  then show ?thesis by (simp only: middleSymbols_def True if_True)
next
  case False
  have "ddiv (dmul (dmul (m_Stbc tv) (to_double a)) 8)
             (dmul (m_Stbc tv) (numDataBitsPerSymbol_HT tv))
      \<le> ddiv (dmul (dmul (m_Stbc tv) (to_double b)) 8)
             (dmul (m_Stbc tv) (numDataBitsPerSymbol_HT tv))"
    by (intro mono_intros symbol_intros ab)
  then show ?thesis by (simp only: middleSymbols_def False if_False)
qed

lemma wholeSymbols_mono:
  assumes ab: "a \<le> b"
  shows "wholeSymbols tv a \<le> wholeSymbols tv b"
proof (cases "legacy tv")
  case True
  have "long_to_double (lrint (ceil
             (ddiv (dadd (dadd 16 (dmul (to_double a) 8)) 6) (numDataBitsPerSymbol_OFDM tv))))
      \<le> long_to_double (lrint (ceil
             (ddiv (dadd (dadd 16 (dmul (to_double b) 8)) 6) (numDataBitsPerSymbol_OFDM tv))))"
    by (intro mono_intros symbol_intros ab)
  then show ?thesis by (simp only: wholeSymbols_def True if_True)
next
  case False
  have "long_to_double (lrint (dmul (m_Stbc tv) (ceil
             (ddiv (dadd (dadd 16 (dmul (to_double a) 8)) (dmul 6 (Nes tv)))
                (dmul (m_Stbc tv) (numDataBitsPerSymbol_HT tv))))))
      \<le> long_to_double (lrint (dmul (m_Stbc tv) (ceil
             (ddiv (dadd (dadd 16 (dmul (to_double b) 8)) (dmul 6 (Nes tv)))
                (dmul (m_Stbc tv) (numDataBitsPerSymbol_HT tv))))))"
    by (intro mono_intros symbol_intros ab)
  then show ?thesis by (simp only: wholeSymbols_def False if_False)
qed

lemma duration_mono:
  assumes "0 \<le> x" and "x \<le> y"
  shows "NanoSecondsD (dmul x (of_int (Tsym_of tv))) \<le> NanoSecondsD (dmul y (of_int (Tsym_of tv)))"
proof -
  have "(0::real) \<le> of_int (Tsym_of tv)" using Tsym_of_pos [of tv] by simp
  then show ?thesis by (intro NanoSecondsD_mono dmul_mono assms order_refl)
qed

lemma symbolic_mono:
  assumes sym: "symbolic tv" and ab: "a \<le> b"
    and wrap: "mpdutype = LAST_MPDU_IN_AGGREGATE \<Longrightarrow> unat (m_totalAmpduSize phy) + unat b < 2 ^ 32"
    and ra: "GetPayloadDuration K phy a tv preamble f mpdutype incFlag = Inr (da, pa)"
  shows "\<exists>db pb. GetPayloadDuration K phy b tv preamble f mpdutype incFlag = Inr (db, pb)
           \<and> da \<le> db"
proof -
  have N: "divisor tv \<noteq> 0"
    using call_zero_divisor [OF sym, of K phy a preamble f mpdutype incFlag] ra by auto
  note combo = call_combination [OF sym ra]
  show ?thesis
  proof (cases mpdutype)
    case NORMAL_MPDU
    then have p: "preamble \<noteq> WIFI_PREAMBLE_NONE" using combo by simp
    have "NanoSecondsD (dmul (wholeSymbols tv a) (of_int (Tsym_of tv)))
        \<le> NanoSecondsD (dmul (wholeSymbols tv b) (of_int (Tsym_of tv)))"
      by (intro duration_mono wholeSymbols_nonneg wholeSymbols_mono ab)
    then show ?thesis using ra NORMAL_MPDU by (simp add: call_normal [OF sym p N])
  next
    case MPDU_IN_AGGREGATE
    show ?thesis
    proof (cases "preamble = WIFI_PREAMBLE_NONE")
      case True
      have "NanoSecondsD (dmul (middleSymbols tv a) (of_int (Tsym_of tv)))
          \<le> NanoSecondsD (dmul (middleSymbols tv b) (of_int (Tsym_of tv)))"
        by (intro duration_mono middleSymbols_nonneg middleSymbols_mono ab)
      then show ?thesis using ra MPDU_IN_AGGREGATE True by (simp add: call_middle [OF sym N])
    next
      case False
      have "NanoSecondsD (dmul (firstSymbols tv a) (of_int (Tsym_of tv)))
          \<le> NanoSecondsD (dmul (firstSymbols tv b) (of_int (Tsym_of tv)))"
        by (intro duration_mono firstSymbols_nonneg firstSymbols_mono ab)
      then show ?thesis using ra MPDU_IN_AGGREGATE by (simp add: call_first [OF sym False N])
    qed
  next
    case LAST_MPDU_IN_AGGREGATE
    then have p: "preamble = WIFI_PREAMBLE_NONE" using combo by simp
    define A where "A = m_totalAmpduNumSymbols phy"
    define Wa where "Wa = wholeSymbols tv (m_totalAmpduSize phy + a)"
    define Wb where "Wb = wholeSymbols tv (m_totalAmpduSize phy + b)"
    have AWa: "A \<le> Wa"
    proof (rule ccontr)
      assume "\<not> A \<le> Wa"
      then have "wholeSymbols tv (m_totalAmpduSize phy + a) < m_totalAmpduNumSymbols phy"
        by (simp add: A_def Wa_def)
      from call_last_overrun [OF sym N this, of K f incFlag] ra LAST_MPDU_IN_AGGREGATE p
      show False by simp
    qed
    have "m_totalAmpduSize phy + a \<le> m_totalAmpduSize phy + b"
      by (rule word_add_mono_right [OF ab wrap [OF LAST_MPDU_IN_AGGREGATE]])
    then have WW: "Wa \<le> Wb" unfolding Wa_def Wb_def by (rule wholeSymbols_mono)
    have AWb: "A \<le> Wb" using AWa WW by simp
    have "0 \<le> dsub Wa A" using AWa by (rule dsub_nonneg)
    moreover have "dsub Wa A \<le> dsub Wb A" using AWa WW by (rule dsub_mono)
    ultimately have "NanoSecondsD (dmul (dsub Wa A) (of_int (Tsym_of tv)))
        \<le> NanoSecondsD (dmul (dsub Wb A) (of_int (Tsym_of tv)))"
      by (rule duration_mono)
    then show ?thesis
      using ra LAST_MPDU_IN_AGGREGATE p
        call_last [OF sym N AWa [unfolded A_def Wa_def], of K f incFlag]
        call_last [OF sym N AWb [unfolded A_def Wb_def], of K f incFlag]
      by (simp add: A_def Wa_def Wb_def)
  qed
qed

lemma GetPayloadDuration_DSSS_mono:
  assumes ab: "a \<le> b" and ra: "GetPayloadDuration_DSSS a m = Inr da"
  shows "\<exists>db. GetPayloadDuration_DSSS b m = Inr db \<and> da \<le> db"
proof -
  have "(to_double a * 8) / (to_double (GetDataRate m 22 False 1) / 1000000)
          \<le> (to_double b * 8) / (to_double (GetDataRate m 22 False 1) / 1000000)"
    using to_double_mono [OF ab] by (intro divide_right_mono) simp_all
  then have "lrint (ceil ((to_double a * 8) / (to_double (GetDataRate m 22 False 1) / 1000000)))
          \<le> lrint (ceil ((to_double b * 8) / (to_double (GetDataRate m 22 False 1) / 1000000)))"
    by (intro lrint_mono ceil_mono)
  then show ?thesis using ra
    by (auto simp: GetPayloadDuration_DSSS_def MicroSeconds_def simp del: lrint_ceil split: if_splits)
qed

subsection \<open>Casts from double to 32-bit unsigned\<close>

lemma unat_word_of_int32:
  assumes "0 \<le> k" and "k < 2 ^ 32"
  shows "unat (word_of_int k :: uint32_t) = nat k"
proof -
  have "uint (word_of_int k :: uint32_t) = k mod 2 ^ 32" by (simp add: uint_word_of_int)
  also have "\<dots> = k" using assms by simp
  finally show ?thesis by (simp add: unat_eq_nat_uint)
qed

lemma trunc_ceil: "0 \<le> x \<Longrightarrow> trunc (ceil x) = \<lceil>x\<rceil>"
proof -
  assume "0 \<le> x"
  then have "0 \<le> \<lceil>x\<rceil>" using ceiling_mono [of 0 x] by simp
  then show ?thesis by (simp add: trunc_def ceil_def)
qed

lemma double_to_uint32_ceil:
  assumes "0 \<le> x" and "x \<le> real M" and "M < 2 ^ 32"
  shows "\<exists>w. double_to_uint32 (ceil x) = Inr w \<and> unat w = nat \<lceil>x\<rceil> \<and> unat w \<le> M"
proof -
  have 0: "0 \<le> \<lceil>x\<rceil>" using assms(1) ceiling_mono [of 0 x] by simp
  have le: "\<lceil>x\<rceil> \<le> int M" using assms(2) by (simp add: ceiling_le_iff)
  have "int M < 2 ^ 32" using assms(3) by simp
  with le have M: "\<lceil>x\<rceil> < 2 ^ 32" "nat \<lceil>x\<rceil> \<le> M" by linarith+
  have "double_to_uint32 (ceil x) = Inr (word_of_int \<lceil>x\<rceil>)"
    using 0 M(1) by (simp add: double_to_uint32_def trunc_ceil [OF assms(1)])
  then show ?thesis using unat_word_of_int32 [OF 0 M(1)] M(2) by simp
qed

lemma double_to_uint32_ceil_mono:
  assumes "0 \<le> x" and "x \<le> y" and "y \<le> real M" and "M < 2 ^ 32"
    and "double_to_uint32 (ceil x) = Inr wx"
  shows "\<exists>wy. double_to_uint32 (ceil y) = Inr wy \<and> wx \<le> wy \<and> unat wy \<le> M"
proof -
  have y0: "0 \<le> y" using assms(1,2) by simp
  have xM: "x \<le> real M" using assms(2,3) by simp
  obtain wy where wy: "double_to_uint32 (ceil y) = Inr wy" "unat wy = nat \<lceil>y\<rceil>" "unat wy \<le> M"
    using double_to_uint32_ceil [OF y0 assms(3,4)] by blast
  obtain wx' where wx: "double_to_uint32 (ceil x) = Inr wx'" "unat wx' = nat \<lceil>x\<rceil>"
    using double_to_uint32_ceil [OF assms(1) xM assms(4)] by blast
  have "wx' = wx" using wx(1) assms(5) by simp
  moreover have "nat \<lceil>x\<rceil> \<le> nat \<lceil>y\<rceil>" using assms(2) by (intro nat_mono ceiling_mono)
  ultimately have "wx \<le> wy" using wx(2) wy(2) by (simp add: word_le_nat_alt)
  with wy show ?thesis by blast
qed

lemma unat_mult_numeral32:
  fixes w :: uint32_t
  assumes "unat w * c < 2 ^ 32"
  shows "unat (w * of_nat c) = unat w * c"
proof (cases "unat w = 0")
  case True
  then have "w = 0" by (simp add: unat_eq_0)
  then show ?thesis by simp
next
  case False
  then have "c < 2 ^ 32" using assms
    by (metis One_nat_def Suc_leI le_less_trans mult.commute mult_le_mono1 nat_mult_1_right neq0_conv)
  then have "unat (of_nat c :: uint32_t) = c"
    by (intro of_nat_inverse [OF refl]) simp
  then show ?thesis using assms by (simp add: unat_mult_lem [THEN iffD1])
qed

lemma word_mult_mono32:
  fixes x y :: uint32_t
  assumes "x \<le> y" and "unat y * c < 2 ^ 32"
  shows "x * of_nat c \<le> y * of_nat c"
proof -
  have xy: "unat x \<le> unat y" using assms(1) by (simp add: word_le_nat_alt)
  then have "unat x * c \<le> unat y * c" by (rule mult_le_mono1)
  then have "unat x * c < 2 ^ 32" using assms(2) by (rule le_less_trans)
  then show ?thesis using unat_mult_numeral32 [OF assms(2)] unat_mult_numeral32 [of x c] xy
    by (simp add: word_le_nat_alt)
qed

lemma Ncbits_mono:
  assumes xy: "x \<le> y" and y: "unat y < 2 ^ 25" and rx: "Ncbits m x = Inr x'"
  shows "\<exists>y'. Ncbits m y = Inr y' \<and> x' \<le> y' \<and> unat y' < 2 ^ 27"
proof -
  have dy: "to_double y < 2 ^ 25" using y by (simp add: to_double_def del: of_nat_unat)
  have dxy: "to_double x \<le> to_double y" using xy by (rule to_double_mono)
  have conv: "\<exists>y'. double_to_uint32 (ceil (to_double y * p / q)) = Inr y' \<and> x' \<le> y' \<and> unat y' < 2 ^ 27"
    if cx: "double_to_uint32 (ceil (to_double x * p / q)) = Inr x'"
      and q0: "0 < q" and p0: "0 \<le> p" and pq: "p \<le> 2 * q"
    for p q :: real
  proof -
    have "p / q \<le> 2" using q0 pq by (simp add: divide_le_eq)
    then have "to_double y * (p / q) \<le> to_double y * 2"
      by (intro mult_left_mono) simp_all
    then have "to_double y * p / q \<le> to_double y * 2" by simp
    then have b: "to_double y * p / q \<le> real (2 ^ 27 - 1)" using dy by simp
    have le: "to_double x * p / q \<le> to_double y * p / q"
      using dxy q0 p0 by (intro divide_right_mono mult_right_mono) simp_all
    have nn: "0 \<le> to_double x * p / q" using q0 p0 by simp
    have "(2::nat) ^ 27 - 1 < 2 ^ 32" by simp
    from double_to_uint32_ceil_mono [OF nn le b this cx]
    obtain wy where "double_to_uint32 (ceil (to_double y * p / q)) = Inr wy" "x' \<le> wy"
      "unat wy \<le> 2 ^ 27 - 1"
      by blast
    then show ?thesis by auto
  qed
  have mult: "x * of_nat c \<le> y * of_nat c \<and> unat (y * of_nat c) < 2 ^ 27" if "c \<le> 4" for c :: nat
  proof -
    have "unat y * c \<le> unat y * 4" using that by (rule mult_le_mono2)
    moreover have "unat y * 4 < 2 ^ 27" using y by simp
    ultimately have b: "unat y * c < 2 ^ 27" by (rule le_less_trans)
    then have "unat y * c < 2 ^ 32" by simp
    then show ?thesis using word_mult_mono32 [OF xy] unat_mult_numeral32 [of y c] b by simp
  qed
  consider (r14) "GetCodeRate m = WIFI_CODE_RATE_1_4" | (r12) "GetCodeRate m = WIFI_CODE_RATE_1_2"
    | (r1316) "GetCodeRate m = WIFI_CODE_RATE_13_16" | (r34) "GetCodeRate m = WIFI_CODE_RATE_3_4"
    | (r58) "GetCodeRate m = WIFI_CODE_RATE_5_8"
    | (other) "GetCodeRate m \<notin> {WIFI_CODE_RATE_1_4, WIFI_CODE_RATE_1_2, WIFI_CODE_RATE_13_16,
         WIFI_CODE_RATE_3_4, WIFI_CODE_RATE_5_8}"
    by auto
  then show ?thesis
  proof cases
    case r14
    then show ?thesis using rx mult [of 4] by (auto simp: Ncbits_def)
  next
    case r12
    then show ?thesis using rx mult [of 2] by (auto simp: Ncbits_def)
  next
    case r1316
    then show ?thesis using rx conv [of 16 13] by (auto simp: Ncbits_def)
  next
    case r34
    then show ?thesis using rx conv [of 4 3] by (auto simp: Ncbits_def)
  next
    case r58
    then show ?thesis using rx conv [of 8 5] by (auto simp: Ncbits_def)
  next
    case other
    then show ?thesis using rx by (auto simp: Ncbits_def)
  qed
qed

subsection \<open>DMG single carrier and DMG OFDM\<close>

lemma to_double_less: "unat w < n \<Longrightarrow> to_double w < real n"
  by (simp add: to_double_def del: of_nat_unat)

lemma to_double_le: "unat w \<le> n \<Longrightarrow> to_double w \<le> real n"
  by (simp add: to_double_def del: of_nat_unat)

lemma Nbits_mono:
  fixes a b :: uint32_t
  assumes "a \<le> b" and "unat b < 2 ^ 22"
  shows "a * 8 \<le> b * 8 \<and> unat (b * 8) < 2 ^ 25"
proof -
  have "unat b * 8 < 2 ^ 32" using assms(2) by simp
  then show ?thesis
    using word_mult_mono32 [OF assms(1), of 8] unat_mult_numeral32 [of b 8] assms(2) by simp
qed

lemma Ncw_mono:
  assumes xy: "x \<le> y" and y: "unat y < 2 ^ 27"
    and rx: "double_to_uint32 (ceil (to_double x / 672)) = Inr x'"
  shows "\<exists>y'. double_to_uint32 (ceil (to_double y / 672)) = Inr y' \<and> x' \<le> y' \<and> unat y' < 2 ^ 18"
proof -
  have "to_double y < 2 ^ 27" using to_double_less [OF y] by simp
  then have b: "to_double y / 672 \<le> real (2 ^ 18 - 1)" by simp
  have le: "to_double x / 672 \<le> to_double y / 672"
    using to_double_mono [OF xy] by simp
  have nn: "0 \<le> to_double x / 672" by simp
  have "(2::nat) ^ 18 - 1 < 2 ^ 32" by simp
  from double_to_uint32_ceil_mono [OF nn le b this rx]
  obtain wy where "double_to_uint32 (ceil (to_double y / 672)) = Inr wy" "x' \<le> wy"
    "unat wy \<le> 2 ^ 18 - 1"
    by blast
  then show ?thesis by auto
qed

lemma Nblks_mono:
  assumes xy: "x \<le> y" and y: "unat y < 2 ^ 18" and n: "336 \<le> to_double n"
    and rx: "double_to_uint32 (ceil (to_double x * 672 / to_double n)) = Inr x'"
  shows "\<exists>y'. double_to_uint32 (ceil (to_double y * 672 / to_double n)) = Inr y' \<and> x' \<le> y'
           \<and> unat y' < 2 ^ 19"
proof -
  have n0: "0 < to_double n" using n by simp
  have "672 / to_double n \<le> 2" using n n0 by (simp add: divide_le_eq)
  then have "to_double y * (672 / to_double n) \<le> to_double y * 2"
    by (intro mult_left_mono) simp_all
  moreover have "to_double y \<le> real (2 ^ 18 - 1)" using y by (intro to_double_le) simp
  ultimately have b: "to_double y * 672 / to_double n \<le> real (2 ^ 19 - 1)" by simp
  have le: "to_double x * 672 / to_double n \<le> to_double y * 672 / to_double n"
    using to_double_mono [OF xy] n0 by (intro divide_right_mono mult_right_mono) simp_all
  have nn: "0 \<le> to_double x * 672 / to_double n" using n0 by simp
  have "(2::nat) ^ 19 - 1 < 2 ^ 32" by simp
  from double_to_uint32_ceil_mono [OF nn le b this rx]
  obtain wy where "double_to_uint32 (ceil (to_double y * 672 / to_double n)) = Inr wy" "x' \<le> wy"
    "unat wy \<le> 2 ^ 19 - 1"
    by blast
  then show ?thesis by auto
qed

lemma Ncbpb_SC_lower: "Ncbpb_SC m = Inr n \<Longrightarrow> 336 \<le> to_double n"
  by (auto simp: Ncbpb_SC_def to_double_def split: if_splits)

lemma Ncbps_OFDM_lower: "Ncbps_OFDM m = Inr n \<Longrightarrow> 336 \<le> to_double n"
  by (auto simp: Ncbps_OFDM_def to_double_def split: if_splits)

lemma word_of_int_mono32:
  assumes "0 \<le> i" and "i \<le> j" and "j < 2 ^ 32"
  shows "(word_of_int i :: uint32_t) \<le> word_of_int j"
proof -
  have "0 \<le> j" "i < 2 ^ 32" using assms by linarith+
  then show ?thesis
    using unat_word_of_int32 [of i] unat_word_of_int32 [of j] assms
    by (simp add: word_le_nat_alt nat_mono)
qed

lemma tData_SC_mono:
  fixes x y :: uint32_t
  assumes xy: "x \<le> y" and y: "unat y < 2 ^ 19"
  shows "(word_of_int (lrint (ceil ((to_double x * 512 + 64) / (176 / 100)))) :: uint32_t)
           \<le> word_of_int (lrint (ceil ((to_double y * 512 + 64) / (176 / 100))))"
proof -
  let ?v = "\<lambda>w :: uint32_t. (to_double w * 512 + 64) / (176 / 100)"
  have le: "?v x \<le> ?v y" using to_double_mono [OF xy] by simp
  have x0: "0 \<le> ?v x" and y0: "0 \<le> ?v y" by simp_all
  have "to_double y < 2 ^ 19" using to_double_less [OF y] by simp
  then have "?v y \<le> 2 ^ 28" by simp
  then have yb: "\<lceil>?v y\<rceil> < 2 ^ 32" by (simp add: ceiling_less_iff)
  have cle: "\<lceil>?v x\<rceil> \<le> \<lceil>?v y\<rceil>" using le by (rule ceiling_mono)
  have cx0: "0 \<le> \<lceil>?v x\<rceil>" using x0 ceiling_mono [of 0 "?v x"] by simp
  show ?thesis unfolding lrint_ceil by (rule word_of_int_mono32 [OF cx0 cle yb])
qed

lemma tData_OFDM_mono:
  fixes x y :: uint32_t
  assumes xy: "x \<le> y" and y: "unat y < 2 ^ 19"
  shows "x * 242 \<le> y * 242"
proof -
  have "unat y * 242 < 2 ^ 32" using y by simp
  then show ?thesis using word_mult_mono32 [OF xy, of 242] by simp
qed

lemma trainingFloor_mono:
  assumes xy: "x \<le> y" and rx: "trainingFloor txVector minimum x = Inr x'"
  shows "\<exists>y'. trainingFloor txVector minimum y = Inr y' \<and> x' \<le> y'"
proof (cases "GetTrainngFieldLength txVector \<noteq> 0 \<and> to_double x < minimum")
  case False
  then have x': "x' = x" using rx by (auto simp: trainingFloor_def split: if_splits)
  have "\<not> to_double y < minimum" if "GetTrainngFieldLength txVector \<noteq> 0"
    using False that to_double_mono [OF xy] by auto
  then show ?thesis using x' xy by (auto simp: trainingFloor_def)
next
  case True
  then have cx: "double_to_uint32 minimum = Inr x'" using rx by (simp add: trainingFloor_def)
  show ?thesis
  proof (cases "to_double y < minimum")
    case True
    then show ?thesis using cx \<open>GetTrainngFieldLength txVector \<noteq> 0 \<and> to_double x < minimum\<close>
      by (simp add: trainingFloor_def)
  next
    case False
    have m0: "0 \<le> minimum" using True to_double_nonneg [of x] by linarith
    from cx have x': "x' = word_of_int \<lfloor>minimum\<rfloor>" and b: "\<lfloor>minimum\<rfloor> < 2 ^ 32"
      using m0 by (auto simp: double_to_uint32_def trunc_def split: if_splits)
    have f0: "0 \<le> \<lfloor>minimum\<rfloor>" using m0 by simp
    have "minimum \<le> real (unat y)" using False by (simp add: to_double_unat del: of_nat_unat)
    then have "\<lfloor>minimum\<rfloor> \<le> int (unat y)" by (simp add: floor_le_iff del: of_nat_unat)
    then have "nat \<lfloor>minimum\<rfloor> \<le> unat y" by linarith
    then have "x' \<le> y" using unat_word_of_int32 [OF f0 b] x' by (simp add: word_le_nat_alt)
    then show ?thesis using False by (auto simp: trainingFloor_def)
  qed
qed

lemma GetPayloadDuration_DMG_SC_mono:
  assumes ab: "a \<le> b" and b: "unat b < 2 ^ 22"
    and ra: "GetPayloadDuration_DMG_SC K a txVector = Inr da"
  shows "\<exists>db. GetPayloadDuration_DMG_SC K b txVector = Inr db \<and> da \<le> db"
proof -
  from ra obtain n ca wa ka ta where
    n: "Ncbpb_SC (GetMode txVector) = Inr n"
    and ca: "Ncbits (GetMode txVector) (a * 8) = Inr ca"
    and wa: "double_to_uint32 (ceil (to_double ca / 672)) = Inr wa"
    and ka: "double_to_uint32 (ceil (to_double wa * 672 / to_double n)) = Inr ka"
    and ta: "trainingFloor txVector (OFDMSCMin K)
               (word_of_int (lrint (ceil ((to_double ka * 512 + 64) / (176 / 100))))) = Inr ta"
    and da: "da = NanoSeconds (uint ta)"
    by (auto simp: GetPayloadDuration_DMG_SC_def andThen_def Let_def split: sum.splits)
  from Nbits_mono [OF ab b] have s1: "a * 8 \<le> b * 8" "unat (b * 8) < 2 ^ 25" by simp_all
  from Ncbits_mono [OF s1 ca] obtain cb where
    cb: "Ncbits (GetMode txVector) (b * 8) = Inr cb" "ca \<le> cb" "unat cb < 2 ^ 27" by blast
  from Ncw_mono [OF cb(2,3) wa] obtain wb where
    wb: "double_to_uint32 (ceil (to_double cb / 672)) = Inr wb" "wa \<le> wb" "unat wb < 2 ^ 18" by blast
  from Nblks_mono [OF wb(2,3) Ncbpb_SC_lower [OF n] ka] obtain kb where
    kb: "double_to_uint32 (ceil (to_double wb * 672 / to_double n)) = Inr kb" "ka \<le> kb"
      "unat kb < 2 ^ 19" by blast
  from trainingFloor_mono [OF tData_SC_mono [OF kb(2,3)] ta] obtain tb where
    tb: "trainingFloor txVector (OFDMSCMin K)
               (word_of_int (lrint (ceil ((to_double kb * 512 + 64) / (176 / 100))))) = Inr tb"
      "ta \<le> tb" by blast
  have "uint ta \<le> uint tb" using tb(2) by (simp add: word_le_def)
  then show ?thesis using n cb(1) wb(1) kb(1) tb(1) da
    by (simp add: GetPayloadDuration_DMG_SC_def andThen_def Let_def NanoSeconds_def)
qed

lemma GetPayloadDuration_DMG_OFDM_mono:
  assumes ab: "a \<le> b" and b: "unat b < 2 ^ 22"
    and ra: "GetPayloadDuration_DMG_OFDM K a txVector = Inr da"
  shows "\<exists>db. GetPayloadDuration_DMG_OFDM K b txVector = Inr db \<and> da \<le> db"
proof -
  from ra obtain n ca wa ka ta where
    n: "Ncbps_OFDM (GetMode txVector) = Inr n"
    and ca: "Ncbits (GetMode txVector) (a * 8) = Inr ca"
    and wa: "double_to_uint32 (ceil (to_double ca / 672)) = Inr wa"
    and ka: "double_to_uint32 (ceil (to_double wa * 672 / to_double n)) = Inr ka"
    and ta: "trainingFloor txVector (OFDMBRPMin K) (ka * 242) = Inr ta"
    and da: "da = NanoSeconds (uint ta)"
    by (auto simp: GetPayloadDuration_DMG_OFDM_def andThen_def Let_def split: sum.splits)
  from Nbits_mono [OF ab b] have s1: "a * 8 \<le> b * 8" "unat (b * 8) < 2 ^ 25" by simp_all
  from Ncbits_mono [OF s1 ca] obtain cb where
    cb: "Ncbits (GetMode txVector) (b * 8) = Inr cb" "ca \<le> cb" "unat cb < 2 ^ 27" by blast
  from Ncw_mono [OF cb(2,3) wa] obtain wb where
    wb: "double_to_uint32 (ceil (to_double cb / 672)) = Inr wb" "wa \<le> wb" "unat wb < 2 ^ 18" by blast
  from Nblks_mono [OF wb(2,3) Ncbps_OFDM_lower [OF n] ka] obtain kb where
    kb: "double_to_uint32 (ceil (to_double wb * 672 / to_double n)) = Inr kb" "ka \<le> kb"
      "unat kb < 2 ^ 19" by blast
  from trainingFloor_mono [OF tData_OFDM_mono [OF kb(2,3)] ta] obtain tb where
    tb: "trainingFloor txVector (OFDMBRPMin K) (kb * 242) = Inr tb" "ta \<le> tb" by blast
  have "uint ta \<le> uint tb" using tb(2) by (simp add: word_le_def)
  then show ?thesis using n cb(1) wb(1) kb(1) tb(1) da
    by (simp add: GetPayloadDuration_DMG_OFDM_def andThen_def Let_def NanoSeconds_def)
qed

subsection \<open>DMG control\<close>

declare of_nat_unat [simp del]

lemma double_to_uint32_ceil_gt:
  assumes "- 1 < x" and "x \<le> real M" and "M < 2 ^ 32"
  shows "\<exists>w. double_to_uint32 (ceil x) = Inr w \<and> unat w = nat \<lceil>x\<rceil> \<and> unat w \<le> M"
proof -
  have 0: "0 \<le> \<lceil>x\<rceil>" using assms(1) by (simp add: le_ceiling_iff)
  have le: "\<lceil>x\<rceil> \<le> int M" using assms(2) by (simp add: ceiling_le_iff)
  have "int M < 2 ^ 32" using assms(3) by simp
  with le have M: "\<lceil>x\<rceil> < 2 ^ 32" "nat \<lceil>x\<rceil> \<le> M" by linarith+
  have "trunc (ceil x) = \<lceil>x\<rceil>" using 0 by (simp add: trunc_def ceil_def)
  then have "double_to_uint32 (ceil x) = Inr (word_of_int \<lceil>x\<rceil>)"
    using 0 M(1) by (simp add: double_to_uint32_def)
  then show ?thesis using unat_word_of_int32 [OF 0 M(1)] M(2) by simp
qed

lemma to_double_of_nat32: "n < 2 ^ 32 \<Longrightarrow> to_double (of_nat n :: uint32_t) = real n"
proof -
  assume "n < 2 ^ 32"
  then have "unat (of_nat n :: uint32_t) = n" by (intro of_nat_inverse [OF refl]) simp
  then show ?thesis by (simp add: to_double_unat del: of_nat_unat)
qed

text \<open>The number of codewords beyond the first, as a natural number.\<close>

lemma ctrl_codewords:
  fixes sz :: uint32_t
  assumes "unat sz < 2 ^ 22"
  shows "\<exists>c. double_to_uint32 (ceil ((to_double sz - 6) * 8 / 168)) = Inr c
           \<and> unat c = nat \<lceil>(real (unat sz) - 6) * 8 / 168\<rceil> \<and> unat c \<le> 2 ^ 18"
proof -
  have d: "to_double sz = real (unat sz)" by (rule to_double_unat)
  have "real (unat sz) < 2 ^ 22" using assms by (metis of_nat_less_iff of_nat_numeral of_nat_power)
  then have up: "(to_double sz - 6) * 8 / 168 \<le> real (2 ^ 18)" unfolding d by simp
  have "0 \<le> real (unat sz)" by simp
  then have lo: "- 1 < (to_double sz - 6) * 8 / 168" unfolding d by simp
  have "(2::nat) ^ 18 < 2 ^ 32" by simp
  from double_to_uint32_ceil_gt [OF lo up this] show ?thesis unfolding d by simp
qed

lemma ctrl_codewords_mono:
  "a \<le> b \<Longrightarrow> nat \<lceil>(real a - 6) * 8 / 168\<rceil> \<le> nat \<lceil>(real b - 6) * 8 / 168\<rceil>"
  by (intro nat_mono ceiling_mono) simp

lemma GetPayloadDuration_DMG_CTRL_training:
  assumes t: "GetTrainngFieldLength txVector \<noteq> 0" and b: "unat sz < 2 ^ 22"
  shows "GetPayloadDuration_DMG_CTRL sz txVector =
           Inr (NanoSecondsD (ceil (real (8 * unat sz + 208
                  + 168 * nat \<lceil>(real (unat sz) - 6) * 8 / 168\<rceil>) * (57 / 100) * 32)))"
proof -
  define A where "A = unat sz"
  define C where "C = nat \<lceil>(real (unat sz) - 6) * 8 / 168\<rceil>"
  obtain c where c: "double_to_uint32 (ceil ((to_double sz - 6) * 8 / 168)) = Inr c"
    and cC: "unat c = C" and Cb: "C \<le> 2 ^ 18"
    using ctrl_codewords [OF b] unfolding C_def by metis
  have Ab: "A < 2 ^ 22" using b by (simp add: A_def)
  have "88 + (sz - 6) * 8 + (1 + c) * 168 = 8 * sz + 208 + 168 * c" by (simp add: algebra_simps)
  also have "\<dots> = 8 * of_nat A + 208 + 168 * of_nat C"
    unfolding A_def cC [symmetric] by (simp add: of_nat_unat)
  also have "\<dots> = of_nat (8 * A + 208 + 168 * C)" by simp
  finally have w: "88 + (sz - 6) * 8 + (1 + c) * 168 = of_nat (8 * A + 208 + 168 * C)" .
  have "8 * A + 208 + 168 * C < 2 ^ 32" using Ab Cb by simp
  then have val: "to_double (88 + (sz - 6) * 8 + (1 + c) * 168) = real (8 * A + 208 + 168 * C)"
    unfolding w by (rule to_double_of_nat32)
  have "GetPayloadDuration_DMG_CTRL sz txVector =
           Inr (NanoSecondsD (ceil (to_double (88 + (sz - 6) * 8 + (1 + c) * 168) * (57 / 100) * 32)))"
    using t c by (simp add: GetPayloadDuration_DMG_CTRL_def Ncw_DMG_CTRL_def andThen_def Let_def)
  then show ?thesis unfolding val A_def C_def .
qed

lemma GetPayloadDuration_DMG_CTRL_ldpc:
  assumes t: "GetTrainngFieldLength txVector = 0" and lo: "7 \<le> unat sz" and b: "unat sz < 2 ^ 22"
  shows "GetPayloadDuration_DMG_CTRL sz txVector =
           Inr (NanoSecondsD (ceil (real (32 * (168 * nat \<lceil>(real (unat sz) - 6) * 8 / 168\<rceil>
                  + 8 * (unat sz - 6))) / (176 / 100))))"
proof -
  define A where "A = unat sz"
  define C where "C = nat \<lceil>(real (unat sz) - 6) * 8 / 168\<rceil>"
  obtain c where c: "double_to_uint32 (ceil ((to_double sz - 6) * 8 / 168)) = Inr c"
    and cC: "unat c = C" and Cb: "C \<le> 2 ^ 18"
    using ctrl_codewords [OF b] unfolding C_def by metis
  have Ab: "A < 2 ^ 22" and A7: "7 \<le> A" using b lo by (simp_all add: A_def)
  have d: "to_double sz = real A" unfolding A_def by (rule to_double_unat)
  have dc: "to_double c = real C" unfolding cC [symmetric] by (rule to_double_unat)
  have CA: "C = nat \<lceil>(real A - 6) * 8 / 168\<rceil>" by (simp add: C_def A_def)
  have xpos: "0 < (real A - 6) * 8 / 168" using A7 by simp
  then have cpos: "0 < \<lceil>(real A - 6) * 8 / 168\<rceil>" by (simp add: less_ceiling_iff)
  then have C1: "1 \<le> C" unfolding CA by linarith
  have c0: "to_double c \<noteq> 0" unfolding dc using C1 by simp
  have "(real A - 6) * 8 / 168 \<le> real_of_int \<lceil>(real A - 6) * 8 / 168\<rceil>"
    by (rule le_of_int_ceiling)
  also have "\<dots> = real C" unfolding CA using cpos by simp
  finally have Cge: "(real A - 6) * 8 / 168 \<le> real C" .
  then have "(real A - 6) * 8 \<le> 168 * real C" by simp
  then have "(real A - 6) * 8 / real C \<le> 168" using C1 by (simp add: divide_le_eq)
  then have up: "(to_double sz - 6) * 8 / to_double c \<le> real 168" unfolding d dc by simp
  have "0 \<le> (real A - 6) * 8 / real C" using A7 by simp
  then have low: "- 1 < (to_double sz - 6) * 8 / to_double c" unfolding d dc by linarith
  have "(168::nat) < 2 ^ 32" by simp
  from double_to_uint32_ceil_gt [OF low up this]
  obtain L where L: "double_to_uint32 (ceil ((to_double sz - 6) * 8 / to_double c)) = Inr L"
    by blast
  have "((672 - (504 - L)) * ((1 + c) - 2) + (672 - (504 - ((sz - 6) * 8 - ((1 + c) - 2) * L)))) * 32
          = 32 * (168 * c + 8 * (sz - 6))"
    by (simp add: algebra_simps)
  also have "\<dots> = 32 * (168 * of_nat C + 8 * (of_nat A - 6))"
    unfolding A_def cC [symmetric] by (simp add: of_nat_unat)
  also have "of_nat A - (6 :: uint32_t) = of_nat (A - 6)" using A7 by (simp add: of_nat_diff)
  also have "32 * (168 * of_nat C + 8 * of_nat (A - 6)) = (of_nat (32 * (168 * C + 8 * (A - 6))) :: uint32_t)"
    by simp
  finally have w: "((672 - (504 - L)) * ((1 + c) - 2) + (672 - (504 - ((sz - 6) * 8 - ((1 + c) - 2) * L)))) * 32
          = (of_nat (32 * (168 * C + 8 * (A - 6))) :: uint32_t)" .
  have "32 * (168 * C + 8 * (A - 6)) < 2 ^ 32" using Ab Cb by simp
  then have val: "to_double (((672 - (504 - L)) * ((1 + c) - 2) + (672 - (504 - ((sz - 6) * 8 - ((1 + c) - 2) * L)))) * 32)
      = real (32 * (168 * C + 8 * (A - 6)))"
    unfolding w by (rule to_double_of_nat32)
  have c1: "1 + c - 1 = c" by simp
  have n: "Ncw_DMG_CTRL sz = Inr (1 + c)" unfolding Ncw_DMG_CTRL_def andThen_def c by simp
  have q: "ieee_to_uint32 (ceil_ieee (Ldpcw_quotient sz (1 + c))) = Inr L"
    using c0 L by (simp add: Ldpcw_quotient_def divide_ieee_def ceil_ieee_def ieee_to_uint32_def c1)
  have "GetPayloadDuration_DMG_CTRL sz txVector =
           Inr (NanoSecondsD (ceil (to_double (((672 - (504 - L)) * ((1 + c) - 2)
              + (672 - (504 - ((sz - 6) * 8 - ((1 + c) - 2) * L)))) * 32) / (176 / 100))))"
    using t unfolding GetPayloadDuration_DMG_CTRL_def andThen_def Let_def n sum.case q
    by (simp only: simp_thms if_True if_False)
  then show ?thesis unfolding val A_def C_def .
qed

lemma GetPayloadDuration_DMG_CTRL_mono:
  assumes ab: "a \<le> b" and b: "unat b < 2 ^ 22"
    and lo: "GetTrainngFieldLength txVector = 0 \<Longrightarrow> 7 \<le> unat a"
    and ra: "GetPayloadDuration_DMG_CTRL a txVector = Inr da"
  shows "\<exists>db. GetPayloadDuration_DMG_CTRL b txVector = Inr db \<and> da \<le> db"
proof -
  have le: "unat a \<le> unat b" using ab by (simp add: word_le_nat_alt)
  then have a: "unat a < 2 ^ 22" using b by simp
  note C = ctrl_codewords_mono [OF le]
  show ?thesis
  proof (cases "GetTrainngFieldLength txVector = 0")
    case True
    have a7: "7 \<le> unat a" by (rule lo [OF True])
    then have b7: "7 \<le> unat b" using le by simp
    have "32 * (168 * nat \<lceil>(real (unat a) - 6) * 8 / 168\<rceil> + 8 * (unat a - 6))
            \<le> 32 * (168 * nat \<lceil>(real (unat b) - 6) * 8 / 168\<rceil> + 8 * (unat b - 6))"
      by (intro mult_le_mono2 add_mono diff_le_mono C le)
    then have "real (32 * (168 * nat \<lceil>(real (unat a) - 6) * 8 / 168\<rceil> + 8 * (unat a - 6))) / (176 / 100)
            \<le> real (32 * (168 * nat \<lceil>(real (unat b) - 6) * 8 / 168\<rceil> + 8 * (unat b - 6))) / (176 / 100)"
      by (intro divide_right_mono iffD2 [OF of_nat_le_iff]) simp_all
    then show ?thesis
      using ra GetPayloadDuration_DMG_CTRL_ldpc [OF True a7 a] GetPayloadDuration_DMG_CTRL_ldpc [OF True b7 b]
      by (auto intro!: NanoSecondsD_mono ceil_mono)
  next
    case False
    have "8 * unat a + 208 + 168 * nat \<lceil>(real (unat a) - 6) * 8 / 168\<rceil>
            \<le> 8 * unat b + 208 + 168 * nat \<lceil>(real (unat b) - 6) * 8 / 168\<rceil>"
      by (intro add_mono mult_le_mono2 le_refl C le)
    then have "real (8 * unat a + 208 + 168 * nat \<lceil>(real (unat a) - 6) * 8 / 168\<rceil>) * (57 / 100) * 32
            \<le> real (8 * unat b + 208 + 168 * nat \<lceil>(real (unat b) - 6) * 8 / 168\<rceil>) * (57 / 100) * 32"
      by (intro mult_right_mono iffD2 [OF of_nat_le_iff]) simp_all
    then show ?thesis
      using ra GetPayloadDuration_DMG_CTRL_training [OF False a] GetPayloadDuration_DMG_CTRL_training [OF False b]
      by (auto intro!: NanoSecondsD_mono ceil_mono)
  qed
qed

subsection \<open>All classes\<close>

lemma unchanged_mono:
  assumes "unchanged phy ra = Inr (da, pa)" and "ra = Inr da \<Longrightarrow> \<exists>db. rb = Inr db \<and> da \<le> db"
  shows "\<exists>db pb. unchanged phy rb = Inr (db, pb) \<and> da \<le> db"
proof -
  from assms(1) have "ra = Inr da" by (auto simp: unchanged_def split: sum.splits)
  from assms(2) [OF this] show ?thesis by (auto simp: unchanged_def)
qed

lemma dmg_sc_1: "GetPayloadDuration floors_80211ad WifiPhy_init 1 (txVector_of GetDMG_MCS2 2160)
     WIFI_PREAMBLE_LONG 60480 NORMAL_MPDU 0 = Inr (619, WifiPhy_init)"
  by (simp add: GetPayloadDuration_def GetPayloadDuration_DMG_SC_def Ncbpb_SC_def Ncbits_def
      trainingFloor_def txVector_of_def GetDMG_MCS2_def conv_defs)

lemma dmg_sc_2_29: "GetPayloadDuration floors_80211ad WifiPhy_init 536870912 (txVector_of GetDMG_MCS2 2160)
     WIFI_PREAMBLE_LONG 60480 NORMAL_MPDU 0 = Inr (37, WifiPhy_init)"
  by (simp add: GetPayloadDuration_def GetPayloadDuration_DMG_SC_def Ncbpb_SC_def Ncbits_def
      trainingFloor_def txVector_of_def GetDMG_MCS2_def conv_defs)

lemma dmg_sc_1000: "GetPayloadDuration floors_80211ad WifiPhy_init 1000 (txVector_of GetDMG_MCS2 2160)
     WIFI_PREAMBLE_LONG 60480 NORMAL_MPDU 0 = Inr (10510, WifiPhy_init)"
  by (simp add: GetPayloadDuration_def GetPayloadDuration_DMG_SC_def Ncbpb_SC_def Ncbits_def
      trainingFloor_def txVector_of_def GetDMG_MCS2_def conv_defs)

lemma dmg_ctrl_7: "GetPayloadDuration floors_80211ad WifiPhy_init 7 (txVector_of GetDMG_MCS0 2160)
     WIFI_PREAMBLE_LONG 60480 NORMAL_MPDU 0 = Inr (3200, WifiPhy_init)"
proof -
  have t: "GetTrainngFieldLength (txVector_of GetDMG_MCS0 2160) = 0" by (simp add: txVector_of_def)
  have "GetPayloadDuration_DMG_CTRL 7 (txVector_of GetDMG_MCS0 2160) = Inr 3200"
    unfolding GetPayloadDuration_DMG_CTRL_ldpc [OF t, of 7, simplified]
    by (simp add: NanoSecondsD_def ceil_def)
  then show ?thesis
    by (simp add: GetPayloadDuration_def unchanged_def txVector_of_def GetDMG_MCS0_def)
qed

text \<open>
  C8. The claim says that the payload duration never decreases when the payload size grows.
  The size is a 32-bit unsigned integer, and the DMG branches compute the bit count
  \<open>size * 8\<close> in 32 bits: for the DMG single-carrier mode MCS 2 a payload of 1 byte
  lasts 619 ns, a payload of 536870912 bytes, whose bit count wraps to 0, lasts 37 ns.
  In the DMG control branch without a training field the sizes up to 6 divide by zero and
  go on in wrapped arithmetic: for DMG MCS 0 the empty payload lasts 2440321455 ns, a
  payload of 7 bytes 3200 ns.
\<close>

theorem C8_monotone_counterexample:
  "(1 :: uint32_t) \<le> 536870912
   \<and> GetPayloadDuration floors_80211ad WifiPhy_init 1 (txVector_of GetDMG_MCS2 2160)
        WIFI_PREAMBLE_LONG 60480 NORMAL_MPDU 0 = Inr (619, WifiPhy_init)
   \<and> GetPayloadDuration floors_80211ad WifiPhy_init 536870912 (txVector_of GetDMG_MCS2 2160)
        WIFI_PREAMBLE_LONG 60480 NORMAL_MPDU 0 = Inr (37, WifiPhy_init)
   \<and> \<not> (619 \<le> (37 :: int))
   \<and> (0 :: uint32_t) \<le> 7
   \<and> GetPayloadDuration floors_80211ad WifiPhy_init 0 (txVector_of GetDMG_MCS0 2160)
        WIFI_PREAMBLE_LONG 60480 NORMAL_MPDU 0 = Inr (2440321455, WifiPhy_init)
   \<and> GetPayloadDuration floors_80211ad WifiPhy_init 7 (txVector_of GetDMG_MCS0 2160)
        WIFI_PREAMBLE_LONG 60480 NORMAL_MPDU 0 = Inr (3200, WifiPhy_init)
   \<and> \<not> (2440321455 \<le> (3200 :: int))"
  using dmg_sc_1 dmg_sc_2_29 dmg_ctrl_0 dmg_ctrl_7 by simp

text \<open>
  C8, amended. With the transmit vector, the preamble, the frequency, the role, the commit
  flag and the accumulator fixed: if the call for a size \<open>a\<close> returns a duration, then so
  does the call for every size \<open>b \<ge> a\<close>, and its duration is not smaller, provided that
  \<open>b\<close> is below \<open>2 ^ 22\<close> for the three DMG classes with payload arithmetic (so that
  no 32-bit bit, codeword or chip count wraps) and that, for the last MPDU of an aggregate,
  the bytes already accumulated plus \<open>b\<close> fit in 32 bits, and that, for the DMG control
  class without a training field, \<open>a\<close> is at least 7 (so that the divisor
  \<open>Ncw - 1\<close> is not zero).
\<close>

theorem C8_monotone_amended:
  assumes ab: "a \<le> b"
    and dmg: "GetModulationClass (GetMode txVector) \<in> {WIFI_MOD_CLASS_DMG_CTRL,
                WIFI_MOD_CLASS_DMG_SC, WIFI_MOD_CLASS_DMG_OFDM} \<Longrightarrow> unat b < 2 ^ 22"
    and ctrl: "GetModulationClass (GetMode txVector) = WIFI_MOD_CLASS_DMG_CTRL
                \<Longrightarrow> GetTrainngFieldLength txVector = 0 \<Longrightarrow> 7 \<le> unat a"
    and wrap: "mpdutype = LAST_MPDU_IN_AGGREGATE
                \<Longrightarrow> unat (m_totalAmpduSize phy) + unat b < 2 ^ 32"
    and ra: "GetPayloadDuration K phy a txVector preamble frequency mpdutype incFlag = Inr (da, pa)"
  shows "\<exists>db pb. GetPayloadDuration K phy b txVector preamble frequency mpdutype incFlag
                    = Inr (db, pb) \<and> da \<le> db"
proof (cases "GetModulationClass (GetMode txVector)")
  case WIFI_MOD_CLASS_UNKNOWN
  with ra show ?thesis by (simp add: GetPayloadDuration_def)
next
  case WIFI_MOD_CLASS_DSSS
  with ra have "unchanged phy (GetPayloadDuration_DSSS a (GetMode txVector)) = Inr (da, pa)"
    by (simp add: GetPayloadDuration_def)
  from unchanged_mono [OF this GetPayloadDuration_DSSS_mono [OF ab]] WIFI_MOD_CLASS_DSSS show ?thesis
    by (simp add: GetPayloadDuration_def)
next
  case WIFI_MOD_CLASS_HR_DSSS
  with ra have "unchanged phy (GetPayloadDuration_DSSS a (GetMode txVector)) = Inr (da, pa)"
    by (simp add: GetPayloadDuration_def)
  from unchanged_mono [OF this GetPayloadDuration_DSSS_mono [OF ab]] WIFI_MOD_CLASS_HR_DSSS show ?thesis
    by (simp add: GetPayloadDuration_def)
next
  case WIFI_MOD_CLASS_ERP_OFDM
  then have "symbolic txVector" by (simp add: symbolic_def)
  from symbolic_mono [OF this ab wrap ra] show ?thesis .
next
  case WIFI_MOD_CLASS_OFDM
  then have "symbolic txVector" by (simp add: symbolic_def)
  from symbolic_mono [OF this ab wrap ra] show ?thesis .
next
  case WIFI_MOD_CLASS_HT
  then have "symbolic txVector" by (simp add: symbolic_def)
  from symbolic_mono [OF this ab wrap ra] show ?thesis .
next
  case WIFI_MOD_CLASS_VHT
  then have "symbolic txVector" by (simp add: symbolic_def)
  from symbolic_mono [OF this ab wrap ra] show ?thesis .
next
  case WIFI_MOD_CLASS_DMG_CTRL
  then have b: "unat b < 2 ^ 22" using dmg by simp
  from WIFI_MOD_CLASS_DMG_CTRL ra have "unchanged phy (GetPayloadDuration_DMG_CTRL a txVector) = Inr (da, pa)"
    by (simp add: GetPayloadDuration_def)
  from unchanged_mono [OF this GetPayloadDuration_DMG_CTRL_mono [OF ab b ctrl [OF WIFI_MOD_CLASS_DMG_CTRL]]]
    WIFI_MOD_CLASS_DMG_CTRL show ?thesis
    by (simp add: GetPayloadDuration_def)
next
  case WIFI_MOD_CLASS_DMG_OFDM
  then have b: "unat b < 2 ^ 22" using dmg by simp
  from WIFI_MOD_CLASS_DMG_OFDM ra have "unchanged phy (GetPayloadDuration_DMG_OFDM K a txVector) = Inr (da, pa)"
    by (simp add: GetPayloadDuration_def)
  from unchanged_mono [OF this GetPayloadDuration_DMG_OFDM_mono [OF ab b]] WIFI_MOD_CLASS_DMG_OFDM show ?thesis
    by (simp add: GetPayloadDuration_def)
next
  case WIFI_MOD_CLASS_DMG_SC
  then have b: "unat b < 2 ^ 22" using dmg by simp
  from WIFI_MOD_CLASS_DMG_SC ra have "unchanged phy (GetPayloadDuration_DMG_SC K a txVector) = Inr (da, pa)"
    by (simp add: GetPayloadDuration_def)
  from unchanged_mono [OF this GetPayloadDuration_DMG_SC_mono [OF ab b]] WIFI_MOD_CLASS_DMG_SC show ?thesis
    by (simp add: GetPayloadDuration_def)
next
  case WIFI_MOD_CLASS_DMG_LP_SC
  with ra show ?thesis by (simp add: GetPayloadDuration_def)
qed

theorem C8_monotone_amended_witness:
  "(1 :: uint32_t) \<le> 1000
   \<and> (\<exists>db pb. GetPayloadDuration floors_80211ad WifiPhy_init 1000 (txVector_of GetDMG_MCS2 2160)
         WIFI_PREAMBLE_LONG 60480 NORMAL_MPDU 0 = Inr (db, pb) \<and> 619 \<le> db)"
proof -
  have le: "(1 :: uint32_t) \<le> 1000" by simp
  have b: "unat (1000 :: uint32_t) < 2 ^ 22" by simp
  have c: "GetModulationClass (GetMode (txVector_of GetDMG_MCS2 2160)) = WIFI_MOD_CLASS_DMG_CTRL
      \<Longrightarrow> GetTrainngFieldLength (txVector_of GetDMG_MCS2 2160) = 0 \<Longrightarrow> 7 \<le> unat (1 :: uint32_t)"
    by (simp add: txVector_of_def GetDMG_MCS2_def)
  from C8_monotone_amended [OF le b c _ dmg_sc_1] le show ?thesis by simp
qed

section \<open>Aggregates\<close>

subsection \<open>An aggregate that fails the assertion of its last frame\<close>

lemma htmcs0_params:
  "symbolic (txVector_of GetHtMcs0 20)"
  "\<not> legacy (txVector_of GetHtMcs0 20)"
  "m_Stbc (txVector_of GetHtMcs0 20) = 1"
  "Nes (txVector_of GetHtMcs0 20) = 1"
  "numDataBitsPerSymbol_HT (txVector_of GetHtMcs0 20) = 26"
  "divisor (txVector_of GetHtMcs0 20) = 26"
  "Tsym_of (txVector_of GetHtMcs0 20) = 4000"
  "extension (txVector_of GetHtMcs0 20) 5180 mpdutype = 0"
  by (simp_all add: symbolic_def legacy_def divisor_def Tsym_of_def extension_def m_Stbc_def
      Nes_def numDataBitsPerSymbol_HT_def symbolDuration_HT_def txVector_of_def GetHtMcs0_def
      conv_defs double_defs)

lemma round_double_27_13: "round_double (27 / 13) = 4676814997653977 / 2251799813685248"
  by (subst round_double_eval [where k = 1]) (simp_all add: rhe_def)

lemma round_double_4_13: "round_double (4 / 13) = 1385722962267845 / 4503599627370496"
  by (subst round_double_eval [where k = "-2"]) (simp_all add: rhe_def)

lemma round_double_8_13: "round_double (8 / 13) = 1385722962267845 / 2251799813685248"
  by (subst round_double_eval [where k = "-1"]) (simp_all add: rhe_def)

lemma htmcs0_symbols:
  "firstSymbols (txVector_of GetHtMcs0 20) 4 = 4676814997653977 / 2251799813685248"
  "middleSymbols (txVector_of GetHtMcs0 20) 1 = 1385722962267845 / 4503599627370496"
  "middleSymbols (txVector_of GetHtMcs0 20) 2 = 1385722962267845 / 2251799813685248"
  "wholeSymbols (txVector_of GetHtMcs0 20) 7 = 3"
  by (simp_all add: firstSymbols_def middleSymbols_def wholeSymbols_def htmcs0_params
      double_defs to_double_def ceil_def lrint_def round_double_27_13 round_double_4_13
      round_double_8_13)

lemma htmcs0_sums:
  "dadd 0 (4676814997653977 / 2251799813685248) = 4676814997653977 / 2251799813685248"
  "dadd (4676814997653977 / 2251799813685248) (1385722962267845 / 4503599627370496)
     = 1342419119696975 / 562949953421312"
  "dadd (1342419119696975 / 562949953421312) (1385722962267845 / 2251799813685248)
     = 6755399441055745 / 2251799813685248"
  unfolding dadd_def
  by (subst round_double_eval [where k = 1]; simp add: rhe_def)+

lemma htmcs0_durations:
  "NanoSecondsD (dmul (4676814997653977 / 2251799813685248) 4000) = 8307"
  "NanoSecondsD (dmul (1385722962267845 / 4503599627370496) 4000) = 1230"
  "NanoSecondsD (dmul (1385722962267845 / 2251799813685248) 4000) = 2461"
proof -
  show "NanoSecondsD (dmul (4676814997653977 / 2251799813685248) 4000) = 8307"
    unfolding dmul_def NanoSecondsD_def
    by (subst round_double_eval [where k = 13]; simp add: rhe_def)
  show "NanoSecondsD (dmul (1385722962267845 / 4503599627370496) 4000) = 1230"
    unfolding dmul_def NanoSecondsD_def
    by (subst round_double_eval [where k = 10]; simp add: rhe_def)
  show "NanoSecondsD (dmul (1385722962267845 / 2251799813685248) 4000) = 2461"
    unfolding dmul_def NanoSecondsD_def
    by (subst round_double_eval [where k = 11]; simp add: rhe_def)
qed

text \<open>
  C4. The claim says that across a committed sequence of a first frame, following frames and
  a last frame, on an accumulator that starts at zero, the accumulated symbol count never
  exceeds the symbol count computed for the whole aggregate, and that the accumulator returns
  to zero when the last frame is processed. The symbols of the frames are quotients rounded
  to doubles and are added in doubles. At HT MCS 0 (26 data bits per symbol) the frames of
  4, 1 and 2 bytes count 54 / 26, 8 / 26 and 16 / 26 symbols, whose rounded sum is
  \<open>3 + 2 ^ -51\<close>, while the aggregate of 7 bytes counts 78 / 26 = 3 symbols: the
  assertion of the last-frame branch fails, the last call returns no duration and the
  accumulator is not reset.
\<close>

theorem C4_accumulator_overrun:
  "GetPayloadDuration floors_80211ad WifiPhy_init 4 (txVector_of GetHtMcs0 20)
     WIFI_PREAMBLE_HT_MF 5180 MPDU_IN_AGGREGATE 1
   = Inr (8307, \<lparr>m_totalAmpduSize = 4,
                  m_totalAmpduNumSymbols = 4676814997653977 / 2251799813685248\<rparr>)
   \<and> GetPayloadDuration floors_80211ad
       \<lparr>m_totalAmpduSize = 4, m_totalAmpduNumSymbols = 4676814997653977 / 2251799813685248\<rparr>
       1 (txVector_of GetHtMcs0 20) WIFI_PREAMBLE_NONE 5180 MPDU_IN_AGGREGATE 1
     = Inr (1230, \<lparr>m_totalAmpduSize = 5,
                    m_totalAmpduNumSymbols = 1342419119696975 / 562949953421312\<rparr>)
   \<and> GetPayloadDuration floors_80211ad
       \<lparr>m_totalAmpduSize = 5, m_totalAmpduNumSymbols = 1342419119696975 / 562949953421312\<rparr>
       2 (txVector_of GetHtMcs0 20) WIFI_PREAMBLE_NONE 5180 MPDU_IN_AGGREGATE 1
     = Inr (2461, \<lparr>m_totalAmpduSize = 7,
                    m_totalAmpduNumSymbols = 6755399441055745 / 2251799813685248\<rparr>)
   \<and> wholeSymbols (txVector_of GetHtMcs0 20) 7 = 3
   \<and> 6755399441055745 / 2251799813685248 = 3 + 1 / (2 ^ 51 :: real)
   \<and> GetPayloadDuration floors_80211ad
       \<lparr>m_totalAmpduSize = 7, m_totalAmpduNumSymbols = 6755399441055745 / 2251799813685248\<rparr>
       0 (txVector_of GetHtMcs0 20) WIFI_PREAMBLE_NONE 5180 LAST_MPDU_IN_AGGREGATE 1
     = Inl AssertFailed
   \<and> run floors_80211ad (txVector_of GetHtMcs0 20) 5180 WifiPhy_init
       (burst WIFI_PREAMBLE_HT_MF 4 [1, 2] 0) = Inl AssertFailed"
proof -
  note sym = htmcs0_params(1)
  have N: "divisor (txVector_of GetHtMcs0 20) \<noteq> 0" by (simp add: htmcs0_params)
  have pre: "WIFI_PREAMBLE_HT_MF \<noteq> WIFI_PREAMBLE_NONE" by simp
  have c1: "GetPayloadDuration floors_80211ad WifiPhy_init 4 (txVector_of GetHtMcs0 20)
     WIFI_PREAMBLE_HT_MF 5180 MPDU_IN_AGGREGATE 1
   = Inr (8307, \<lparr>m_totalAmpduSize = 4,
                  m_totalAmpduNumSymbols = 4676814997653977 / 2251799813685248\<rparr>)"
    unfolding call_first [OF sym pre N] htmcs0_symbols htmcs0_params
    by (simp add: WifiPhy_init_def htmcs0_sums htmcs0_durations)
  have c2: "GetPayloadDuration floors_80211ad
       \<lparr>m_totalAmpduSize = 4, m_totalAmpduNumSymbols = 4676814997653977 / 2251799813685248\<rparr>
       1 (txVector_of GetHtMcs0 20) WIFI_PREAMBLE_NONE 5180 MPDU_IN_AGGREGATE 1
     = Inr (1230, \<lparr>m_totalAmpduSize = 5,
                    m_totalAmpduNumSymbols = 1342419119696975 / 562949953421312\<rparr>)"
    unfolding call_middle [OF sym N] htmcs0_symbols htmcs0_params
    by (simp add: htmcs0_sums htmcs0_durations)
  have c3: "GetPayloadDuration floors_80211ad
       \<lparr>m_totalAmpduSize = 5, m_totalAmpduNumSymbols = 1342419119696975 / 562949953421312\<rparr>
       2 (txVector_of GetHtMcs0 20) WIFI_PREAMBLE_NONE 5180 MPDU_IN_AGGREGATE 1
     = Inr (2461, \<lparr>m_totalAmpduSize = 7,
                    m_totalAmpduNumSymbols = 6755399441055745 / 2251799813685248\<rparr>)"
    unfolding call_middle [OF sym N] htmcs0_symbols htmcs0_params
    by (simp add: htmcs0_sums htmcs0_durations)
  have c4: "GetPayloadDuration floors_80211ad
       \<lparr>m_totalAmpduSize = 7, m_totalAmpduNumSymbols = 6755399441055745 / 2251799813685248\<rparr>
       0 (txVector_of GetHtMcs0 20) WIFI_PREAMBLE_NONE 5180 LAST_MPDU_IN_AGGREGATE 1
     = Inl AssertFailed"
    by (rule call_last_overrun [OF sym N]) (simp add: htmcs0_symbols)
  have r: "run floors_80211ad (txVector_of GetHtMcs0 20) 5180 WifiPhy_init
       (burst WIFI_PREAMBLE_HT_MF 4 [1, 2] 0) = Inl AssertFailed"
    by (simp add: burst_def c1 c2 c3 c4)
  show ?thesis using c1 c2 c3 c4 r by (simp add: htmcs0_symbols)
qed

subsection \<open>Conservation of the duration across an aggregate\<close>

lemma frame_duration_bounds:
  assumes n: "0 \<le> n" and T: "0 \<le> T"
  shows "of_int (NanoSecondsD (dmul n T)) \<le> n * T * (1 + 1 / 2 ^ 53)"
    and "n * T * (1 - 1 / 2 ^ 53) - 1 \<le> of_int (NanoSecondsD (dmul n T))"
proof -
  have nT: "0 \<le> n * T" using n T by simp
  have e: "\<bar>round_double (n * T) - n * T\<bar> \<le> n * T / 2 ^ 53"
    by (rule round_double_rel(1) [OF nT])
  have f1: "of_int \<lfloor>round_double (n * T)\<rfloor> \<le> round_double (n * T)"
    and f2: "round_double (n * T) - 1 < of_int \<lfloor>round_double (n * T)\<rfloor>"
    by linarith+
  have x: "n * T * (1 + 1 / 2 ^ 53) = n * T + n * T / 2 ^ 53"
    and y: "n * T * (1 - 1 / 2 ^ 53) = n * T - n * T / 2 ^ 53"
    by (simp_all add: algebra_simps)
  show "of_int (NanoSecondsD (dmul n T)) \<le> n * T * (1 + 1 / 2 ^ 53)"
    unfolding NanoSecondsD_def dmul_def x using e f1 by linarith
  show "n * T * (1 - 1 / 2 ^ 53) - 1 \<le> of_int (NanoSecondsD (dmul n T))"
    unfolding NanoSecondsD_def dmul_def y using e f2 by linarith
qed

lemma firstSymbols_rep: "round_double (firstSymbols tv sz) = firstSymbols tv sz"
proof (cases "legacy tv")
  case True
  have "0 \<le> dadd (dadd 16 (dmul (to_double sz) 8)) 6 / numDataBitsPerSymbol_OFDM tv"
    by (intro divide_nonneg_nonneg symbol_intros)
  then show ?thesis
    by (simp only: firstSymbols_def True if_True ddiv_def round_double_idem)
next
  case False
  have "0 \<le> dmul (m_Stbc tv) (dadd (dadd 16 (dmul (to_double sz) 8)) (dmul 6 (Nes tv)))
             / dmul (m_Stbc tv) (numDataBitsPerSymbol_HT tv)"
    by (intro divide_nonneg_nonneg symbol_intros)
  then show ?thesis
    by (simp only: firstSymbols_def False if_False ddiv_def round_double_idem)
qed

lemma dadd_props:
  assumes A: "0 \<le> A" and rep: "round_double A = A" and n: "0 \<le> n"
  shows "A \<le> dadd A n" and "round_double (dadd A n) = dadd A n"
    and "\<bar>dadd A n - (A + n)\<bar> \<le> dadd A n / 2 ^ 53" and "0 \<le> dadd A n"
proof -
  have s: "0 \<le> A + n" using A n by simp
  have "round_double A \<le> round_double (A + n)" by (rule round_double_mono [OF A]) (use n in simp)
  then show "A \<le> dadd A n" by (simp add: rep dadd_def)
  show "round_double (dadd A n) = dadd A n" unfolding dadd_def by (rule round_double_idem [OF s])
  show "\<bar>dadd A n - (A + n)\<bar> \<le> dadd A n / 2 ^ 53"
    unfolding dadd_def by (rule round_double_rel(2) [OF s])
  show "0 \<le> dadd A n" unfolding dadd_def by (rule round_double_nonneg [OF s])
qed


lemma run_middles:
  assumes sym: "symbolic tv" and N: "divisor tv \<noteq> 0"
    and A: "0 \<le> m_totalAmpduNumSymbols phy"
           "round_double (m_totalAmpduNumSymbols phy) = m_totalAmpduNumSymbols phy"
  shows "\<exists>rs phy' S.
           (\<forall>calls. run K tv f phy
                      (map (\<lambda>s. (s, WIFI_PREAMBLE_NONE, MPDU_IN_AGGREGATE)) ms @ calls)
                    = (case run K tv f phy' calls of Inl e \<Rightarrow> Inl e | Inr rs' \<Rightarrow> Inr (rs @ rs')))
         \<and> length rs = length ms
         \<and> m_totalAmpduSize phy' = m_totalAmpduSize phy + sum_list ms
         \<and> m_totalAmpduNumSymbols phy \<le> m_totalAmpduNumSymbols phy'
         \<and> round_double (m_totalAmpduNumSymbols phy') = m_totalAmpduNumSymbols phy'
         \<and> 0 \<le> S
         \<and> \<bar>m_totalAmpduNumSymbols phy' - (m_totalAmpduNumSymbols phy + S)\<bar>
             \<le> real (length ms) * (m_totalAmpduNumSymbols phy' / 2 ^ 53)
         \<and> of_int (sum_list (map fst rs))
             \<le> S * of_int (Tsym_of tv) * (1 + 1 / 2 ^ 53)
               + real (length ms) * of_int (extension tv f MPDU_IN_AGGREGATE)
         \<and> S * of_int (Tsym_of tv) * (1 - 1 / 2 ^ 53) - real (length ms)
               + real (length ms) * of_int (extension tv f MPDU_IN_AGGREGATE)
             \<le> of_int (sum_list (map fst rs))"
  using A
proof (induction ms arbitrary: phy)
  case Nil
  then show ?case
    by (intro exI [of _ "[]"] exI [of _ phy] exI [of _ 0]) (simp split: sum.splits)
next
  case (Cons s ms)
  define T :: real where "T = of_int (Tsym_of tv)"
  define x :: real where "x = of_int (extension tv f MPDU_IN_AGGREGATE)"
  define n where "n = middleSymbols tv s"
  define A0 where "A0 = m_totalAmpduNumSymbols phy"
  define phy1 where "phy1 = phy\<lparr>m_totalAmpduSize := m_totalAmpduSize phy + s,
                               m_totalAmpduNumSymbols := dadd (m_totalAmpduNumSymbols phy) n\<rparr>"
  define d1 where "d1 = NanoSecondsD (dmul n (of_int (Tsym_of tv)))
                          + extension tv f MPDU_IN_AGGREGATE"
  have call: "GetPayloadDuration K phy s tv WIFI_PREAMBLE_NONE f MPDU_IN_AGGREGATE 1
                = Inr (d1, phy1)"
    unfolding d1_def phy1_def n_def by (simp add: call_middle [OF sym N])
  have n0: "0 \<le> n" unfolding n_def by (rule middleSymbols_nonneg)
  have T0: "0 \<le> T" unfolding T_def using Tsym_of_pos [of tv] by simp
  note p = dadd_props [OF Cons.prems(1) Cons.prems(2) n0]
  have A1: "0 \<le> m_totalAmpduNumSymbols phy1"
    "round_double (m_totalAmpduNumSymbols phy1) = m_totalAmpduNumSymbols phy1"
    using p by (simp_all add: phy1_def)
  have A01: "A0 \<le> m_totalAmpduNumSymbols phy1"
    and e1: "\<bar>m_totalAmpduNumSymbols phy1 - (A0 + n)\<bar> \<le> m_totalAmpduNumSymbols phy1 / 2 ^ 53"
    using p by (simp_all add: phy1_def A0_def)
  have sz1: "m_totalAmpduSize phy1 = m_totalAmpduSize phy + s" by (simp add: phy1_def)
  from Cons.IH [OF A1] obtain rs phy' S where
    r: "\<And>calls. run K tv f phy1
                      (map (\<lambda>s. (s, WIFI_PREAMBLE_NONE, MPDU_IN_AGGREGATE)) ms @ calls)
                    = (case run K tv f phy' calls of Inl e \<Rightarrow> Inl e | Inr rs' \<Rightarrow> Inr (rs @ rs'))"
    and len: "length rs = length ms"
    and sz: "m_totalAmpduSize phy' = m_totalAmpduSize phy1 + sum_list ms"
    and mono: "m_totalAmpduNumSymbols phy1 \<le> m_totalAmpduNumSymbols phy'"
    and rep: "round_double (m_totalAmpduNumSymbols phy') = m_totalAmpduNumSymbols phy'"
    and S0: "0 \<le> S"
    and e: "\<bar>m_totalAmpduNumSymbols phy' - (m_totalAmpduNumSymbols phy1 + S)\<bar>
             \<le> real (length ms) * (m_totalAmpduNumSymbols phy' / 2 ^ 53)"
    and up: "of_int (sum_list (map fst rs)) \<le> S * T * (1 + 1 / 2 ^ 53) + real (length ms) * x"
    and lo: "S * T * (1 - 1 / 2 ^ 53) - real (length ms) + real (length ms) * x
             \<le> of_int (sum_list (map fst rs))"
    unfolding T_def x_def by blast
  define A1v where "A1v = m_totalAmpduNumSymbols phy1"
  define A' where "A' = m_totalAmpduNumSymbols phy'"
  have c1: "\<forall>calls. run K tv f phy
                      (map (\<lambda>s. (s, WIFI_PREAMBLE_NONE, MPDU_IN_AGGREGATE)) (s # ms) @ calls)
                    = (case run K tv f phy' calls of Inl e \<Rightarrow> Inl e
                       | Inr rs' \<Rightarrow> Inr (((d1, phy1) # rs) @ rs'))"
    by (simp add: call r split: sum.splits)
  have c2: "length ((d1, phy1) # rs) = length (s # ms)" by (simp add: len)
  have c3: "m_totalAmpduSize phy' = m_totalAmpduSize phy + sum_list (s # ms)"
    by (simp add: sz sz1 add.assoc)
  have c4: "m_totalAmpduNumSymbols phy \<le> m_totalAmpduNumSymbols phy'"
    using A01 mono by (simp add: A0_def)
  have c6: "0 \<le> n + S" using n0 S0 by simp
  have q: "m_totalAmpduNumSymbols phy1 / 2 ^ 53 \<le> m_totalAmpduNumSymbols phy' / 2 ^ 53"
    using mono by (simp add: divide_right_mono)
  have "real (length (s # ms)) * (A' / 2 ^ 53) = real (length ms) * (A' / 2 ^ 53) + A' / 2 ^ 53"
    by (simp add: algebra_simps)
  then have c7: "\<bar>m_totalAmpduNumSymbols phy' - (m_totalAmpduNumSymbols phy + (n + S))\<bar>
             \<le> real (length (s # ms)) * (m_totalAmpduNumSymbols phy' / 2 ^ 53)"
    using e e1 q unfolding A0_def A'_def by linarith
  have fd: "of_int (NanoSecondsD (dmul n T)) \<le> n * T * (1 + 1 / 2 ^ 53)"
           "n * T * (1 - 1 / 2 ^ 53) - 1 \<le> of_int (NanoSecondsD (dmul n T))"
    by (rule frame_duration_bounds [OF n0 T0])+
  have sm: "real_of_int (sum_list (map fst ((d1, phy1) # rs)))
              = of_int (NanoSecondsD (dmul n T)) + x + of_int (sum_list (map fst rs))"
    by (simp add: d1_def T_def x_def)
  have lm: "real (length (s # ms)) * x = real (length ms) * x + x" by (simp add: algebra_simps)
  have d1: "(n + S) * T * (1 + 1 / 2 ^ 53) = n * T * (1 + 1 / 2 ^ 53) + S * T * (1 + 1 / 2 ^ 53)"
    and d2: "(n + S) * T * (1 - 1 / 2 ^ 53) = n * T * (1 - 1 / 2 ^ 53) + S * T * (1 - 1 / 2 ^ 53)"
    by (simp_all add: algebra_simps)
  have c8: "of_int (sum_list (map fst ((d1, phy1) # rs)))
             \<le> (n + S) * T * (1 + 1 / 2 ^ 53) + real (length (s # ms)) * x"
    unfolding sm lm d1 using fd(1) up by linarith
  have c9: "(n + S) * T * (1 - 1 / 2 ^ 53) - real (length (s # ms)) + real (length (s # ms)) * x
             \<le> of_int (sum_list (map fst ((d1, phy1) # rs)))"
    unfolding sm lm d2 using fd(2) lo by simp
  show ?case
    using c1 c2 c3 c4 rep c6 c7 c8 c9 unfolding T_def x_def
    by (intro exI [of _ "(d1, phy1) # rs"] exI [of _ phy'] exI [of _ "n + S"] conjI)
qed


lemma wholeSymbols_int: "\<exists>k. 0 \<le> k \<and> wholeSymbols tv sz = long_to_double k"
proof (cases "legacy tv")
  case True
  have "0 \<le> lrint (ceil (ddiv (dadd (dadd 16 (dmul (to_double sz) 8)) 6)
                              (numDataBitsPerSymbol_OFDM tv)))"
    by (intro symbol_intros)
  then show ?thesis unfolding wholeSymbols_def using True by (intro exI conjI) simp_all
next
  case False
  have "0 \<le> lrint (dmul (m_Stbc tv) (ceil
             (ddiv (dadd (dadd 16 (dmul (to_double sz) 8)) (dmul 6 (Nes tv)))
                (dmul (m_Stbc tv) (numDataBitsPerSymbol_HT tv)))))"
    by (intro symbol_intros)
  then show ?thesis unfolding wholeSymbols_def using False by (intro exI conjI) simp_all
qed

lemma whole_product:
  fixes k T c :: int
  assumes k: "0 \<le> k" and T: "1 \<le> T" and c: "2 \<le> c"
    and small: "c * NanoSecondsD (dmul (long_to_double k) (of_int T)) \<le> 2 ^ 53"
  shows "long_to_double k = of_int k"
    and "NanoSecondsD (dmul (long_to_double k) (of_int T)) = k * T"
    and "k * T \<le> 2 ^ 53"
proof -
  have r53: "round_double (2 ^ 53) = 2 ^ 53" using round_double_of_nat [of "2 ^ 53"] by simp
  have big: "2 ^ 53 \<le> NanoSecondsD (round_double y)" if "2 ^ 53 \<le> y" for y
  proof -
    have "round_double (2 ^ 53) \<le> round_double y" by (rule round_double_mono) (use that in simp_all)
    then have "(2 ^ 53 :: real) \<le> round_double y" by (simp add: r53)
    then have "(2 ^ 53 :: int) \<le> \<lfloor>round_double y\<rfloor>" by (simp add: le_floor_iff)
    then show ?thesis by (simp add: NanoSecondsD_def)
  qed
  have contra: False if "2 ^ 53 \<le> long_to_double k * of_int T"
  proof -
    have "2 ^ 53 \<le> NanoSecondsD (dmul (long_to_double k) (of_int T))"
      unfolding dmul_def by (rule big [OF that])
    then have "2 * 2 ^ 53 \<le> c * NanoSecondsD (dmul (long_to_double k) (of_int T))"
      using c by (intro mult_mono) simp_all
    with small show False by simp
  qed
  have T1: "(1::real) \<le> of_int T" using T by simp
  have k53: "k \<le> 2 ^ 53"
  proof (rule ccontr)
    assume "\<not> k \<le> 2 ^ 53"
    then have "(2 ^ 53 :: real) \<le> of_int k" by (simp add: of_int_le_iff [symmetric] del: of_int_le_iff)
    then have "round_double (2 ^ 53) \<le> round_double (of_int k)"
      by (intro round_double_mono) simp_all
    then have "2 ^ 53 \<le> long_to_double k" by (simp add: r53 long_to_double_def)
    then have "2 ^ 53 * 1 \<le> long_to_double k * of_int T"
      using T1 by (intro mult_mono) simp_all
    then show False using contra by simp
  qed
  have "nat k \<le> 2 ^ 53" using k53 k by (simp add: nat_le_iff)
  from round_double_of_nat [OF this] show W: "long_to_double k = of_int k"
    using k by (simp add: long_to_double_def)
  show kT: "k * T \<le> 2 ^ 53"
  proof (rule ccontr)
    assume "\<not> k * T \<le> 2 ^ 53"
    then have "(2 ^ 53 :: int) \<le> k * T" by simp
    then have "real_of_int (2 ^ 53) \<le> of_int (k * T)" by (simp only: of_int_le_iff)
    then have "2 ^ 53 \<le> long_to_double k * of_int T" by (simp add: W)
    then show False by (rule contra)
  qed
  have "0 \<le> k * T" using k T by simp
  then have "nat (k * T) \<le> 2 ^ 53" using kT by (simp add: nat_le_iff)
  from round_double_of_nat [OF this] have "round_double (of_int (k * T)) = of_int (k * T)"
    using \<open>0 \<le> k * T\<close> by simp
  moreover have "\<lfloor>real_of_int (k * T)\<rfloor> = k * T" by (rule floor_of_int)
  ultimately show "NanoSecondsD (dmul (long_to_double k) (of_int T)) = k * T"
    by (simp add: W dmul_def NanoSecondsD_def)
qed

lemma conservation_arith:
  fixes W T S D :: real and m :: nat
  assumes W: "0 \<le> W" and T: "0 \<le> T" and P01: "W * T = 0 \<or> 1 \<le> W * T"
    and small: "(real m + 4) * (W * T) \<le> 2 ^ 53"
    and h1: "\<bar>S - W\<bar> \<le> (real m + 1) * (W / 2 ^ 53)"
    and h2: "D \<le> S * T * (1 + 1 / 2 ^ 53)"
    and h3: "S * T * (1 - 1 / 2 ^ 53) - (real m + 2) \<le> D"
  shows "D < W * T + 1" and "W * T - (real m + 2) - 1 < D"
proof -
  define u :: real where "u = 1 / 2 ^ 53"
  define P where "P = W * T"
  define e where "e = P * u"
  have u: "0 < u" "u \<le> 1" by (simp_all add: u_def)
  have P0: "0 \<le> P" using W T by (simp add: P_def)
  have e0: "0 \<le> e" using P0 u by (simp add: e_def)
  have "(real m + 4) * P * u \<le> 2 ^ 53 * u"
    using small u(1) unfolding P_def by (intro mult_right_mono) simp_all
  then have me: "(real m + 4) * e \<le> 1" by (simp add: e_def u_def mult.assoc)
  have mu: "(real m + 1) * u * e \<le> e"
  proof (cases "P = 0")
    case True
    then show ?thesis by (simp add: e_def)
  next
    case False
    then have "1 \<le> P" using P01 by (simp add: P_def)
    then have "(real m + 4) * 1 \<le> (real m + 4) * P" by (intro mult_left_mono) simp_all
    then have "real m + 4 \<le> (real m + 4) * P" by simp
    also have "\<dots> \<le> 2 ^ 53" using small by (simp only: P_def)
    finally have "real m + 4 \<le> 2 ^ 53" .
    then have "(real m + 1) * u \<le> 2 ^ 53 * u" using u(1) by (intro mult_right_mono) simp_all
    then have "(real m + 1) * u \<le> 1" by (simp add: u_def)
    then have "(real m + 1) * u * e \<le> 1 * e" using e0 by (intro mult_right_mono)
    then show ?thesis by simp
  qed
  have m2: "(real m + 2) * e < 1" and m3: "(real m + 3) * e < 1"
  proof -
    have "(real m + 2) * e \<le> (real m + 3) * e" using e0 by (intro mult_right_mono) simp_all
    moreover have "(real m + 3) * e < 1"
    proof (cases "e = 0")
      case True
      then show ?thesis by simp
    next
      case False
      then have "0 < e" using e0 by simp
      then have "(real m + 3) * e < (real m + 4) * e" by (intro mult_strict_right_mono) simp_all
      with me show ?thesis by simp
    qed
    ultimately show "(real m + 2) * e < 1" "(real m + 3) * e < 1" by simp_all
  qed
  have eq1: "(W + (real m + 1) * (W / 2 ^ 53)) * T = P + (real m + 1) * e"
    and eq2: "(W - (real m + 1) * (W / 2 ^ 53)) * T = P - (real m + 1) * e"
    by (simp_all add: e_def P_def u_def algebra_simps)
  have S1: "S \<le> W + (real m + 1) * (W / 2 ^ 53)"
    and S2: "W - (real m + 1) * (W / 2 ^ 53) \<le> S"
    using h1 by linarith+
  have ST: "S * T \<le> P + (real m + 1) * e" "P - (real m + 1) * e \<le> S * T"
    using mult_right_mono [OF S1 T] mult_right_mono [OF S2 T] unfolding eq1 eq2 .
  have "S * T * (1 + u) \<le> (P + (real m + 1) * e) * (1 + u)"
    using ST(1) u by (intro mult_right_mono) simp_all
  also have "\<dots> = P + (real m + 2) * e + (real m + 1) * u * e"
    by (simp add: algebra_simps e_def)
  also have "\<dots> \<le> P + (real m + 2) * e + e" using mu by simp
  also have "\<dots> = P + (real m + 3) * e" by (simp add: algebra_simps)
  also have "\<dots> < P + 1" using m3 by simp
  finally show "D < W * T + 1" using h2 by (simp add: u_def P_def)
  have "P - (real m + 2) * e \<le> P - (real m + 2) * e + (real m + 1) * u * e"
    using e0 u by simp
  also have "\<dots> = (P - (real m + 1) * e) * (1 - u)" by (simp add: algebra_simps e_def)
  also have "\<dots> \<le> S * T * (1 - u)" using ST(2) u by (intro mult_right_mono) simp_all
  finally have "P - (real m + 2) * e - (real m + 2) \<le> D" using h3 by (simp add: u_def)
  then show "W * T - (real m + 2) - 1 < D" using m2 by (simp add: P_def)
qed


lemma extension_last: "extension tv f LAST_MPDU_IN_AGGREGATE = extension tv f NORMAL_MPDU"
  by (simp add: extension_def)

lemma extension_nonneg: "0 \<le> extension tv f mpdutype"
  by (simp add: extension_def MicroSeconds_def)

lemma run_burst:
  assumes sym: "symbolic tv" and pre: "preamble \<noteq> WIFI_PREAMBLE_NONE"
    and run: "run K tv f WifiPhy_init (burst preamble s1 mids sk) = Inr rs"
  shows "divisor tv \<noteq> 0"
    and "length rs = length mids + 2"
    and "\<exists>S. \<bar>S - wholeSymbols tv (s1 + sum_list mids + sk)\<bar>
               \<le> (real (length mids) + 1) * (wholeSymbols tv (s1 + sum_list mids + sk) / 2 ^ 53)
           \<and> real_of_int (sum_list (map fst rs)
                   - (int (length mids) + 1) * extension tv f MPDU_IN_AGGREGATE
                   - extension tv f NORMAL_MPDU)
               \<le> S * of_int (Tsym_of tv) * (1 + 1 / 2 ^ 53)
           \<and> S * of_int (Tsym_of tv) * (1 - 1 / 2 ^ 53) - (real (length mids) + 2)
               \<le> real_of_int (sum_list (map fst rs)
                   - (int (length mids) + 1) * extension tv f MPDU_IN_AGGREGATE
                   - extension tv f NORMAL_MPDU)"
proof -
  show N: "divisor tv \<noteq> 0"
  proof
    assume "divisor tv = 0"
    from call_zero_divisor [OF sym this, of K WifiPhy_init s1 preamble f MPDU_IN_AGGREGATE 1]
    obtain e where "GetPayloadDuration K WifiPhy_init s1 tv preamble f MPDU_IN_AGGREGATE 1 = Inl e"
      by blast
    then show False using run by (simp add: burst_def)
  qed
  define T :: real where "T = of_int (Tsym_of tv)"
  define x where "x = extension tv f MPDU_IN_AGGREGATE"
  define xl where "xl = extension tv f NORMAL_MPDU"
  define m where "m = length mids"
  define n1 where "n1 = firstSymbols tv s1"
  define phy1 where "phy1 = \<lparr>m_totalAmpduSize = s1, m_totalAmpduNumSymbols = n1\<rparr>"
  define d1 where "d1 = NanoSecondsD (dmul n1 T) + x"
  have T0: "0 \<le> T" unfolding T_def using Tsym_of_pos [of tv] by simp
  have n0: "0 \<le> n1" unfolding n1_def by (rule firstSymbols_nonneg)
  have rep1: "round_double n1 = n1" unfolding n1_def by (rule firstSymbols_rep)
  have first: "GetPayloadDuration K WifiPhy_init s1 tv preamble f MPDU_IN_AGGREGATE 1
                 = Inr (d1, phy1)"
    unfolding call_first [OF sym pre N]
    by (simp add: WifiPhy_init_def d1_def phy1_def n1_def T_def x_def dadd_def firstSymbols_rep)
  have A1: "0 \<le> m_totalAmpduNumSymbols phy1"
    "round_double (m_totalAmpduNumSymbols phy1) = m_totalAmpduNumSymbols phy1"
    using n0 rep1 by (simp_all add: phy1_def)
  from run_middles [OF sym N A1, of K f mids] obtain rsm phy2 S where
    r: "\<And>calls. run K tv f phy1
                      (map (\<lambda>s. (s, WIFI_PREAMBLE_NONE, MPDU_IN_AGGREGATE)) mids @ calls)
                    = (case run K tv f phy2 calls of Inl e \<Rightarrow> Inl e | Inr rs' \<Rightarrow> Inr (rsm @ rs'))"
    and len: "length rsm = m"
    and sz: "m_totalAmpduSize phy2 = m_totalAmpduSize phy1 + sum_list mids"
    and mono: "m_totalAmpduNumSymbols phy1 \<le> m_totalAmpduNumSymbols phy2"
    and S0: "0 \<le> S"
    and e: "\<bar>m_totalAmpduNumSymbols phy2 - (m_totalAmpduNumSymbols phy1 + S)\<bar>
             \<le> real m * (m_totalAmpduNumSymbols phy2 / 2 ^ 53)"
    and up: "of_int (sum_list (map fst rsm)) \<le> S * T * (1 + 1 / 2 ^ 53) + real m * of_int x"
    and lo: "S * T * (1 - 1 / 2 ^ 53) - real m + real m * of_int x
             \<le> of_int (sum_list (map fst rsm))"
    unfolding T_def x_def m_def by blast
  define A where "A = m_totalAmpduNumSymbols phy2"
  define W where "W = wholeSymbols tv (s1 + sum_list mids + sk)"
  have sz2: "m_totalAmpduSize phy2 + sk = s1 + sum_list mids + sk"
    by (simp add: sz phy1_def)
  have A0: "0 \<le> A" and n1A: "n1 \<le> A" using mono n0 by (simp_all add: A_def phy1_def)
  have e': "\<bar>A - (n1 + S)\<bar> \<le> real m * (A / 2 ^ 53)" using e by (simp add: A_def phy1_def)
  have whole: "run K tv f WifiPhy_init (burst preamble s1 mids sk)
                 = (case run K tv f phy2 [(sk, WIFI_PREAMBLE_NONE, LAST_MPDU_IN_AGGREGATE)] of
                      Inl e \<Rightarrow> Inl e | Inr rs' \<Rightarrow> Inr ((d1, phy1) # rsm @ rs'))"
    by (simp add: burst_def first r split: sum.splits)
  have AW: "A \<le> W"
  proof (rule ccontr)
    assume "\<not> A \<le> W"
    then have "wholeSymbols tv (m_totalAmpduSize phy2 + sk) < m_totalAmpduNumSymbols phy2"
      by (simp add: sz2 A_def W_def)
    from call_last_overrun [OF sym N this, of K f 1] show False
      using run by (simp add: whole)
  qed
  then have le: "m_totalAmpduNumSymbols phy2 \<le> wholeSymbols tv (m_totalAmpduSize phy2 + sk)"
    by (simp add: sz2 A_def W_def)
  define nk where "nk = dsub W A"
  define dk where "dk = NanoSecondsD (dmul nk T) + xl"
  have last: "GetPayloadDuration K phy2 sk tv WIFI_PREAMBLE_NONE f LAST_MPDU_IN_AGGREGATE 1
                = Inr (dk, phy2\<lparr>m_totalAmpduSize := 0, m_totalAmpduNumSymbols := 0\<rparr>)"
    unfolding call_last [OF sym N le]
    by (simp add: dk_def nk_def sz2 A_def W_def T_def xl_def extension_last)
  have rs: "rs = (d1, phy1) # rsm @ [(dk, phy2\<lparr>m_totalAmpduSize := 0, m_totalAmpduNumSymbols := 0\<rparr>)]"
    using run by (simp add: whole last)
  have WA: "0 \<le> W - A" using AW by simp
  have nk0: "0 \<le> nk" unfolding nk_def dsub_def by (rule round_double_nonneg [OF WA])
  have "\<bar>nk - (W - A)\<bar> \<le> (W - A) / 2 ^ 53"
    unfolding nk_def dsub_def by (rule round_double_rel(1) [OF WA])
  moreover have "(W - A) / 2 ^ 53 \<le> W / 2 ^ 53" using A0 by (simp add: divide_right_mono)
  ultimately have ek: "\<bar>nk - (W - A)\<bar> \<le> W / 2 ^ 53" by simp
  have "real m * (A / 2 ^ 53) \<le> real m * (W / 2 ^ 53)"
    using AW by (intro mult_left_mono divide_right_mono) simp_all
  then have em: "\<bar>A - (n1 + S)\<bar> \<le> real m * (W / 2 ^ 53)" using e' by simp
  have "(real m + 1) * (W / 2 ^ 53) = real m * (W / 2 ^ 53) + W / 2 ^ 53"
    by (simp add: algebra_simps)
  then have h1: "\<bar>(n1 + S + nk) - W\<bar> \<le> (real m + 1) * (W / 2 ^ 53)"
    using ek em by linarith
  have f1: "of_int (NanoSecondsD (dmul n1 T)) \<le> n1 * T * (1 + 1 / 2 ^ 53)"
           "n1 * T * (1 - 1 / 2 ^ 53) - 1 \<le> of_int (NanoSecondsD (dmul n1 T))"
    by (rule frame_duration_bounds [OF n0 T0])+
  have fk: "of_int (NanoSecondsD (dmul nk T)) \<le> nk * T * (1 + 1 / 2 ^ 53)"
           "nk * T * (1 - 1 / 2 ^ 53) - 1 \<le> of_int (NanoSecondsD (dmul nk T))"
    by (rule frame_duration_bounds [OF nk0 T0])+
  define D where "D = real_of_int (sum_list (map fst rs) - (int m + 1) * x - xl)"
  have D: "D = of_int (NanoSecondsD (dmul n1 T)) + (of_int (sum_list (map fst rsm)) - real m * of_int x)
                + of_int (NanoSecondsD (dmul nk T))"
    by (simp add: D_def rs d1_def dk_def algebra_simps)
  have p1: "(n1 + S + nk) * T * (1 + 1 / 2 ^ 53)
              = n1 * T * (1 + 1 / 2 ^ 53) + S * T * (1 + 1 / 2 ^ 53) + nk * T * (1 + 1 / 2 ^ 53)"
    and p2: "(n1 + S + nk) * T * (1 - 1 / 2 ^ 53)
              = n1 * T * (1 - 1 / 2 ^ 53) + S * T * (1 - 1 / 2 ^ 53) + nk * T * (1 - 1 / 2 ^ 53)"
    by (simp_all add: algebra_simps)
  have h2: "D \<le> (n1 + S + nk) * T * (1 + 1 / 2 ^ 53)"
    unfolding D p1 using f1(1) fk(1) up by linarith
  have h3: "(n1 + S + nk) * T * (1 - 1 / 2 ^ 53) - (real m + 2) \<le> D"
    unfolding D p2 using f1(2) fk(2) lo by linarith
  show "length rs = length mids + 2" by (simp add: rs len m_def)
  show "\<exists>S. \<bar>S - wholeSymbols tv (s1 + sum_list mids + sk)\<bar>
               \<le> (real (length mids) + 1) * (wholeSymbols tv (s1 + sum_list mids + sk) / 2 ^ 53)
           \<and> real_of_int (sum_list (map fst rs)
                   - (int (length mids) + 1) * extension tv f MPDU_IN_AGGREGATE
                   - extension tv f NORMAL_MPDU)
               \<le> S * of_int (Tsym_of tv) * (1 + 1 / 2 ^ 53)
           \<and> S * of_int (Tsym_of tv) * (1 - 1 / 2 ^ 53) - (real (length mids) + 2)
               \<le> real_of_int (sum_list (map fst rs)
                   - (int (length mids) + 1) * extension tv f MPDU_IN_AGGREGATE
                   - extension tv f NORMAL_MPDU)"
    using h1 h2 h3 unfolding W_def D_def T_def x_def xl_def m_def
    by (intro exI [of _ "n1 + S + nk"] conjI)
qed


lemma extension_in_aggregate:
  "extension tv f MPDU_IN_AGGREGATE
     = (if GetModulationClass (GetMode tv) = WIFI_MOD_CLASS_ERP_OFDM then MicroSeconds 6 else 0)"
  by (simp add: extension_def)

lemma conservation:
  assumes sym: "symbolic tv" and pre: "preamble \<noteq> WIFI_PREAMBLE_NONE"
    and run: "run K tv f WifiPhy_init (burst preamble s1 mids sk) = Inr rs"
    and normal: "GetPayloadDuration K phy (s1 + sum_list mids + sk) tv preamble f NORMAL_MPDU
                   incFlag = Inr (d, phy')"
    and small: "(int (length mids) + 4) * d \<le> 2 ^ 53"
  shows "d + (int (length mids) + 1) * extension tv f MPDU_IN_AGGREGATE - (int (length mids) + 2)
           \<le> sum_list (map fst rs)"
    and "sum_list (map fst rs) \<le> d + (int (length mids) + 1) * extension tv f MPDU_IN_AGGREGATE"
proof -
  define m where "m = length mids"
  define T where "T = Tsym_of tv"
  define x where "x = extension tv f MPDU_IN_AGGREGATE"
  define xn where "xn = extension tv f NORMAL_MPDU"
  define sz where "sz = s1 + sum_list mids + sk"
  define \<Sigma> where "\<Sigma> = sum_list (map fst rs)"
  note b = run_burst [OF sym pre run]
  from b(3) obtain S where
    h1: "\<bar>S - wholeSymbols tv sz\<bar> \<le> (real m + 1) * (wholeSymbols tv sz / 2 ^ 53)"
    and h2: "real_of_int (\<Sigma> - (int m + 1) * x - xn) \<le> S * of_int T * (1 + 1 / 2 ^ 53)"
    and h3: "S * of_int T * (1 - 1 / 2 ^ 53) - (real m + 2) \<le> real_of_int (\<Sigma> - (int m + 1) * x - xn)"
    unfolding m_def T_def x_def xn_def sz_def \<Sigma>_def by blast
  from wholeSymbols_int [of tv sz] obtain k where k0: "0 \<le> k"
    and Wk: "wholeSymbols tv sz = long_to_double k" by blast
  define D0 where "D0 = NanoSecondsD (dmul (long_to_double k) (of_int T))"
  have d: "d = D0 + xn"
    using normal unfolding call_normal [OF sym pre b(1)]
    by (simp add: D0_def xn_def T_def sz_def Wk [unfolded sz_def])
  have T1: "1 \<le> T" unfolding T_def using Tsym_of_pos [of tv] by simp
  have xn0: "0 \<le> xn" unfolding xn_def by (rule extension_nonneg)
  have c: "2 \<le> int m + 4" by simp
  have "D0 \<le> d" using xn0 by (simp add: d)
  then have "(int m + 4) * D0 \<le> (int m + 4) * d" by (intro mult_left_mono) simp_all
  also have "\<dots> \<le> 2 ^ 53" using small by (simp only: m_def)
  finally have small': "(int m + 4) * D0 \<le> 2 ^ 53" .
  note w = whole_product [OF k0 T1 c small' [unfolded D0_def]]
  have W: "wholeSymbols tv sz = of_int k" using w(1) Wk by simp
  have D0: "D0 = k * T" using w(2) by (simp add: D0_def)
  have kT0: "0 \<le> k * T" using k0 T1 by simp
  have a1: "(0::real) \<le> of_int k" using k0 by simp
  have a2: "(0::real) \<le> of_int T" using T1 by simp
  have a3: "real_of_int k * of_int T = 0 \<or> 1 \<le> real_of_int k * of_int T"
  proof (cases "k * T = 0")
    case True
    then have "real_of_int (k * T) = 0" by simp
    then show ?thesis by simp
  next
    case False
    then have "k * T \<noteq> 0" .
    then have "1 \<le> k * T" using kT0 by linarith
    then have "real_of_int 1 \<le> of_int (k * T)" by (simp only: of_int_le_iff)
    then show ?thesis by simp
  qed
  have "real_of_int ((int m + 4) * (k * T)) \<le> of_int (2 ^ 53)"
    using small' unfolding D0 by (simp only: of_int_le_iff)
  then have a4: "(real m + 4) * (real_of_int k * of_int T) \<le> 2 ^ 53" by simp
  note r = conservation_arith [OF a1 a2 a3 a4 h1 [unfolded W] h2 h3]
  have "real_of_int (\<Sigma> - (int m + 1) * x - xn) < of_int (k * T + 1)" using r(1) by simp
  then have u: "\<Sigma> - (int m + 1) * x - xn < k * T + 1" by (simp only: of_int_less_iff)
  have "real_of_int (k * T - (int m + 2) - 1) < of_int (\<Sigma> - (int m + 1) * x - xn)"
    using r(2) by simp
  then have l: "k * T - (int m + 2) - 1 < \<Sigma> - (int m + 1) * x - xn" by (simp only: of_int_less_iff)
  show "d + (int (length mids) + 1) * extension tv f MPDU_IN_AGGREGATE - (int (length mids) + 2)
           \<le> sum_list (map fst rs)"
    using l unfolding d D0 m_def [symmetric] x_def [symmetric] \<Sigma>_def [symmetric] by linarith
  show "sum_list (map fst rs) \<le> d + (int (length mids) + 1) * extension tv f MPDU_IN_AGGREGATE"
    using u unfolding d D0 m_def [symmetric] x_def [symmetric] \<Sigma>_def [symmetric] by linarith
qed


lemma conservation_arith_general:
  fixes W T S D D0 :: real and m :: nat
  assumes W: "0 \<le> W" and T: "0 \<le> T"
    and h1: "\<bar>S - W\<bar> \<le> (real m + 1) * (W / 2 ^ 53)"
    and h2: "D \<le> S * T * (1 + 1 / 2 ^ 53)"
    and h3: "S * T * (1 - 1 / 2 ^ 53) - (real m + 2) \<le> D"
    and f1: "D0 \<le> W * T * (1 + 1 / 2 ^ 53)"
    and f2: "W * T * (1 - 1 / 2 ^ 53) - 1 \<le> D0"
  shows "\<bar>D - D0\<bar> \<le> (real m + 2) + (real m + 4) * (D0 + 1) / 2 ^ 52"
proof -
  define u :: real where "u = 1 / 2 ^ 53"
  define P where "P = W * T"
  define e where "e = P * u"
  define c where "c = (real m + 3) + (real m + 1) * u"
  have u: "0 < u" "u \<le> 1" "0 < 1 - u" by (simp_all add: u_def)
  have P0: "0 \<le> P" using W T by (simp add: P_def)
  have e0: "0 \<le> e" using P0 u by (simp add: e_def)
  have c0: "0 \<le> c" using u by (simp add: c_def)
  have eq1: "(W + (real m + 1) * (W / 2 ^ 53)) * T = P + (real m + 1) * e"
    and eq2: "(W - (real m + 1) * (W / 2 ^ 53)) * T = P - (real m + 1) * e"
    by (simp_all add: e_def P_def u_def algebra_simps)
  have S1: "S \<le> W + (real m + 1) * (W / 2 ^ 53)"
    and S2: "W - (real m + 1) * (W / 2 ^ 53) \<le> S"
    using h1 by linarith+
  have ST: "S * T \<le> P + (real m + 1) * e" "P - (real m + 1) * e \<le> S * T"
    using mult_right_mono [OF S1 T] mult_right_mono [OF S2 T] unfolding eq1 eq2 .
  have g1: "D0 \<le> P + e" and g2: "P - e - 1 \<le> D0"
    using f1 f2 by (simp_all add: P_def e_def u_def algebra_simps)
  have "S * T * (1 + u) \<le> (P + (real m + 1) * e) * (1 + u)"
    using ST(1) u by (intro mult_right_mono) simp_all
  also have "\<dots> = P + (real m + 2) * e + (real m + 1) * u * e"
    by (simp add: algebra_simps e_def)
  finally have up: "D \<le> P + (real m + 2) * e + (real m + 1) * u * e"
    using h2 by (simp add: u_def)
  have mue: "0 \<le> (real m + 1) * u * e" using u e0 by simp
  have "P - (real m + 2) * e \<le> P - (real m + 2) * e + (real m + 1) * u * e"
    using mue by simp
  also have "\<dots> = (P - (real m + 1) * e) * (1 - u)" by (simp add: algebra_simps e_def)
  also have "\<dots> \<le> S * T * (1 - u)" using ST(2) u by (intro mult_right_mono) simp_all
  finally have lo: "P - (real m + 2) * e - (real m + 2) \<le> D" using h3 by (simp add: u_def)
  have ce: "c * e = (real m + 3) * e + (real m + 1) * u * e" by (simp add: c_def algebra_simps)
  have d1: "D - D0 \<le> c * e + 1" unfolding ce using up g2 by (simp add: algebra_simps)
  have d2: "D0 - D \<le> c * e + (real m + 2)" unfolding ce using lo g1 mue by (simp add: algebra_simps)
  have D1: "0 \<le> (D0 + 1) * u"
  proof -
    have "0 \<le> P * (1 - u)" using P0 u by simp
    also have "\<dots> = P - e" by (simp add: e_def algebra_simps)
    finally have "0 \<le> D0 + 1" using g2 by simp
    then show ?thesis using u by simp
  qed
  have "e * (1 - u) = (P - e) * u" by (simp add: e_def algebra_simps)
  also have "\<dots> \<le> (D0 + 1) * u" using g2 u by (intro mult_right_mono) simp_all
  finally have e1: "e * (1 - u) \<le> (D0 + 1) * u" .
  have cb: "c \<le> 2 * (real m + 4) * (1 - u)" by (simp add: c_def u_def algebra_simps)
  have "c * e * (1 - u) = c * (e * (1 - u))" by simp
  also have "\<dots> \<le> c * ((D0 + 1) * u)" using e1 c0 by (intro mult_left_mono)
  also have "\<dots> \<le> 2 * (real m + 4) * (1 - u) * ((D0 + 1) * u)"
    using cb D1 by (intro mult_right_mono)
  also have "\<dots> = (real m + 4) * (D0 + 1) / 2 ^ 52 * (1 - u)" by (simp add: u_def)
  finally have "c * e \<le> (real m + 4) * (D0 + 1) / 2 ^ 52"
    using u(3) by (simp only: mult_le_cancel_right_pos)
  then show ?thesis using d1 d2 by (simp add: abs_le_iff)
qed


lemma conservation_general:
  assumes sym: "symbolic tv" and pre: "preamble \<noteq> WIFI_PREAMBLE_NONE"
    and run: "run K tv f WifiPhy_init (burst preamble s1 mids sk) = Inr rs"
    and normal: "GetPayloadDuration K phy (s1 + sum_list mids + sk) tv preamble f NORMAL_MPDU
                   incFlag = Inr (d, phy')"
  shows "\<bar>real_of_int (sum_list (map fst rs)
            - (d + (int (length mids) + 1) * extension tv f MPDU_IN_AGGREGATE))\<bar>
          \<le> (real (length mids) + 2) + (real (length mids) + 4) * (real_of_int d + 1) / 2 ^ 52"
proof -
  define m where "m = length mids"
  define T where "T = Tsym_of tv"
  define x where "x = extension tv f MPDU_IN_AGGREGATE"
  define xn where "xn = extension tv f NORMAL_MPDU"
  define sz where "sz = s1 + sum_list mids + sk"
  define \<Sigma> where "\<Sigma> = sum_list (map fst rs)"
  define W where "W = wholeSymbols tv sz"
  define D0 where "D0 = NanoSecondsD (dmul W (of_int T))"
  note b = run_burst [OF sym pre run]
  from b(3) obtain S where
    h1: "\<bar>S - W\<bar> \<le> (real m + 1) * (W / 2 ^ 53)"
    and h2: "real_of_int (\<Sigma> - (int m + 1) * x - xn) \<le> S * of_int T * (1 + 1 / 2 ^ 53)"
    and h3: "S * of_int T * (1 - 1 / 2 ^ 53) - (real m + 2) \<le> real_of_int (\<Sigma> - (int m + 1) * x - xn)"
    unfolding m_def T_def x_def xn_def sz_def \<Sigma>_def W_def by blast
  have d: "d = D0 + xn"
    using normal unfolding call_normal [OF sym pre b(1)]
    by (simp add: D0_def xn_def T_def sz_def W_def)
  have W0: "0 \<le> W" unfolding W_def by (rule wholeSymbols_nonneg)
  have T0: "(0::real) \<le> of_int T" unfolding T_def using Tsym_of_pos [of tv] by simp
  have xn0: "0 \<le> xn" unfolding xn_def by (rule extension_nonneg)
  note f = frame_duration_bounds [OF W0 T0, folded D0_def]
  note g = conservation_arith_general [OF W0 T0 h1 h2 h3 f]
  have eq: "real_of_int (\<Sigma> - (d + (int m + 1) * x))
              = real_of_int (\<Sigma> - (int m + 1) * x - xn) - real_of_int D0"
    by (simp add: d)
  have "real_of_int D0 + 1 \<le> real_of_int d + 1" using xn0 by (simp add: d)
  then have "(real m + 4) * (real_of_int D0 + 1) / 2 ^ 52 \<le> (real m + 4) * (real_of_int d + 1) / 2 ^ 52"
    by (intro divide_right_mono mult_left_mono) simp_all
  with g have "\<bar>real_of_int (\<Sigma> - (d + (int m + 1) * x))\<bar>
          \<le> (real m + 2) + (real m + 4) * (real_of_int d + 1) / 2 ^ 52"
    unfolding eq by linarith
  then show ?thesis unfolding m_def x_def \<Sigma>_def .
qed

subsection \<open>Two aggregates at concrete inputs\<close>

text \<open>
  ERP-OFDM at 6 Mbit/s and 20 MHz carries 24 bits in a symbol of 4 microseconds; the symbol
  counts of an aggregate of 1 and 2 bytes are exact in binary64. HT MCS 0 with the short
  guard interval carries 25.92 bits in a symbol of 3.6 microseconds, and the symbol counts of
  an aggregate of 4 and 104 bytes are rounded.
\<close>

lemma erp6_params:
  "symbolic (txVector_of GetErpOfdmRate6Mbps 20)"
  "legacy (txVector_of GetErpOfdmRate6Mbps 20)"
  "numDataBitsPerSymbol_OFDM (txVector_of GetErpOfdmRate6Mbps 20) = 24"
  "divisor (txVector_of GetErpOfdmRate6Mbps 20) = 24"
  "Tsym_of (txVector_of GetErpOfdmRate6Mbps 20) = 4000"
  "extension (txVector_of GetErpOfdmRate6Mbps 20) f mpdutype = 6000"
  by (simp_all add: symbolic_def legacy_def divisor_def Tsym_of_def extension_def
      numDataBitsPerSymbol_OFDM_def symbolDuration_OFDM_def txVector_of_def
      GetErpOfdmRate6Mbps_def conv_defs double_defs)

lemma round_double_quarters:
  "round_double (3 / 4) = 3 / 4"
  "round_double (5 / 4) = 5 / 4"
  using round_double_exact [of 3 "-2"] round_double_exact [of 5 "-2"]
  by (simp_all add: power_int_minus)

lemma round_double_23_12: "round_double (23 / 12) = 8631899285793451 / 4503599627370496"
  by (subst round_double_eval [where k = 0]) (simp_all add: rhe_def)

lemma erp6_symbols:
  "firstSymbols (txVector_of GetErpOfdmRate6Mbps 20) 1 = 5 / 4"
  "wholeSymbols (txVector_of GetErpOfdmRate6Mbps 20) 3 = 2"
  by (simp_all add: firstSymbols_def wholeSymbols_def erp6_params
      double_defs to_double_def ceil_def lrint_def round_double_quarters round_double_23_12)

lemma erp6_run:
  "run K (txVector_of GetErpOfdmRate6Mbps 20) f WifiPhy_init (burst WIFI_PREAMBLE_LONG 1 [] 2)
     = Inr [(11000, \<lparr>m_totalAmpduSize = 1, m_totalAmpduNumSymbols = 5 / 4\<rparr>),
            (9000, WifiPhy_init)]"
proof -
  note p = erp6_params
  have N: "divisor (txVector_of GetErpOfdmRate6Mbps 20) \<noteq> 0" by (simp add: p)
  show ?thesis
    by (simp add: burst_def call_first [OF p(1) _ N] call_last [OF p(1) N] p erp6_symbols
        WifiPhy_init_def dadd_def dsub_def dmul_def round_double_quarters NanoSecondsD_def)
qed

lemma erp6_normal:
  "GetPayloadDuration K phy 3 (txVector_of GetErpOfdmRate6Mbps 20) WIFI_PREAMBLE_LONG f
     NORMAL_MPDU incFlag = Inr (14000, phy)"
proof -
  note p = erp6_params
  have N: "divisor (txVector_of GetErpOfdmRate6Mbps 20) \<noteq> 0" by (simp add: p)
  show ?thesis
    by (simp add: call_normal [OF p(1) _ N] p erp6_symbols dmul_def NanoSecondsD_def)
qed

lemma round_double_648_25: "round_double (648 / 25) = 1823957849085051 / 70368744177664"
  by (subst round_double_eval [where k = 4]) (simp_all add: rhe_def)

lemma round_double_sgi:
  "round_double (1823957849085051 / 70368744177664) = 1823957849085051 / 70368744177664"
  "round_double (1266637395197952 / 607985949695017) = 2345624805922133 / 1125899906842624"
  "round_double (2345624805922133 / 1125899906842624) = 2345624805922133 / 1125899906842624"
  "round_double (62346707341410304 / 1823957849085051) = 4810702726960671 / 140737488355328"
  "round_double (37060871933569707 / 1125899906842624) = 4632608991696213 / 140737488355328"
  "round_double (527765581332479925 / 70368744177664) = 8246337208319999 / 1099511627776"
  "round_double (1042337023131647925 / 8796093022208) = 8143257993215999 / 68719476736"
proof -
  show "round_double (1823957849085051 / 70368744177664) = 1823957849085051 / 70368744177664"
    by (subst round_double_eval [where k = 4]) (simp_all add: rhe_def)
  show "round_double (1266637395197952 / 607985949695017) = 2345624805922133 / 1125899906842624"
    by (subst round_double_eval [where k = 1]) (simp_all add: rhe_def)
  show "round_double (2345624805922133 / 1125899906842624) = 2345624805922133 / 1125899906842624"
    by (subst round_double_eval [where k = 1]) (simp_all add: rhe_def)
  show "round_double (62346707341410304 / 1823957849085051) = 4810702726960671 / 140737488355328"
    by (subst round_double_eval [where k = 5]) (simp_all add: rhe_def)
  show "round_double (37060871933569707 / 1125899906842624) = 4632608991696213 / 140737488355328"
    by (subst round_double_eval [where k = 5]) (simp_all add: rhe_def)
  show "round_double (527765581332479925 / 70368744177664) = 8246337208319999 / 1099511627776"
    by (subst round_double_eval [where k = 12]) (simp_all add: rhe_def)
  show "round_double (1042337023131647925 / 8796093022208) = 8143257993215999 / 68719476736"
    by (subst round_double_eval [where k = 16]) (simp_all add: rhe_def)
qed

lemma htsgi_params:
  "symbolic txVector_HtMcs0_sgi"
  "\<not> legacy txVector_HtMcs0_sgi"
  "m_Stbc txVector_HtMcs0_sgi = 1"
  "Nes txVector_HtMcs0_sgi = 1"
  "Tsym_of txVector_HtMcs0_sgi = 3600"
  "extension txVector_HtMcs0_sgi 5180 mpdutype = 0"
  "numDataBitsPerSymbol_HT txVector_HtMcs0_sgi = 1823957849085051 / 70368744177664"
  "divisor txVector_HtMcs0_sgi = 1823957849085051 / 70368744177664"
  by (simp_all add: symbolic_def legacy_def Tsym_of_def extension_def m_Stbc_def divisor_def
      Nes_def numDataBitsPerSymbol_HT_def symbolDuration_HT_def txVector_HtMcs0_sgi_def
      txVector_of_def GetHtMcs0_def conv_defs double_defs round_double_648_25 round_double_sgi)

lemma htsgi_symbols:
  "firstSymbols txVector_HtMcs0_sgi 4 = 2345624805922133 / 1125899906842624"
  "wholeSymbols txVector_HtMcs0_sgi 108 = 35"
  by (simp_all add: firstSymbols_def wholeSymbols_def htsgi_params
      double_defs to_double_def ceil_def lrint_def round_double_sgi)

lemma htsgi_run:
  "run K txVector_HtMcs0_sgi 5180 WifiPhy_init (burst WIFI_PREAMBLE_HT_MF 4 [] 104)
     = Inr [(7499, \<lparr>m_totalAmpduSize = 4,
                     m_totalAmpduNumSymbols = 2345624805922133 / 1125899906842624\<rparr>),
            (118499, WifiPhy_init)]"
proof -
  note p = htsgi_params
  have N: "divisor txVector_HtMcs0_sgi \<noteq> 0" by (simp add: p)
  show ?thesis
    by (simp add: burst_def call_first [OF p(1) _ N] call_last [OF p(1) N] p htsgi_symbols
        WifiPhy_init_def dadd_def dsub_def dmul_def round_double_sgi NanoSecondsD_def)
qed

lemma htsgi_normal:
  "GetPayloadDuration K phy 108 txVector_HtMcs0_sgi WIFI_PREAMBLE_HT_MF 5180 NORMAL_MPDU incFlag
     = Inr (126000, phy)"
proof -
  note p = htsgi_params
  have N: "divisor txVector_HtMcs0_sgi \<noteq> 0" by (simp add: p)
  show ?thesis
    by (simp add: call_normal [OF p(1) _ N] p htsgi_symbols dmul_def NanoSecondsD_def)
qed

text \<open>
  C3. The claim says that for legacy OFDM, ERP-OFDM, HT and VHT the durations returned for
  the frames of a committed aggregate add up to the duration of one normal MPDU of the total
  size, up to one symbol duration. For ERP-OFDM the branch adds the signal extension of 6
  microseconds to the duration of every frame it returns, also to the frames inside an
  aggregate. At 6 Mbit/s and 20 MHz an aggregate of a first frame of 1 byte and a last frame
  of 2 bytes returns 11000 ns and 9000 ns, while a normal MPDU of 3 bytes returns 14000 ns:
  the sum exceeds the single duration by 6000 ns, more than the symbol duration of 4000 ns.
\<close>

theorem C3_conservation_counterexample:
  "run floors_80211ad (txVector_of GetErpOfdmRate6Mbps 20) 2412 WifiPhy_init
     (burst WIFI_PREAMBLE_LONG 1 [] 2)
   = Inr [(11000, \<lparr>m_totalAmpduSize = 1, m_totalAmpduNumSymbols = 5 / 4\<rparr>),
          (9000, WifiPhy_init)]
   \<and> GetPayloadDuration floors_80211ad WifiPhy_init (1 + 2) (txVector_of GetErpOfdmRate6Mbps 20)
       WIFI_PREAMBLE_LONG 2412 NORMAL_MPDU 1 = Inr (14000, WifiPhy_init)
   \<and> symbolDuration_OFDM (txVector_of GetErpOfdmRate6Mbps 20) = 4000
   \<and> (11000 + 9000) - 14000 > (4000 :: Time)"
proof -
  have "symbolDuration_OFDM (txVector_of GetErpOfdmRate6Mbps 20) = 4000"
    by (simp add: symbolDuration_OFDM_def txVector_of_def MicroSeconds_def)
  then show ?thesis by (simp add: erp6_run erp6_normal)
qed

text \<open>
  C3, amended. Take a transmit vector of class OFDM, ERP-OFDM, HT or VHT and an aggregate of
  \<open>k\<close> frames (a first frame sent with a preamble, any number of following frames and a
  last frame), committed from the zero accumulator, whose calls all return. Then a normal
  MPDU of the total size returns a duration \<open>d\<close>, and the sum of the \<open>k\<close> returned
  durations differs from \<open>d + (k - 1) * e\<close> by at most \<open>k + (k + 2) * (d + 1) / 2 ^ 52\<close>
  nanoseconds, where \<open>e\<close> is the signal extension of 6 microseconds for ERP-OFDM and 0 for
  the other classes. If \<open>(k + 2) * d\<close> is at most \<open>2 ^ 53\<close> nanoseconds, the sum is at
  most \<open>d + (k - 1) * e\<close> and falls short of it by at most \<open>k\<close> nanoseconds: each frame
  loses less than one nanosecond when its duration is truncated, and nothing else is lost.
  (A call does not return when the number of data bits per symbol is zero or when the
  assertion of the last frame fails; such an aggregate has no sum of returned durations.)
\<close>

theorem C3_conservation_amended:
  assumes sym: "symbolic txVector" and pre: "preamble \<noteq> WIFI_PREAMBLE_NONE"
    and run: "run K txVector frequency WifiPhy_init (burst preamble s1 mids sk) = Inr rs"
  shows "\<exists>d. GetPayloadDuration K phy (s1 + sum_list mids + sk) txVector preamble frequency
               NORMAL_MPDU incFlag = Inr (d, phy)
           \<and> length rs = length mids + 2
           \<and> (let e = (if GetModulationClass (GetMode txVector) = WIFI_MOD_CLASS_ERP_OFDM
                        then MicroSeconds 6 else 0);
                   k = int (length mids) + 2
               in \<bar>real_of_int (sum_list (map fst rs) - (d + (k - 1) * e))\<bar>
                    \<le> of_int k + of_int (k + 2) * (of_int d + 1) / 2 ^ 52
                \<and> ((k + 2) * d \<le> 2 ^ 53 \<longrightarrow>
                      d + (k - 1) * e - k \<le> sum_list (map fst rs)
                    \<and> sum_list (map fst rs) \<le> d + (k - 1) * e))"
proof -
  note b = run_burst [OF sym pre run]
  define d where "d = NanoSecondsD (dmul (wholeSymbols txVector (s1 + sum_list mids + sk))
                                      (of_int (Tsym_of txVector)))
                        + extension txVector frequency NORMAL_MPDU"
  define e where "e = (if GetModulationClass (GetMode txVector) = WIFI_MOD_CLASS_ERP_OFDM
                        then MicroSeconds 6 else 0)"
  have e: "extension txVector frequency MPDU_IN_AGGREGATE = e"
    by (simp add: e_def extension_in_aggregate)
  have normal: "GetPayloadDuration K phy (s1 + sum_list mids + sk) txVector preamble frequency
                  NORMAL_MPDU incFlag = Inr (d, phy)"
    by (simp add: call_normal [OF sym pre b(1)] d_def)
  have k1: "int (length mids) + 2 - 1 = int (length mids) + 1"
    and k2: "int (length mids) + 2 + 2 = int (length mids) + 4"
    and k3: "real_of_int (int (length mids) + 2) = real (length mids) + 2"
    and k4: "real_of_int (int (length mids) + 4) = real (length mids) + 4"
    by simp_all
  have g: "\<bar>real_of_int (sum_list (map fst rs) - (d + (int (length mids) + 2 - 1) * e))\<bar>
             \<le> of_int (int (length mids) + 2)
               + of_int (int (length mids) + 2 + 2) * (of_int d + 1) / 2 ^ 52"
    unfolding k1 k2 k3 k4 using conservation_general [OF sym pre run normal] by (simp only: e)
  have c: "d + (int (length mids) + 2 - 1) * e - (int (length mids) + 2) \<le> sum_list (map fst rs)
         \<and> sum_list (map fst rs) \<le> d + (int (length mids) + 2 - 1) * e"
    if "(int (length mids) + 2 + 2) * d \<le> 2 ^ 53"
    unfolding k1 using conservation [OF sym pre run normal that [unfolded k2]] by (simp only: e)
  show ?thesis
    unfolding Let_def e_def [symmetric]
  proof (intro exI [of _ d] conjI impI)
    assume small: "(int (length mids) + 2 + 2) * d \<le> 2 ^ 53"
    show "d + (int (length mids) + 2 - 1) * e - (int (length mids) + 2) \<le> sum_list (map fst rs)"
      and "sum_list (map fst rs) \<le> d + (int (length mids) + 2 - 1) * e"
      using c [OF small] by simp_all
  qed (fact normal b(2) g)+
qed

theorem C3_conservation_amended_witness:
  "symbolic txVector_HtMcs0_sgi \<and> WIFI_PREAMBLE_HT_MF \<noteq> WIFI_PREAMBLE_NONE
   \<and> run floors_80211ad txVector_HtMcs0_sgi 5180 WifiPhy_init (burst WIFI_PREAMBLE_HT_MF 4 [] 104)
       = Inr [(7499, \<lparr>m_totalAmpduSize = 4,
                       m_totalAmpduNumSymbols = 2345624805922133 / 1125899906842624\<rparr>),
              (118499, WifiPhy_init)]
   \<and> GetPayloadDuration floors_80211ad WifiPhy_init (4 + sum_list [] + 104) txVector_HtMcs0_sgi
       WIFI_PREAMBLE_HT_MF 5180 NORMAL_MPDU 1 = Inr (126000, WifiPhy_init)
   \<and> (2 + 2) * 126000 \<le> (2 ^ 53 :: int)
   \<and> 126000 - 2 \<le> 7499 + (118499 :: Time) \<and> 7499 + 118499 \<le> (126000 :: Time)"
  using C3_conservation_amended [OF htsgi_params(1) _ htsgi_run [of floors_80211ad],
      where phy = WifiPhy_init and incFlag = 1]
  by (simp add: htsgi_params htsgi_run htsgi_normal)

end
